(* ===== verification/Prelude.thy ===== *)
theory Prelude
  imports Main "HOL-Library.Sublist"
begin

text \<open>
  Shared vocabulary of the development: Go error values with wrapping
  (\<open>errors.New\<close>, \<open>fmt.Errorf("...: %w", err)\<close>, \<open>errors.Is\<close>, \<open>errors.As\<close>),
  64-bit wrap-around, truncated division, and the generic facts on lists, finds and
  results that the component theories use through the collections below.
\<close>

named_theorems world_simps \<open>how a statement acts on the fields of the world\<close>
named_theorems inv_intros \<open>preservation of the table invariants by the operations\<close>

subsection \<open>Go errors\<close>

text \<open>
  A Go error is a sentinel made by \<open>errors.New\<close>, an error of the MySQL driver (its
  number and message), any other error of a library, or a wrapping \<open>fmt.Errorf\<close> with
  \<open>%w\<close>. \<open>errors_is\<close> walks the chain as \<open>errors.Is\<close> does, \<open>as_mysql\<close> as
  \<open>errors.As\<close> with a \<open>*mysql.MySQLError\<close> target.
\<close>

datatype gerr =
    Sentinel string
  | MySQLError nat string
  | OtherErr string
  | Wrapped string gerr

fun errors_is :: "gerr \<Rightarrow> gerr \<Rightarrow> bool" where
  "errors_is (Wrapped m e) t = (Wrapped m e = t \<or> errors_is e t)"
| "errors_is e t = (e = t)"

fun as_mysql :: "gerr \<Rightarrow> nat option" where
  "as_mysql (MySQLError n m) = Some n"
| "as_mysql (Wrapped m e) = as_mysql e"
| "as_mysql e = None"

fun err_text :: "gerr \<Rightarrow> string" where
  "err_text (Sentinel s) = s"
| "err_text (MySQLError n m) = m"
| "err_text (OtherErr s) = s"
| "err_text (Wrapped p e) = p @ '': '' @ err_text e"

lemma errors_is_refl [simp]: "errors_is e e"
  by (cases e) auto

lemma errors_is_Sentinel [simp]:
  "errors_is (Sentinel a) (Sentinel b) \<longleftrightarrow> a = b"
  "errors_is (MySQLError n m) (Sentinel b) \<longleftrightarrow> False"
  "errors_is (OtherErr s) (Sentinel b) \<longleftrightarrow> False"
  "errors_is (Wrapped p e) (Sentinel b) \<longleftrightarrow> errors_is e (Sentinel b)"
  by auto

subsection \<open>Machine integers\<close>

text \<open>
  Go's \<open>int\<close> and \<open>int64\<close> are 64-bit two's complement: arithmetic wraps, division
  truncates towards zero.
\<close>

definition int64_min :: int where "int64_min = - (2 ^ 63)"
definition int64_max :: int where "int64_max = 2 ^ 63 - 1"

definition wrap64 :: "int \<Rightarrow> int" where
  "wrap64 n = (n + 2 ^ 63) mod 2 ^ 64 - 2 ^ 63"

definition in_int64 :: "int \<Rightarrow> bool" where
  "in_int64 n \<longleftrightarrow> int64_min \<le> n \<and> n \<le> int64_max"

definition go_div :: "int \<Rightarrow> int \<Rightarrow> int" where
  "go_div a b = sgn a * sgn b * (\<bar>a\<bar> div \<bar>b\<bar>)"

definition go_mod :: "int \<Rightarrow> int \<Rightarrow> int" where
  "go_mod a b = a - b * go_div a b"

lemmas int64_defs = int64_min_def int64_max_def in_int64_def

lemma wrap64_range [simp]: "in_int64 (wrap64 n)"
  by (simp add: wrap64_def int64_defs)

lemma wrap64_id: "in_int64 n \<Longrightarrow> wrap64 n = n"
  by (simp add: wrap64_def int64_defs)

lemma go_div_nonneg: "0 \<le> a \<Longrightarrow> 0 < b \<Longrightarrow> go_div a b = a div b"
  by (cases "a = 0") (simp_all add: go_div_def)

subsection \<open>Lists as tables\<close>

text \<open>A lookup by key in a table is \<open>find\<close>; a keyed table has distinct keys.\<close>

lemma find_map_same_key:
  assumes "\<And>x. k (f x) = k x"
  shows "find (\<lambda>x. k x = i) (map f xs) = map_option f (find (\<lambda>x. k x = i) xs)"
  by (induction xs) (auto simp: assms)

lemma find_append:
  "find P (xs @ ys) = (case find P xs of None \<Rightarrow> find P ys | Some x \<Rightarrow> Some x)"
  by (induction xs) auto

lemma find_None_iff_key: "find (\<lambda>x. k x = i) xs = None \<longleftrightarrow> i \<notin> k ` set xs"
  by (induction xs) auto

lemma find_SomeD: "find P xs = Some x \<Longrightarrow> x \<in> set xs \<and> P x"
  by (induction xs) (auto split: if_splits)

lemma find_distinct_key:
  "distinct (map k xs) \<Longrightarrow> x \<in> set xs \<Longrightarrow> find (\<lambda>y. k y = k x) xs = Some x"
  by (induction xs) auto

lemma find_distinct_key_iff:
  "distinct (map k xs) \<Longrightarrow> find (\<lambda>y. k y = i) xs = Some x \<longleftrightarrow> x \<in> set xs \<and> k x = i"
  using find_SomeD find_distinct_key by fastforce

subsection \<open>Results\<close>

text \<open>
  A fallible operation returns \<open>gerr + 'a\<close>: \<open>Inl\<close> the error, \<open>Inr\<close> the value. An
  operation on a state returns the pair of the result and the next state.
\<close>

fun is_ok :: "'e + 'a \<Rightarrow> bool" where
  "is_ok (Inl e) = False"
| "is_ok (Inr x) = True"

lemma is_ok_iff: "is_ok r \<longleftrightarrow> (\<exists>x. r = Inr x)"
  by (cases r) auto

fun bind_res :: "('e + 'a) \<times> 's \<Rightarrow> ('a \<Rightarrow> 's \<Rightarrow> ('e + 'b) \<times> 's) \<Rightarrow> ('e + 'b) \<times> 's" where
  "bind_res (Inl e, s) f = (Inl e, s)"
| "bind_res (Inr x, s) f = f x s"

lemma bind_res_ok:
  "bind_res m f = (Inr y, s') \<longleftrightarrow> (\<exists>x s. m = (Inr x, s) \<and> f x s = (Inr y, s'))"
  by (cases m; cases "fst m") auto

lemma bind_res_err:
  "bind_res m f = (Inl e, s') \<longleftrightarrow> m = (Inl e, s') \<or> (\<exists>x s. m = (Inr x, s) \<and> f x s = (Inl e, s'))"
  by (cases m; cases "fst m") auto

fun map_err :: "('e \<Rightarrow> 'f) \<Rightarrow> ('e + 'a) \<times> 's \<Rightarrow> ('f + 'a) \<times> 's" where
  "map_err g (Inl e, s) = (Inl (g e), s)"
| "map_err g (Inr x, s) = (Inr x, s)"

lemma map_err_simps [simp]:
  "map_err g m = (Inr x, s) \<longleftrightarrow> m = (Inr x, s)"
  "map_err g m = (Inl f, s) \<longleftrightarrow> (\<exists>e. m = (Inl e, s) \<and> f = g e)"
  "snd (map_err g m) = snd m"
  by (cases m; cases "fst m"; auto)+

lemma snd_bind_res:
  "(\<And>x s. m = (Inr x, s) \<Longrightarrow> P (snd (f x s))) \<Longrightarrow> P (snd m) \<Longrightarrow> P (snd (bind_res m f))"
  by (cases m; cases "fst m") auto

end
