(* ===== verification/GoTime.thy ===== *)
theory GoTime
  imports GoStd
begin

text \<open>
  The parts of Go's \<open>time\<close> package the program uses: instants as nanoseconds since the
  Unix epoch in UTC, the saturating \<open>Time.Sub\<close>, and \<open>time.Parse\<close> and \<open>Time.Format\<close>
  with the layout \<open>2006-01-02\<close> over the proleptic Gregorian calendar. The main facts:
  the calendar conversion is a bijection, a parsed date is a midnight, and formatting a
  parsed date gives the string back.
\<close>

type_synonym time = int

definition second :: int where "second = 10 ^ 9"
definition millisecond :: int where "millisecond = 10 ^ 6"
definition day_ns :: int where "day_ns = 86400 * 10 ^ 9"

definition unix :: "time \<Rightarrow> int" where "unix t = t div second"
definition unix_milli :: "time \<Rightarrow> int" where "unix_milli t = t div millisecond"

text \<open>\<open>end.Sub(start)\<close> saturates at the largest and smallest \<open>Duration\<close>.\<close>

definition time_sub :: "time \<Rightarrow> time \<Rightarrow> int" where
  "time_sub t u = (if t - u > int64_max then int64_max
     else if t - u < int64_min then int64_min else t - u)"

lemma time_sub_exact: "in_int64 (t - u) \<Longrightarrow> time_sub t u = t - u"
  by (auto simp: time_sub_def int64_defs)

subsection \<open>The calendar\<close>

text \<open>Days are counted from 0000-01-01; \<open>epoch_days\<close> is the number of 1970-01-01.\<close>

definition leap :: "int \<Rightarrow> bool" where
  "leap y \<longleftrightarrow> y mod 4 = 0 \<and> (y mod 100 \<noteq> 0 \<or> y mod 400 = 0)"

definition days_before_year :: "int \<Rightarrow> int" where
  "days_before_year y = 365 * y + (y + 3) div 4 - (y + 99) div 100 + (y + 399) div 400"

definition year_length :: "int \<Rightarrow> int" where
  "year_length y = (if leap y then 366 else 365)"

fun days_in_month :: "int \<Rightarrow> nat \<Rightarrow> nat" where
  "days_in_month y m = (if m = 2 then (if leap y then 29 else 28)
     else if m \<in> {4, 6, 9, 11} then 30 else 31)"

definition days_before_month :: "int \<Rightarrow> nat \<Rightarrow> nat" where
  "days_before_month y m =
     [0, 31, 59, 90, 120, 151, 181, 212, 243, 273, 304, 334] ! (m - 1)
       + (if leap y \<and> m > 2 then 1 else 0)"

definition valid_date :: "int \<Rightarrow> nat \<Rightarrow> nat \<Rightarrow> bool" where
  "valid_date y m d \<longleftrightarrow> 1 \<le> m \<and> m \<le> 12 \<and> 1 \<le> d \<and> d \<le> days_in_month y m"

definition days_of_date :: "int \<Rightarrow> nat \<Rightarrow> nat \<Rightarrow> int" where
  "days_of_date y m d = days_before_year y + int (days_before_month y m) + int d - 1"

definition epoch_days :: int where "epoch_days = 719528"

lemma epoch_is_1970: "days_of_date 1970 1 1 = epoch_days"
  by (simp add: days_of_date_def days_before_year_def days_before_month_def epoch_days_def)

text \<open>The year of a day number: an estimate that is off by at most one, then corrected.\<close>

definition year_of_days :: "int \<Rightarrow> int" where
  "year_of_days n = (let y = n * 400 div 146097
     in if days_before_year (y + 1) \<le> n then y + 1
        else if n < days_before_year y then y - 1 else y)"

fun month_of_yday :: "int \<Rightarrow> nat \<Rightarrow> nat \<Rightarrow> nat" where
  "month_of_yday y k m =
     (if m \<le> 1 then 1 else if days_before_month y m \<le> k then m else month_of_yday y k (m - 1))"

declare month_of_yday.simps [simp del]

definition date_of_days :: "int \<Rightarrow> int \<times> nat \<times> nat" where
  "date_of_days n =
     (let y = year_of_days n; k = nat (n - days_before_year y); m = month_of_yday y k 12
      in (y, m, k - days_before_month y m + 1))"

lemma round_up_div_step:
  assumes "0 < (c::int)"
  shows "(y + c) div c = (y + (c - 1)) div c + (if y mod c = 0 then 1 else 0)"
proof -
  define q r where qr: "q = y div c" "r = y mod c"
  then have y: "y = c * q + r" and r: "0 \<le> r" "r < c" using assms by simp_all
  have "(y + c) div c = q + 1" using y r by (intro int_div_pos_eq [of _ _ _ r]) (auto simp: algebra_simps)
  moreover have "(y + (c - 1)) div c = (if r = 0 then q else q + 1)"
  proof (cases "r = 0")
    case True
    with y assms show ?thesis by (simp add: int_div_pos_eq [of _ c q "c - 1"])
  next
    case False
    with y r show ?thesis by (simp add: int_div_pos_eq [of _ c "q + 1" "r - 1"] algebra_simps)
  qed
  ultimately show ?thesis by (simp add: qr)
qed

lemma round_up_div_dvd:
  "0 < c \<Longrightarrow> b = c - 1 \<Longrightarrow> (y + c) div c = (y + b) div c + (if c dvd (y::int) then 1 else 0)"
  using round_up_div_step [of c y] by (simp only: dvd_eq_mod_eq_0)

lemma days_before_year_step: "days_before_year (y + 1) = days_before_year y + year_length y"
proof -
  define p q r where d: "p = (y + 3) div 4" "q = (y + 99) div 100" "r = (y + 399) div 400"
  define A B C where abc: "A = (4 dvd y)" "B = (100 dvd y)" "C = (400 dvd y)"
  have "B \<longrightarrow> A"
    unfolding abc by (rule impI, rule dvd_trans [of 4 100 y], simp, assumption)
  moreover have "C \<longrightarrow> B"
    unfolding abc by (rule impI, rule dvd_trans [of 100 400 y], simp, assumption)
  moreover have "leap y \<longleftrightarrow> A \<and> (\<not> B \<or> C)"
    unfolding leap_def abc dvd_eq_mod_eq_0 by (rule refl)
  ultimately have l: "year_length y = 365 + (if A then 1 else 0) - (if B then 1 else 0)
      + (if C then 1 else 0)"
    unfolding year_length_def by (cases A; cases B; cases C; simp only:) simp_all
  have s: "(y + 4) div 4 = p + (if A then 1 else 0)"
    "(y + 100) div 100 = q + (if B then 1 else 0)"
    "(y + 400) div 400 = r + (if C then 1 else 0)"
    unfolding d abc by (rule round_up_div_dvd; simp)+
  have "days_before_year (y + 1) = 365 * (y + 1) + (y + 4) div 4 - (y + 100) div 100 + (y + 400) div 400"
    by (simp add: days_before_year_def add.assoc)
  also have "\<dots> = days_before_year y + year_length y"
    unfolding s l by (simp add: days_before_year_def d)
  finally show ?thesis .
qed

lemma year_length_bounds: "365 \<le> year_length y" "year_length y \<le> 366"
  by (simp_all add: year_length_def)

lemma days_before_year_mono: "y \<le> z \<Longrightarrow> days_before_year y + 365 * (z - y) \<le> days_before_year z"
proof (induction "nat (z - y)" arbitrary: z)
  case 0
  then show ?case by simp
next
  case (Suc k)
  then have "k = nat (z - 1 - y)" "y \<le> z - 1" by auto
  then have "days_before_year y + 365 * (z - 1 - y) \<le> days_before_year (z - 1)"
    by (rule Suc.hyps(1))
  then show ?case
    using days_before_year_step [of "z - 1"] year_length_bounds(1) [of "z - 1"] by simp
qed

lemma year_unique:
  assumes "days_before_year y \<le> n" "n < days_before_year (y + 1)"
    and "days_before_year z \<le> n" "n < days_before_year (z + 1)"
  shows "y = z"
proof (rule ccontr)
  assume "y \<noteq> z"
  then consider "y + 1 \<le> z" | "z + 1 \<le> y" by linarith
  then show False
  proof cases
    case 1
    then show False using days_before_year_mono [OF 1] assms by simp
  next
    case 2
    then show False using days_before_year_mono [OF 2] assms by simp
  qed
qed

lemma div_bounds: "0 < (c::int) \<Longrightarrow> c * (a div c) \<le> a" "0 < c \<Longrightarrow> a < c * (a div c) + c"
  using mult_div_mod_eq [of c a] pos_mod_sign [of c a] pos_mod_bound [of c a] by linarith+

lemma days_before_year_estimate:
  "146097 * y - 800 < days_before_year y * 400" "days_before_year y * 400 < 146097 * y + 1000"
proof -
  define p q r where d: "p = (y + 3) div 4" "q = (y + 99) div 100" "r = (y + 399) div 400"
  have "4 * p \<le> y + 3" "y + 3 < 4 * p + 4" "100 * q \<le> y + 99" "y + 99 < 100 * q + 100"
    "400 * r \<le> y + 399" "y + 399 < 400 * r + 400"
    unfolding d by (rule div_bounds; simp)+
  moreover have "days_before_year y = 365 * y + p - q + r"
    by (simp add: days_before_year_def d)
  ultimately show "146097 * y - 800 < days_before_year y * 400"
    "days_before_year y * 400 < 146097 * y + 1000" by simp_all
qed

lemma year_of_days_bounds:
  "days_before_year (year_of_days n) \<le> n" "n < days_before_year (year_of_days n + 1)"
proof -
  define y where "y = n * 400 div 146097"
  have y: "146097 * y \<le> n * 400" "n * 400 < 146097 * y + 146097"
    unfolding y_def by (rule div_bounds; simp)+
  have "days_before_year (y - 1) * 400 < n * 400"
    using days_before_year_estimate(2) [of "y - 1"] y by (simp add: right_diff_distrib)
  then have lo: "days_before_year (y - 1) \<le> n" by simp
  have "n * 400 < days_before_year (y + 2) * 400"
    using days_before_year_estimate(1) [of "y + 2"] y by (simp add: distrib_left)
  then have hi: "n < days_before_year (y + 2)" by simp
  have e: "year_of_days n = (if days_before_year (y + 1) \<le> n then y + 1
      else if n < days_before_year y then y - 1 else y)"
    by (simp add: year_of_days_def y_def Let_def)
  show "days_before_year (year_of_days n) \<le> n" using lo by (simp add: e)
  show "n < days_before_year (year_of_days n + 1)" using hi by (simp add: e add.commute)
qed

lemma year_of_days_unique:
  "days_before_year y \<le> n \<Longrightarrow> n < days_before_year (y + 1) \<Longrightarrow> year_of_days n = y"
  using year_unique year_of_days_bounds by blast

lemma month_cases: "1 \<le> m \<Longrightarrow> m \<le> 12 \<Longrightarrow>
    m = 1 \<or> m = 2 \<or> m = 3 \<or> m = 4 \<or> m = 5 \<or> m = 6 \<or> m = 7 \<or> m = 8 \<or> m = 9 \<or> m = 10 \<or> m = 11 \<or> m = (12::nat)"
  by presburger

lemma days_before_month_step:
  "1 \<le> m \<Longrightarrow> m < 12 \<Longrightarrow> days_before_month y (m + 1) = days_before_month y m + days_in_month y m"
  by (frule month_cases, simp) (elim disjE; simp add: days_before_month_def)

lemma days_before_month_mono:
  "1 \<le> i \<Longrightarrow> i \<le> j \<Longrightarrow> j \<le> 12 \<Longrightarrow> days_before_month y i \<le> days_before_month y j"
proof (induction j)
  case (Suc j)
  then show ?case using days_before_month_step [of j y] by (cases "i = Suc j") auto
qed simp

lemma month_of_yday_eq:
  "1 \<le> m \<Longrightarrow> m \<le> n \<Longrightarrow> n \<le> 12 \<Longrightarrow> days_before_month y m \<le> k \<Longrightarrow>
     m = 12 \<or> k < days_before_month y (m + 1) \<Longrightarrow> month_of_yday y k n = m"
proof (induction n)
  case (Suc n)
  show ?case
  proof (cases "m = Suc n")
    case True
    with Suc.prems show ?thesis by (simp add: month_of_yday.simps [of y k "Suc n"])
  next
    case False
    with Suc.prems have m: "m \<le> n" "k < days_before_month y (m + 1)" by auto
    then have "k < days_before_month y (Suc n)"
      using days_before_month_mono [of "m + 1" "Suc n" y] Suc.prems by simp
    with Suc m show ?thesis by (simp add: month_of_yday.simps [of y k "Suc n"])
  qed
qed simp

lemma month_of_yday_date:
  assumes "valid_date y m d"
  shows "month_of_yday y (days_before_month y m + d - 1) 12 = m"
proof -
  from assms have m: "1 \<le> m" "m \<le> 12" "1 \<le> d" "d \<le> days_in_month y m"
    by (simp_all only: valid_date_def)
  then have "m = 12 \<or> days_before_month y m + d - 1 < days_before_month y (m + 1)"
    using days_before_month_step [of m y] by linarith
  with m show ?thesis by (intro month_of_yday_eq) auto
qed

lemma yday_bound: "valid_date y m d \<Longrightarrow> int (days_before_month y m + d) \<le> year_length y"
proof -
  assume v: "valid_date y m d"
  then have m: "days_before_month y m + d \<le> days_before_month y m + days_in_month y m"
    "1 \<le> m" "m \<le> 12" by (simp_all only: valid_date_def add_le_cancel_left)
  have "days_before_month y m + days_in_month y m \<le> days_before_month y 12 + 31"
  proof (cases "m = 12")
    case False
    with m have "days_before_month y (m + 1) \<le> days_before_month y 12"
      by (intro days_before_month_mono) auto
    with False m days_before_month_step [of m y] show ?thesis by simp
  qed simp
  also have "int \<dots> \<le> year_length y" by (simp add: days_before_month_def year_length_def)
  finally show ?thesis using m by linarith
qed

lemma date_of_days_of_date: "valid_date y m d \<Longrightarrow> date_of_days (days_of_date y m d) = (y, m, d)"
proof -
  assume v: "valid_date y m d"
  then have d: "1 \<le> d" by (simp add: valid_date_def)
  let ?n = "days_of_date y m d"
  have y: "year_of_days ?n = y"
    using yday_bound [OF v] d
    by (intro year_of_days_unique) (simp_all add: days_of_date_def days_before_year_step)
  have k: "nat (?n - days_before_year y) = days_before_month y m + d - 1"
    using d by (simp add: days_of_date_def)
  have "month_of_yday y (nat (?n - days_before_year y)) 12 = m"
    by (simp only: k month_of_yday_date [OF v])
  then show ?thesis using d k by (simp add: date_of_days_def Let_def y)
qed

text \<open>The other direction: every day number is the day of a valid date.\<close>

lemma month_of_yday_range:
  "1 \<le> n \<Longrightarrow> n \<le> 12 \<Longrightarrow> n = 12 \<or> k < days_before_month y (n + 1) \<Longrightarrow>
     m = month_of_yday y k n \<Longrightarrow>
     1 \<le> m \<and> m \<le> n \<and> days_before_month y m \<le> k \<and> (m = 12 \<or> k < days_before_month y (m + 1))"
proof (induction n arbitrary: m)
  case (Suc n)
  consider "n = 0" | "n \<noteq> 0" "days_before_month y (Suc n) \<le> k"
    | "n \<noteq> 0" "k < days_before_month y (Suc n)" by linarith
  then show ?case
  proof cases
    case 1
    then have "m = 1" using Suc.prems by (simp add: month_of_yday.simps [of y k "Suc 0"])
    with 1 Suc.prems show ?thesis by (simp add: days_before_month_def)
  next
    case 2
    with Suc.prems show ?thesis by (simp add: month_of_yday.simps [of y k "Suc n"])
  next
    case 3
    with Suc.prems have "m = month_of_yday y k n" by (simp add: month_of_yday.simps [of y k "Suc n"])
    with 3 Suc.prems Suc.IH [of m] show ?thesis by auto
  qed
qed simp

lemma days_of_date_of_days:
  assumes "date_of_days n = (y, m, d)"
  shows "valid_date y m d" and "days_of_date y m d = n"
proof -
  define k where "k = nat (n - days_before_year y)"
  have y: "y = year_of_days n" using assms by (simp add: date_of_days_def Let_def)
  have ik: "int k = n - days_before_year y"
    using year_of_days_bounds(1) [of n] by (simp add: k_def y)
  have kb: "int k < year_length y"
    using year_of_days_bounds(2) [of n] by (simp add: ik y days_before_year_step)
  have m: "m = month_of_yday y k 12" and d: "d = k - days_before_month y m + 1"
    using assms by (auto simp: date_of_days_def Let_def k_def y)
  have r: "1 \<le> m" "m \<le> 12" "days_before_month y m \<le> k"
      "m = 12 \<or> k < days_before_month y (m + 1)"
    using month_of_yday_range [of 12 k y m] m by auto
  have "k < days_before_month y m + days_in_month y m"
  proof (cases "m = 12")
    case True
    with kb show ?thesis by (simp add: days_before_month_def year_length_def split: if_splits)
  next
    case False
    with r days_before_month_step [of m y] show ?thesis by linarith
  qed
  then have "1 \<le> d" "d \<le> days_in_month y m" using r(3) unfolding d by linarith+
  with r show "valid_date y m d" by (simp only: valid_date_def)
  show "days_of_date y m d = n" using r(3) ik by (simp add: days_of_date_def d)
qed

subsection \<open>The layout 2006-01-02\<close>

definition pad2 :: "nat \<Rightarrow> string" where
  "pad2 n = [digit_char (n div 10), digit_char (n mod 10)]"

definition pad4 :: "nat \<Rightarrow> string" where
  "pad4 n = (if n < 10000
     then [digit_char (n div 1000), digit_char (n div 100 mod 10), digit_char (n div 10 mod 10),
           digit_char (n mod 10)]
     else dec n)"

definition format_year :: "int \<Rightarrow> string" where
  "format_year y = (if y < 0 then CHR ''-'' # pad4 (nat (- y)) else pad4 (nat y))"

definition format_date :: "time \<Rightarrow> string" where
  "format_date t = (case date_of_days (t div day_ns + epoch_days) of
     (y, m, d) \<Rightarrow> format_year y @ ''-'' @ pad2 m @ ''-'' @ pad2 d)"

definition midnight :: "int \<Rightarrow> nat \<Rightarrow> nat \<Rightarrow> time" where
  "midnight y m d = (days_of_date y m d - epoch_days) * day_ns"

fun parse_date :: "string \<Rightarrow> time option" where
  "parse_date [a, b, c, d, h1, e, f, h2, g, h] =
     (if list_all is_digit [a, b, c, d, e, f, g, h] \<and> h1 = CHR ''-'' \<and> h2 = CHR ''-''
      then let y = int (digit_val a * 1000 + digit_val b * 100 + digit_val c * 10 + digit_val d);
               m = digit_val e * 10 + digit_val f; dd = digit_val g * 10 + digit_val h
           in if valid_date y m dd then Some (midnight y m dd) else None
      else None)"
| "parse_date _ = None"

lemma day_ns_pos [simp]: "0 < day_ns" "day_ns \<noteq> 0"
  by (simp_all add: day_ns_def)

lemma midnight_mod [simp]: "midnight y m d mod day_ns = 0"
  by (simp add: midnight_def)

lemma format_midnight:
  "valid_date y m d \<Longrightarrow> format_date (midnight y m d) = format_year y @ ''-'' @ pad2 m @ ''-'' @ pad2 d"
  by (simp add: format_date_def midnight_def date_of_days_of_date)

fun_cases parse_date_SomeE: "parse_date s = Some t"

lemma pad4_digits:
  "is_digit a \<Longrightarrow> is_digit b \<Longrightarrow> is_digit c \<Longrightarrow> is_digit d \<Longrightarrow>
     pad4 (digit_val a * 1000 + digit_val b * 100 + digit_val c * 10 + digit_val d) = [a, b, c, d]"
proof -
  assume h: "is_digit a" "is_digit b" "is_digit c" "is_digit d"
  define n where "n = digit_val a * 1000 + digit_val b * 100 + digit_val c * 10 + digit_val d"
  note b = digit_val_bound [OF h(1)] digit_val_bound [OF h(2)] digit_val_bound [OF h(3)]
    digit_val_bound [OF h(4)]
  define u where "u = (digit_val a * 10 + digit_val b) * 10 + digit_val c"
  have "n = u * 10 + digit_val d" by (simp add: n_def u_def algebra_simps)
  then have e1: "n div 10 = (digit_val a * 10 + digit_val b) * 10 + digit_val c"
    "n mod 10 = digit_val d" using b(4) unfolding u_def [symmetric] by simp_all
  have e2: "n div 100 = digit_val a * 10 + digit_val b"
    using b(3) e1 by (simp add: div_mult2_eq [of n 10 10, simplified])
  have e3: "n div 1000 = digit_val a"
    using b(2) e2 by (simp add: div_mult2_eq [of n 100 10, simplified])
  define w where "w = digit_val a * 10 + digit_val b"
  have e4: "n div 10 mod 10 = digit_val c" "n div 100 mod 10 = digit_val b"
    unfolding e1(1) e2 w_def [symmetric] using b(2,3) by (simp, simp add: w_def)
  have "n < 10000" using b unfolding n_def by linarith
  then have "pad4 n = [digit_char (digit_val a), digit_char (digit_val b), digit_char (digit_val c),
      digit_char (digit_val d)]"
    using e3 unfolding pad4_def by (simp only: e1(2) e4 if_True)
  then show ?thesis using h by (simp add: n_def)
qed

lemma pad4_digits_int:
  "is_digit a \<Longrightarrow> is_digit b \<Longrightarrow> is_digit c \<Longrightarrow> is_digit d \<Longrightarrow>
     pad4 (nat (int (digit_val a) * 1000 + int (digit_val b) * 100 + int (digit_val c) * 10
       + int (digit_val d))) = [a, b, c, d]"
  using pad4_digits [of a b c d]
    nat_int [of "digit_val a * 1000 + digit_val b * 100 + digit_val c * 10 + digit_val d"]
  by simp

lemma pad2_digits:
  "is_digit a \<Longrightarrow> is_digit b \<Longrightarrow> pad2 (digit_val a * 10 + digit_val b) = [a, b]"
  using digit_val_bound [of b] by (simp add: pad2_def)

lemma parse_date_format: "parse_date s = Some t \<Longrightarrow> format_date t = s \<and> t mod day_ns = 0"
  by (erule parse_date_SomeE)
    (auto simp: Let_def format_midnight format_year_def pad4_digits_int pad2_digits
      simp del: days_in_month.simps split: if_splits)

lemma pad2_chars:
  "n < 100 \<Longrightarrow> is_digit (digit_char (n div 10)) \<and> is_digit (digit_char (n mod 10)) \<and>
     digit_val (digit_char (n div 10)) * 10 + digit_val (digit_char (n mod 10)) = n"
  by simp

lemma decimal4: "(n::nat) div 1000 * 1000 + n div 100 mod 10 * 100 + n div 10 mod 10 * 10 + n mod 10 = n"
proof -
  have "n div 10 div 10 = n div 100" "n div 100 div 10 = n div 1000"
    by (simp_all flip: div_mult2_eq)
  then have "n div 10 = n div 100 * 10 + n div 10 mod 10" "n div 100 = n div 1000 * 10 + n div 100 mod 10"
    by (metis div_mult_mod_eq)+
  moreover have "n = n div 10 * 10 + n mod 10" by simp
  ultimately show ?thesis by linarith
qed

lemma parse_format_date:
  assumes v: "valid_date y m d" and y: "0 \<le> y" "y < 10000"
  shows "parse_date (format_date (midnight y m d)) = Some (midnight y m d)"
proof -
  have "days_in_month y m \<le> 31" by simp
  then have md: "m < 100" "d < 100" using v by (auto simp only: valid_date_def)
  define n where "n = nat y"
  have n: "n < 10000" "y = int n" using y by (simp_all add: n_def)
  define a b c e where abce: "a = n div 1000" "b = n div 100 mod 10" "c = n div 10 mod 10" "e = n mod 10"
  have dig: "a < 10" "b < 10" "c < 10" "e < 10" using n(1) by (simp_all add: abce) 
  have sum: "a * 1000 + b * 100 + c * 10 + e = n" by (simp only: abce decimal4)
  have "format_date (midnight y m d) = [digit_char a, digit_char b, digit_char c, digit_char e] @ ''-''
      @ pad2 m @ ''-'' @ pad2 d"
    unfolding format_midnight [OF v] format_year_def pad4_def using n y by (simp add: abce)
  then have "format_date (midnight y m d) = [digit_char a, digit_char b, digit_char c, digit_char e,
      CHR ''-'', digit_char (m div 10), digit_char (m mod 10), CHR ''-'', digit_char (d div 10),
      digit_char (d mod 10)]"
    by (simp add: pad2_def)
  moreover have "m div 10 < 10" "d div 10 < 10" using md by linarith+
  ultimately show ?thesis
    using dig sum v n(2) by (simp add: Let_def del: days_in_month.simps of_nat_add of_nat_mult)
qed

end
