(* ===== verification/GoFloat.thy ===== *)
theory GoFloat
  imports Complex_Main GoTime
begin

text \<open>
  Go's \<open>float64\<close> arithmetic on the exact rationals: every operation is the exact result
  rounded to 53 significant bits, ties to even (\<open>fl\<close>), and \<open>int(f)\<close> truncates towards
  zero. The values the program computes with floats lie far inside the exponent range, so
  overflow and subnormal numbers are left out. The two facts the rest uses: integers below
  \<open>2^53\<close> are exact, and rounding changes a value by at most one part in \<open>2^53\<close>.
\<close>

fun bit_len :: "nat \<Rightarrow> nat" where
  "bit_len n = (if n = 0 then 0 else Suc (bit_len (n div 2)))"

declare bit_len.simps [simp del]

definition two_pow :: "int \<Rightarrow> rat" where
  "two_pow e = (if e \<ge> 0 then 2 ^ nat e else 1 / 2 ^ nat (- e))"

definition exp2 :: "rat \<Rightarrow> int" where
  "exp2 x = (let (p, q) = quotient_of x; e = int (bit_len (nat p)) - int (bit_len (nat q))
     in if two_pow e \<le> x then e else e - 1)"

definition round_even :: "rat \<Rightarrow> int" where
  "round_even y = (let f = \<lfloor>y\<rfloor>; d = y - of_int f
     in if d < 1 / 2 then f else if d > 1 / 2 then f + 1 else if even f then f else f + 1)"

definition fl :: "rat \<Rightarrow> rat" where
  "fl x = (if x = 0 then 0
     else let s = 52 - exp2 \<bar>x\<bar>
          in sgn x * (of_int (round_even (\<bar>x\<bar> * two_pow s)) * two_pow (- s)))"

definition float_to_int :: "rat \<Rightarrow> int" where
  "float_to_int x = (if x \<ge> 0 then \<lfloor>x\<rfloor> else \<lceil>x\<rceil>)"

lemma two_pow_pos [simp]: "0 < two_pow e" "two_pow e \<noteq> 0"
  by (simp_all add: two_pow_def)

lemma two_pow_add: "two_pow (a + b) = two_pow a * two_pow b"
proof -
  have "two_pow e = 2 powi e" for e
    by (simp only: two_pow_def power_int_def inverse_eq_divide power_one_over)
  then show ?thesis by (simp add: power_int_add)
qed

lemma two_pow_neg: "two_pow (- a) * two_pow a = 1"
  using two_pow_add [of "- a" a] by (simp add: two_pow_def)

lemma two_pow_mono: "a \<le> b \<Longrightarrow> two_pow a \<le> two_pow b"
proof -
  assume "a \<le> b"
  then have "two_pow b = two_pow a * 2 ^ nat (b - a)"
    using two_pow_add [of a "b - a"] by (simp add: two_pow_def)
  then show ?thesis using two_pow_pos(1) [of a] by simp
qed

lemma bit_len_bounds: "0 < n \<Longrightarrow> n < 2 ^ bit_len n \<and> 2 ^ (bit_len n - 1) \<le> n \<and> 0 < bit_len n"
proof (induction n rule: bit_len.induct)
  case (1 n)
  show ?case
  proof (cases "n div 2 = 0")
    case True
    with 1 have "n = 1" by linarith
    then show ?thesis by (simp add: bit_len.simps)
  next
    case False
    with 1 have ih: "n div 2 < 2 ^ bit_len (n div 2)" "2 ^ (bit_len (n div 2) - 1) \<le> n div 2"
        "0 < bit_len (n div 2)" by simp_all
    then obtain k where k: "bit_len (n div 2) = Suc k" by (cases "bit_len (n div 2)") auto
    define w where "w = (2::nat) ^ k"
    have "n div 2 < 2 * w" "w \<le> n div 2" using ih k by (simp_all add: w_def)
    then have "n < 4 * w" "2 * w \<le> n" by linarith+
    then show ?thesis using "1.prems" by (simp add: bit_len.simps [of n] k w_def)
  qed
qed

lemma exp2_bounds:
  assumes "0 < x"
  shows "two_pow (exp2 x) \<le> x" and "x < two_pow (exp2 x + 1)"
proof -
  obtain p q where pq: "quotient_of x = (p, q)" by (cases "quotient_of x")
  then have x: "x = of_int p / of_int q" and q: "0 < q"
    using quotient_of_div quotient_of_denom_pos by blast+
  with assms have p: "0 < p" by (simp add: zero_less_divide_iff)
  define i j where ij: "i = bit_len (nat p)" "j = bit_len (nat q)"
  have bp: "nat p < 2 ^ i" "2 ^ (i - 1) \<le> nat p" "0 < i" and bq: "nat q < 2 ^ j" "2 ^ (j - 1) \<le> nat q" "0 < j"
    using bit_len_bounds [of "nat p"] bit_len_bounds [of "nat q"] p q by (simp_all add: ij)
  have tp: "two_pow (int n) = 2 ^ n" for n by (simp add: two_pow_def)
  have P: "of_int p < two_pow (int i)" "two_pow (int i - 1) \<le> of_int p"
    and Q: "of_int q < two_pow (int j)" "two_pow (int j - 1) \<le> of_int q"
  proof -
    have c: "(of_int a :: rat) = of_nat (nat a)" if "0 < a" for a using that by simp
    have e: "two_pow (int k - 1) = of_nat (2 ^ (k - 1))" if "0 < k" for k
      using that tp [of "k - 1"] by (simp add: of_nat_diff)
    have f: "two_pow (int k) = of_nat (2 ^ k)" for k by (simp add: tp)
    show "of_int p < two_pow (int i)" "two_pow (int i - 1) \<le> of_int p"
      unfolding c [OF p] e [OF bp(3)] f using bp(1,2) by (simp_all only: of_nat_less_iff of_nat_le_iff)
    show "of_int q < two_pow (int j)" "two_pow (int j - 1) \<le> of_int q"
      unfolding c [OF q] e [OF bq(3)] f using bq(1,2) by (simp_all only: of_nat_less_iff of_nat_le_iff)
  qed
  have up: "x < two_pow (int i - int j + 1)"
  proof -
    have "of_int p < two_pow (int i - int j + 1) * two_pow (int j - 1)"
      using P(1) by (simp flip: two_pow_add)
    also have "\<dots> \<le> two_pow (int i - int j + 1) * of_int q"
      using Q(2) by (intro mult_left_mono) (simp_all add: less_imp_le)
    finally show ?thesis using q by (simp add: x divide_less_eq)
  qed
  have lo: "two_pow (int i - int j - 1) \<le> x"
  proof -
    have "two_pow (int i - int j - 1) * of_int q \<le> two_pow (int i - int j - 1) * two_pow (int j)"
      using Q(1) by (intro mult_left_mono) (simp_all add: less_imp_le)
    also have "\<dots> = two_pow (int i - 1)" by (simp flip: two_pow_add)
    finally show ?thesis using P(2) q by (simp add: x le_divide_eq)
  qed
  have e: "exp2 x = (if two_pow (int i - int j) \<le> x then int i - int j else int i - int j - 1)"
    by (simp add: exp2_def pq ij Let_def)
  show "two_pow (exp2 x) \<le> x" using lo by (simp add: e)
  show "x < two_pow (exp2 x + 1)" using up by (simp add: e not_le)
qed

lemma round_even_error: "\<bar>of_int (round_even y) - y\<bar> \<le> 1 / 2"
proof -
  define f where "f = (of_int \<lfloor>y\<rfloor> :: rat)"
  have f: "f \<le> y" "y < f + 1" using floor_correct [of y] by (simp_all add: f_def)
  have "of_int (round_even y) = (if y - f < 1 / 2 then f else if y - f > 1 / 2 then f + 1
      else if even \<lfloor>y\<rfloor> then f else f + 1)"
    by (simp add: round_even_def Let_def f_def)
  then consider "of_int (round_even y) = f" "y - f \<le> 1 / 2"
    | "of_int (round_even y) = f + 1" "1 / 2 \<le> y - f" by (metis linorder_not_le order_less_imp_le)
  then show ?thesis
  proof cases
    case 1
    show ?thesis unfolding 1(1) abs_le_iff using 1(2) f(1) by linarith
  next
    case 2
    show ?thesis unfolding 2(1) abs_le_iff using 2(2) f(2) by linarith
  qed
qed

lemma round_even_int [simp]: "round_even (of_int n) = n"
  by (simp add: round_even_def)

lemma fl_zero [simp]: "fl 0 = 0"
  by (simp add: fl_def)

lemma fl_error: "\<bar>fl x - x\<bar> \<le> \<bar>x\<bar> / 2 ^ 53"
proof (cases "x = 0")
  case False
  define a s where "a = \<bar>x\<bar>" and s: "s = 52 - exp2 a"
  then have a: "0 < a" "x = sgn x * a" using False by (simp_all add: mult_sgn_abs)
  define r where "r = (of_int (round_even (a * two_pow s)) :: rat)"
  have "fl x = sgn x * (r * two_pow (- s))"
    using False by (simp add: fl_def Let_def a_def [symmetric] s r_def)
  then have "fl x - x = sgn x * (r * two_pow (- s) - a)"
    using a(2) by (metis right_diff_distrib)
  also have "r * two_pow (- s) - a = (r - a * two_pow s) * two_pow (- s)"
    using two_pow_neg [of s] by (simp add: algebra_simps)
  finally have "\<bar>fl x - x\<bar> = \<bar>r - a * two_pow s\<bar> * two_pow (- s)"
    using False by (simp add: abs_mult abs_of_pos sgn_if)
  also have "\<dots> \<le> 1 / 2 * two_pow (- s)"
    using round_even_error [of "a * two_pow s"] unfolding r_def
    by (intro mult_right_mono) (simp_all add: less_imp_le)
  also have "\<dots> = two_pow (exp2 a) * (1 / 2 ^ 53)"
  proof -
    have "- s = exp2 a + (- 52)" by (simp add: s)
    then have "two_pow (- s) = two_pow (exp2 a) * two_pow (- 52)" by (simp only: two_pow_add)
    then show ?thesis by (simp add: two_pow_def)
  qed
  also have "\<dots> \<le> a * (1 / 2 ^ 53)"
    using exp2_bounds(1) [OF a(1)] by (intro mult_right_mono) simp_all
  finally show ?thesis by (simp add: a_def)
qed simp

lemma fl_int: "\<bar>n\<bar> < 2 ^ 53 \<Longrightarrow> fl (of_int n) = of_int n"
proof (cases "n = 0")
  case False
  assume n: "\<bar>n\<bar> < 2 ^ 53"
  define a s where "a = (of_int \<bar>n\<bar> :: rat)" and s: "s = 52 - exp2 a"
  have a0: "0 < a" using False by (simp add: a_def)
  have "exp2 a \<le> 52"
  proof (rule ccontr)
    assume "\<not> exp2 a \<le> 52"
    then have "two_pow 53 \<le> a" using exp2_bounds(1) [OF a0] two_pow_mono [of 53 "exp2 a"] by simp
    then have "(of_int (2 ^ 53) :: rat) \<le> of_int \<bar>n\<bar>" by (simp add: two_pow_def a_def)
    then show False using n by (simp only: of_int_le_iff)
  qed
  then have "a * two_pow s = of_int (\<bar>n\<bar> * 2 ^ nat s)" by (simp add: a_def two_pow_def s)
  then have "of_int (round_even (a * two_pow s)) = a * two_pow s" by (simp only: round_even_int)
  then have "fl (of_int n) = sgn (of_int n) * (a * two_pow s * two_pow (- s))"
    unfolding fl_def Let_def of_int_abs [symmetric] a_def [symmetric] s [symmetric]
    using False by (simp only: of_int_eq_0_iff if_False)
  also have "\<dots> = sgn (of_int n) * a" using two_pow_neg [of s] by (simp add: algebra_simps)
  also have "\<dots> = of_int n" by (simp add: a_def sgn_if)
  finally show ?thesis .
qed simp

lemma float_to_int_of_int [simp]: "float_to_int (of_int n) = n"
  by (simp add: float_to_int_def)

end
