(* ===== verification/Schema.thy ===== *)
theory Schema
  imports Prelude GoTime GoFloat
begin

text \<open>
  The rows of the MySQL tables (\<open>migrations/mysql\<close>) with the Go structs that scan them, the
  tables of one server, the constraints the migrations declare, and the statements that change
  a table: each \<open>INSERT\<close> checks its columns' ranges, \<open>CHECK\<close>s, unique keys and foreign keys
  in the order of the server and answers with its error number. \<open>wf_tables\<close> collects the
  constraints; every statement preserves it.
\<close>

subsection \<open>JSON values\<close>

text \<open>What \<open>json.Marshal\<close> is given: an object keeps its fields in the order of the struct.\<close>

datatype json = JNull | JBool bool | JNum int | JFloat rat | JStr string | JTime time
  | JArr "json list" | JObj "(string \<times> json) list"

subsection \<open>Rows\<close>

datatype bstatus = Requested | Approved | Rejected | Active | Completed | Cancelled | Disputed

record booking =
  bk_id :: int
  bk_listing :: int
  bk_renter :: int
  bk_start :: time
  bk_end :: time
  bk_status :: bstatus
  bk_total :: int
  bk_created :: time
  bk_updated :: time

datatype reason = ReasonBooked | ReasonMaintenance | ReasonBlocked

record block =
  bl_id :: int
  bl_listing :: int
  bl_booking :: "int option"
  bl_start :: time
  bl_end :: time
  bl_reason :: reason
  bl_created :: time

datatype lstatus = StatusDraft | StatusActive | StatusArchived

record listing =
  ls_id :: int
  ls_owner :: int
  ls_category :: int
  ls_title :: string
  ls_desc :: string
  ls_price :: int
  ls_deposit :: int
  ls_status :: lstatus
  ls_created :: time
  ls_updated :: time

record user =
  us_id :: int
  us_email :: string
  us_hash :: string
  us_algo :: string
  us_name :: string
  us_role :: string
  us_created :: time
  us_updated :: time

record oauth_identity =
  oi_user :: int
  oi_provider :: string
  oi_subject :: string

record api_key =
  ak_label :: string
  ak_hash :: string
  ak_revoked :: "time option"

record category =
  ca_id :: int
  ca_name :: string
  ca_slug :: string

record review =
  rv_id :: int
  rv_booking :: int
  rv_reviewer :: int
  rv_rating :: int
  rv_comment :: string
  rv_created :: time

record tables =
  t_users :: "user list"
  t_oauth :: "oauth_identity list"
  t_apikeys :: "api_key list"
  t_categories :: "category list"
  t_listings :: "listing list"
  t_bookings :: "booking list"
  t_blocks :: "block list"
  t_reviews :: "review list"

datatype tname = TUsers | TListings | TBookings | TBlocks | TReviews

type_synonym counters = "tname \<Rightarrow> int"

subsection \<open>Constraints\<close>

definition uint_range :: "nat \<Rightarrow> int \<Rightarrow> bool" where
  "uint_range w n \<longleftrightarrow> 0 \<le> n \<and> n < 2 ^ w"

definition booking_ok :: "tables \<Rightarrow> booking \<Rightarrow> bool" where
  "booking_ok t b \<longleftrightarrow> bk_start b \<le> bk_end b \<and> uint_range 32 (bk_total b)
     \<and> bk_listing b \<in> ls_id ` set (t_listings t) \<and> bk_renter b \<in> us_id ` set (t_users t)"

definition block_ok :: "tables \<Rightarrow> block \<Rightarrow> bool" where
  "block_ok t k \<longleftrightarrow> bl_listing k \<in> ls_id ` set (t_listings t)
     \<and> (\<forall>i. bl_booking k = Some i \<longrightarrow> i \<in> bk_id ` set (t_bookings t))"

definition listing_ok :: "tables \<Rightarrow> listing \<Rightarrow> bool" where
  "listing_ok t l \<longleftrightarrow> uint_range 32 (ls_price l) \<and> uint_range 32 (ls_deposit l)
     \<and> ls_owner l \<in> us_id ` set (t_users t) \<and> ls_category l \<in> ca_id ` set (t_categories t)"

definition review_ok :: "tables \<Rightarrow> review \<Rightarrow> bool" where
  "review_ok t r \<longleftrightarrow> 1 \<le> rv_rating r \<and> rv_rating r \<le> 5
     \<and> rv_booking r \<in> bk_id ` set (t_bookings t) \<and> rv_reviewer r \<in> us_id ` set (t_users t)"

definition user_ok :: "user \<Rightarrow> bool" where
  "user_ok u \<longleftrightarrow> us_role u \<in> {''renter'', ''owner'', ''admin''} \<and> us_algo u \<in> {''bcrypt'', ''scrypt''}"

definition oauth_ok :: "tables \<Rightarrow> oauth_identity \<Rightarrow> bool" where
  "oauth_ok t i \<longleftrightarrow> oi_user i \<in> us_id ` set (t_users t)"

definition oauth_key :: "oauth_identity \<Rightarrow> string \<times> string" where
  "oauth_key i = (oi_provider i, oi_subject i)"

definition keys_ok :: "(string \<Rightarrow> string) \<Rightarrow> tables \<Rightarrow> bool" where
  "keys_ok ck t \<longleftrightarrow> distinct (map us_id (t_users t)) \<and> distinct (map (\<lambda>u. ck (us_email u)) (t_users t))
     \<and> distinct (map oauth_key (t_oauth t)) \<and> distinct (map ak_hash (t_apikeys t))
     \<and> distinct (map ca_id (t_categories t)) \<and> distinct (map ls_id (t_listings t))
     \<and> distinct (map bk_id (t_bookings t)) \<and> distinct (map bl_id (t_blocks t))
     \<and> distinct (map rv_id (t_reviews t)) \<and> distinct (map rv_booking (t_reviews t))"

definition rows_ok :: "tables \<Rightarrow> bool" where
  "rows_ok t \<longleftrightarrow> (\<forall>b\<in>set (t_bookings t). booking_ok t b) \<and> (\<forall>k\<in>set (t_blocks t). block_ok t k)
     \<and> (\<forall>l\<in>set (t_listings t). listing_ok t l) \<and> (\<forall>r\<in>set (t_reviews t). review_ok t r)
     \<and> (\<forall>u\<in>set (t_users t). user_ok u) \<and> (\<forall>i\<in>set (t_oauth t). oauth_ok t i)"

definition wf_tables :: "(string \<Rightarrow> string) \<Rightarrow> tables \<Rightarrow> bool" where
  "wf_tables ck t \<longleftrightarrow> keys_ok ck t \<and> rows_ok t"

definition fresh_ids :: "counters \<Rightarrow> tables \<Rightarrow> bool" where
  "fresh_ids ai t \<longleftrightarrow> (\<forall>u\<in>set (t_users t). us_id u < ai TUsers) \<and> (\<forall>l\<in>set (t_listings t). ls_id l < ai TListings)
     \<and> (\<forall>b\<in>set (t_bookings t). bk_id b < ai TBookings) \<and> (\<forall>k\<in>set (t_blocks t). bl_id k < ai TBlocks)
     \<and> (\<forall>r\<in>set (t_reviews t). rv_id r < ai TReviews)"

lemmas row_ok_defs = booking_ok_def block_ok_def listing_ok_def review_ok_def oauth_ok_def
lemmas wf_defs = wf_tables_def keys_ok_def rows_ok_def fresh_ids_def

subsection \<open>Statements\<close>

text \<open>
  A statement is given the server's clock, the tables it sees and the \<open>AUTO_INCREMENT\<close>
  counters; it answers with an error or a value, the tables after it and the counters, which
  InnoDB never rolls back.
\<close>

type_synonym 'a dml = "time \<Rightarrow> tables \<Rightarrow> counters \<Rightarrow> (gerr + 'a) \<times> tables \<times> counters"

definition err_range :: gerr where "err_range = MySQLError 1264 ''Out of range value for column''"
definition err_enum :: gerr where "err_enum = MySQLError 1265 ''Data truncated for column''"
definition err_check :: gerr where "err_check = MySQLError 3819 ''Check constraint is violated''"
definition err_dup :: gerr where "err_dup = MySQLError 1062 ''Duplicate entry for key''"
definition err_fk :: gerr where
  "err_fk = MySQLError 1452 ''Cannot add or update a child row: a foreign key constraint fails''"

definition ErrNoRows :: gerr where "ErrNoRows = Sentinel ''sql: no rows in result set''"

text \<open>\<open>CURRENT_TIMESTAMP\<close> has whole seconds; a \<open>DATE\<close> column drops the time of day.\<close>

definition db_now :: "time \<Rightarrow> time" where
  "db_now now = now div second * second"

definition to_date :: "time \<Rightarrow> time" where
  "to_date t = t div day_ns * day_ns"

definition bump :: "tname \<Rightarrow> counters \<Rightarrow> counters" where
  "bump n ai = ai(n := ai n + 1)"

definition insert_booking :: "booking \<Rightarrow> int dml" where
  "insert_booking b now t ai =
     (if \<not> uint_range 64 (bk_listing b) \<or> \<not> uint_range 64 (bk_renter b) \<or> \<not> uint_range 32 (bk_total b)
      then (Inl err_range, t, ai)
      else if to_date (bk_end b) < to_date (bk_start b) then (Inl err_check, t, ai)
      else if bk_listing b \<notin> ls_id ` set (t_listings t) \<or> bk_renter b \<notin> us_id ` set (t_users t)
      then (Inl err_fk, t, bump TBookings ai)
      else let i = ai TBookings;
               row = b\<lparr>bk_id := i, bk_start := to_date (bk_start b), bk_end := to_date (bk_end b),
                       bk_created := db_now now, bk_updated := db_now now\<rparr>
           in (Inr i, t\<lparr>t_bookings := t_bookings t @ [row]\<rparr>, bump TBookings ai))"

definition insert_block :: "block \<Rightarrow> int dml" where
  "insert_block k now t ai =
     (if \<not> uint_range 64 (bl_listing k) then (Inl err_range, t, ai)
      else if bl_listing k \<notin> ls_id ` set (t_listings t)
         \<or> (case bl_booking k of None \<Rightarrow> False | Some i \<Rightarrow> i \<notin> bk_id ` set (t_bookings t))
      then (Inl err_fk, t, bump TBlocks ai)
      else let i = ai TBlocks;
               row = k\<lparr>bl_id := i, bl_start := to_date (bl_start k), bl_end := to_date (bl_end k),
                       bl_created := db_now now\<rparr>
           in (Inr i, t\<lparr>t_blocks := t_blocks t @ [row]\<rparr>, bump TBlocks ai))"

definition insert_listing :: "listing \<Rightarrow> int dml" where
  "insert_listing l now t ai =
     (if \<not> uint_range 64 (ls_category l) \<or> \<not> uint_range 64 (ls_owner l)
         \<or> \<not> uint_range 32 (ls_price l) \<or> \<not> uint_range 32 (ls_deposit l)
      then (Inl err_range, t, ai)
      else if ls_owner l \<notin> us_id ` set (t_users t) \<or> ls_category l \<notin> ca_id ` set (t_categories t)
      then (Inl err_fk, t, bump TListings ai)
      else let i = ai TListings;
               row = l\<lparr>ls_id := i, ls_created := db_now now, ls_updated := db_now now\<rparr>
           in (Inr i, t\<lparr>t_listings := t_listings t @ [row]\<rparr>, bump TListings ai))"

definition insert_user :: "(string \<Rightarrow> string) \<Rightarrow> user \<Rightarrow> int dml" where
  "insert_user ck u now t ai =
     (if \<not> user_ok u then (Inl err_enum, t, ai)
      else if ck (us_email u) \<in> (\<lambda>v. ck (us_email v)) ` set (t_users t)
      then (Inl err_dup, t, bump TUsers ai)
      else let i = ai TUsers;
               row = u\<lparr>us_id := i, us_created := db_now now, us_updated := db_now now\<rparr>
           in (Inr i, t\<lparr>t_users := t_users t @ [row]\<rparr>, bump TUsers ai))"

definition insert_oauth :: "oauth_identity \<Rightarrow> unit dml" where
  "insert_oauth i now t ai =
     (if oauth_key i \<in> oauth_key ` set (t_oauth t) then (Inl err_dup, t, ai)
      else if oi_user i \<notin> us_id ` set (t_users t) then (Inl err_fk, t, ai)
      else (Inr (), t\<lparr>t_oauth := t_oauth t @ [i]\<rparr>, ai))"

definition insert_review :: "review \<Rightarrow> int dml" where
  "insert_review r now t ai =
     (if \<not> uint_range 64 (rv_booking r) \<or> \<not> uint_range 64 (rv_reviewer r) \<or> \<not> uint_range 8 (rv_rating r)
      then (Inl err_range, t, ai)
      else if rv_rating r < 1 \<or> 5 < rv_rating r then (Inl err_check, t, ai)
      else if rv_booking r \<in> rv_booking ` set (t_reviews t) then (Inl err_dup, t, bump TReviews ai)
      else if rv_booking r \<notin> bk_id ` set (t_bookings t) \<or> rv_reviewer r \<notin> us_id ` set (t_users t)
      then (Inl err_fk, t, bump TReviews ai)
      else let i = ai TReviews; row = r\<lparr>rv_id := i, rv_created := db_now now\<rparr>
           in (Inr i, t\<lparr>t_reviews := t_reviews t @ [row]\<rparr>, bump TReviews ai))"

text \<open>\<open>ON UPDATE CURRENT_TIMESTAMP\<close> fires only for a row whose columns change.\<close>

definition set_status :: "bstatus \<Rightarrow> time \<Rightarrow> booking \<Rightarrow> booking" where
  "set_status s now b = (if bk_status b = s then b else b\<lparr>bk_status := s, bk_updated := db_now now\<rparr>)"

definition update_row :: "int \<Rightarrow> bstatus \<Rightarrow> time \<Rightarrow> booking \<Rightarrow> booking" where
  "update_row i s now b = (if bk_id b = i then set_status s now b else b)"

definition update_booking_status :: "int \<Rightarrow> bstatus \<Rightarrow> unit dml" where
  "update_booking_status i s now t ai =
     (Inr (), t\<lparr>t_bookings := map (update_row i s now) (t_bookings t)\<rparr>, ai)"

lemmas dml_defs = insert_booking_def insert_block_def insert_listing_def insert_user_def
  insert_oauth_def insert_review_def update_booking_status_def

lemma set_status_simps [simp]:
  "bk_id (set_status s now b) = bk_id b" "bk_listing (set_status s now b) = bk_listing b"
  "bk_renter (set_status s now b) = bk_renter b" "bk_start (set_status s now b) = bk_start b"
  "bk_end (set_status s now b) = bk_end b" "bk_total (set_status s now b) = bk_total b"
  "bk_created (set_status s now b) = bk_created b" "bk_status (set_status s now b) = s"
  by (simp_all add: set_status_def)

lemma update_row_simps [simp]:
  "bk_id (update_row i s now b) = bk_id b" "bk_listing (update_row i s now b) = bk_listing b"
  "bk_renter (update_row i s now b) = bk_renter b" "bk_start (update_row i s now b) = bk_start b"
  "bk_end (update_row i s now b) = bk_end b" "bk_total (update_row i s now b) = bk_total b"
  "bk_created (update_row i s now b) = bk_created b"
  by (simp_all add: update_row_def)

lemma to_date_mono: "s \<le> e \<Longrightarrow> to_date s \<le> to_date e"
  by (simp add: to_date_def day_ns_def zdiv_mono1)

lemma to_date_id: "t mod day_ns = 0 \<Longrightarrow> to_date t = t"
  by (simp add: to_date_def div_mult_mod_eq minus_mod_eq_div_mult [symmetric])

subsection \<open>The constraints are preserved\<close>

text \<open>A statement keeps the constraints and the freshness of the counters, whatever it answers.\<close>

definition keeps_tables :: "(string \<Rightarrow> string) \<Rightarrow> 'a dml \<Rightarrow> bool" where
  "keeps_tables ck d \<longleftrightarrow> (\<forall>now t ai r t' ai'. wf_tables ck t \<and> fresh_ids ai t \<and> d now t ai = (r, t', ai')
      \<longrightarrow> wf_tables ck t' \<and> fresh_ids ai' t')"

lemma keeps_tablesI:
  "(\<And>now t ai. wf_tables ck t \<Longrightarrow> fresh_ids ai t \<Longrightarrow>
     wf_tables ck (fst (snd (d now t ai))) \<and> fresh_ids (snd (snd (d now t ai))) (fst (snd (d now t ai))))
   \<Longrightarrow> keeps_tables ck d"
  unfolding keeps_tables_def by (metis fst_conv snd_conv)

lemma fresh_bump [simp]: "fresh_ids ai t \<Longrightarrow> fresh_ids (bump n ai) t"
  unfolding fresh_ids_def bump_def by (fastforce simp: less_imp_le)

lemma keeps_insert_booking [inv_intros]: "keeps_tables ck (insert_booking b)"
proof (rule keeps_tablesI)
  fix now t ai assume a: "wf_tables ck t" "fresh_ids ai t"
  then have "ai TBookings \<notin> bk_id ` set (t_bookings t)" by (auto simp: fresh_ids_def)
  with a show "wf_tables ck (fst (snd (insert_booking b now t ai)))
      \<and> fresh_ids (snd (snd (insert_booking b now t ai))) (fst (snd (insert_booking b now t ai)))"
    by (auto simp: insert_booking_def Let_def wf_defs row_ok_defs bump_def uint_range_def not_less
        intro: less_trans split: if_splits)
qed

lemma keeps_insert_block [inv_intros]: "keeps_tables ck (insert_block k)"
proof (rule keeps_tablesI)
  fix now t ai assume a: "wf_tables ck t" "fresh_ids ai t"
  then have "ai TBlocks \<notin> bl_id ` set (t_blocks t)" by (auto simp: fresh_ids_def)
  with a show "wf_tables ck (fst (snd (insert_block k now t ai)))
      \<and> fresh_ids (snd (snd (insert_block k now t ai))) (fst (snd (insert_block k now t ai)))"
    by (auto simp: insert_block_def Let_def wf_defs row_ok_defs bump_def
        intro: less_trans split: if_splits option.splits)
qed

lemma keeps_insert_listing [inv_intros]: "keeps_tables ck (insert_listing l)"
proof (rule keeps_tablesI)
  fix now t ai assume a: "wf_tables ck t" "fresh_ids ai t"
  then have "ai TListings \<notin> ls_id ` set (t_listings t)" by (auto simp: fresh_ids_def)
  with a show "wf_tables ck (fst (snd (insert_listing l now t ai)))
      \<and> fresh_ids (snd (snd (insert_listing l now t ai))) (fst (snd (insert_listing l now t ai)))"
    by (auto simp: insert_listing_def Let_def wf_defs row_ok_defs bump_def
        intro: less_trans split: if_splits)
qed

lemma keeps_insert_user [inv_intros]: "keeps_tables ck (insert_user ck u)"
proof (rule keeps_tablesI)
  fix now t ai assume a: "wf_tables ck t" "fresh_ids ai t"
  then have "ai TUsers \<notin> us_id ` set (t_users t)" by (auto simp: fresh_ids_def)
  with a show "wf_tables ck (fst (snd (insert_user ck u now t ai)))
      \<and> fresh_ids (snd (snd (insert_user ck u now t ai))) (fst (snd (insert_user ck u now t ai)))"
    by (auto simp: insert_user_def Let_def wf_defs row_ok_defs user_ok_def bump_def
        intro: less_trans split: if_splits)
qed

lemma keeps_insert_oauth [inv_intros]: "keeps_tables ck (insert_oauth i)"
  by (rule keeps_tablesI) (auto simp: insert_oauth_def wf_defs row_ok_defs split: if_splits)

lemma keeps_insert_review [inv_intros]: "keeps_tables ck (insert_review r)"
proof (rule keeps_tablesI)
  fix now t ai assume a: "wf_tables ck t" "fresh_ids ai t"
  then have "ai TReviews \<notin> rv_id ` set (t_reviews t)" by (auto simp: fresh_ids_def)
  with a show "wf_tables ck (fst (snd (insert_review r now t ai)))
      \<and> fresh_ids (snd (snd (insert_review r now t ai))) (fst (snd (insert_review r now t ai)))"
    by (auto simp: insert_review_def Let_def wf_defs row_ok_defs bump_def not_less
        intro: less_trans split: if_splits)
qed

lemma keeps_update_booking_status [inv_intros]: "keeps_tables ck (update_booking_status i s)"
  by (rule keeps_tablesI)
    (auto simp: update_booking_status_def wf_defs row_ok_defs image_image comp_def)

text \<open>The counters only grow, so a rolled back transaction leaves the next identifiers fresh.\<close>

definition counts_up :: "'a dml \<Rightarrow> bool" where
  "counts_up d \<longleftrightarrow> (\<forall>now t ai. ai \<le> snd (snd (d now t ai)))"

lemma bump_le [simp]: "ai \<le> bump n ai"
  by (simp add: bump_def le_fun_def)

lemma fresh_mono: "fresh_ids ai t \<Longrightarrow> ai \<le> ai' \<Longrightarrow> fresh_ids ai' t"
  unfolding fresh_ids_def le_fun_def by (meson less_le_trans)

lemma counts_up_dml [inv_intros]:
  "counts_up (insert_booking b)" "counts_up (insert_block k)" "counts_up (insert_listing l)"
  "counts_up (insert_user ck u)" "counts_up (insert_oauth i)" "counts_up (insert_review r)"
  "counts_up (update_booking_status j s)"
  by (simp_all add: counts_up_def dml_defs Let_def)

lemma keeps_tablesD:
  "keeps_tables ck d \<Longrightarrow> d now t ai = (r, t', ai') \<Longrightarrow> wf_tables ck t \<Longrightarrow> fresh_ids ai t
   \<Longrightarrow> wf_tables ck t' \<and> fresh_ids ai' t'"
  unfolding keeps_tables_def by blast

lemma counts_upD: "counts_up d \<Longrightarrow> d now t ai = (r, t', ai') \<Longrightarrow> ai \<le> ai'"
  unfolding counts_up_def by (metis snd_conv)

end
