(* ===== verification/Pricing.thy ===== *)
theory Pricing
  imports Schema
begin

text \<open>
  The pure part of \<open>internal/booking\<close>: the lifecycle state machine of \<open>model.go\<close> and the
  price and overlap calculations of \<open>pricing.go\<close>, with the saturation of \<open>time.Sub\<close>, the
  rounding of \<open>Duration.Hours()\<close> and 64-bit wrap-around written out.
\<close>

subsection \<open>The lifecycle\<close>

fun status_str :: "bstatus \<Rightarrow> string" where
  "status_str Requested = ''requested''"
| "status_str Approved = ''approved''"
| "status_str Rejected = ''rejected''"
| "status_str Active = ''active''"
| "status_str Completed = ''completed''"
| "status_str Cancelled = ''cancelled''"
| "status_str Disputed = ''disputed''"

fun validTransitions :: "bstatus \<Rightarrow> bstatus list" where
  "validTransitions Requested = [Approved, Rejected, Cancelled]"
| "validTransitions Approved = [Active, Cancelled]"
| "validTransitions Active = [Completed, Disputed]"
| "validTransitions s = []"

definition CanTransition :: "bstatus \<Rightarrow> bstatus \<Rightarrow> bool" where
  "CanTransition old new \<longleftrightarrow> new \<in> set (validTransitions old)"

instantiation bstatus :: linorder
begin

text \<open>The states in the order of the lifecycle, by the longest path from \<open>Requested\<close>.\<close>

fun stage :: "bstatus \<Rightarrow> nat" where
  "stage Requested = 0"
| "stage Approved = 1"
| "stage Active = 2"
| "stage Rejected = 3"
| "stage Cancelled = 4"
| "stage Completed = 5"
| "stage Disputed = 6"

definition less_eq_bstatus :: "bstatus \<Rightarrow> bstatus \<Rightarrow> bool" where
  "less_eq_bstatus a b \<longleftrightarrow> stage a \<le> stage b"

definition less_bstatus :: "bstatus \<Rightarrow> bstatus \<Rightarrow> bool" where
  "less_bstatus a b \<longleftrightarrow> stage a < stage b"

instance
proof
  fix a b :: bstatus
  show "a \<le> b \<Longrightarrow> b \<le> a \<Longrightarrow> a = b"
    by (cases a; cases b) (simp_all add: less_eq_bstatus_def)
qed (auto simp: less_eq_bstatus_def less_bstatus_def)

end

definition terminal :: "bstatus \<Rightarrow> bool" where
  "terminal s \<longleftrightarrow> validTransitions s = []"

text \<open>What a booking's status can become: the reachable states of the machine.\<close>

inductive evolves :: "bstatus \<Rightarrow> bstatus \<Rightarrow> bool" where
  stay: "evolves s s"
| move: "evolves s t \<Longrightarrow> CanTransition t u \<Longrightarrow> evolves s u"

inductive_cases evolvesE: "evolves s t"

lemma transition_increases: "CanTransition a b \<Longrightarrow> a < b"
  by (cases a) (auto simp: CanTransition_def less_bstatus_def)

lemma evolves_increases: "evolves a b \<Longrightarrow> a \<le> b"
  by (induction rule: evolves.induct) (auto dest: transition_increases)

lemma evolves_trans: "evolves b c \<Longrightarrow> evolves a b \<Longrightarrow> evolves a c"
  by (induction rule: evolves.induct) (auto intro: evolves.intros)

lemma evolves_terminal: "evolves s t \<Longrightarrow> terminal s \<Longrightarrow> t = s"
  by (induction rule: evolves.induct) (auto simp: terminal_def CanTransition_def)

lemma CanTransition_cases:
  "CanTransition a b \<longleftrightarrow> (a, b) \<in> {(Requested, Approved), (Requested, Rejected), (Requested, Cancelled),
     (Approved, Active), (Approved, Cancelled), (Active, Completed), (Active, Disputed)}"
  by (cases a) (auto simp: CanTransition_def)

subsection \<open>Prices\<close>

definition ErrInvalidDateRange :: gerr where
  "ErrInvalidDateRange = Sentinel ''booking: end date must be on or after start date''"

definition hour_ns :: int where "hour_ns = 3600 * 10 ^ 9"

text \<open>\<open>Duration.Hours()\<close>: whole hours and the rest divided by an hour, both in \<open>float64\<close>.\<close>

definition duration_hours :: "int \<Rightarrow> rat" where
  "duration_hours d = fl (fl (of_int (go_div d hour_ns))
     + fl (fl (of_int (go_mod d hour_ns)) / fl (of_int hour_ns)))"

definition nightsBetween :: "time \<Rightarrow> time \<Rightarrow> int" where
  "nightsBetween start finish =
     (let days = wrap64 (float_to_int (fl (duration_hours (time_sub finish start) / 24)) + 1)
      in if days < 1 then 0 else days)"

definition CalculateTotalPriceCents :: "time \<Rightarrow> time \<Rightarrow> int \<Rightarrow> gerr + int" where
  "CalculateTotalPriceCents start finish pricePerDayCents =
     (if finish < start then Inl ErrInvalidDateRange
      else Inr (wrap64 (nightsBetween start finish * pricePerDayCents)))"

definition DatesOverlap :: "time \<Rightarrow> time \<Rightarrow> time \<Rightarrow> time \<Rightarrow> bool" where
  "DatesOverlap aStart aEnd bStart bEnd \<longleftrightarrow> \<not> aEnd < bStart \<and> \<not> bEnd < aStart"

lemma hours_of_days:
  assumes "0 \<le> n" and "n < 2 ^ 40"
  shows "duration_hours (n * day_ns) = of_int (24 * n)"
proof -
  have n: "n * day_ns = 24 * n * hour_ns" by (simp add: day_ns_def hour_ns_def)
  have d: "go_div (n * day_ns) hour_ns = 24 * n"
    unfolding n using assms(1) go_div_nonneg [of "24 * n * hour_ns" hour_ns] by (simp add: hour_ns_def)
  have "go_mod (n * day_ns) hour_ns = n * day_ns - hour_ns * (24 * n)" unfolding go_mod_def d ..
  also have "\<dots> = 0" unfolding n by simp
  finally have m: "go_mod (n * day_ns) hour_ns = 0" .
  have "fl (of_int (24 * n)) = of_int (24 * n)" using assms by (intro fl_int) simp
  then show ?thesis unfolding duration_hours_def d m by simp
qed

lemma nights_of_days:
  assumes "0 \<le> n" and "n \<le> 106751"
  shows "nightsBetween s (s + n * day_ns) = n + 1"
proof -
  have sub: "time_sub (s + n * day_ns) s = n * day_ns"
    using assms by (subst time_sub_exact) (simp_all add: int64_defs day_ns_def)
  have "fl (of_int (24 * n) / 24) = fl (of_int n)" by simp
  also have "\<dots> = of_int n" using assms by (intro fl_int) simp
  finally have "fl (duration_hours (time_sub (s + n * day_ns) s) / 24) = of_int n"
    unfolding sub using assms by (simp add: hours_of_days)
  moreover have "wrap64 (n + 1) = n + 1" using assms by (intro wrap64_id) (simp add: int64_defs)
  ultimately show ?thesis using assms by (simp only: nightsBetween_def Let_def float_to_int_of_int) simp
qed

text \<open>\<open>time.Sub\<close> saturates after 292 years: from there on every stay has the same length.\<close>

lemma fl_between:
  assumes "0 \<le> x" and "x \<le> c" and "a + c / 2 ^ 53 \<le> x" and "x + c / 2 ^ 53 \<le> b"
  shows "a \<le> fl x \<and> fl x \<le> b"
proof -
  have "\<bar>x\<bar> / 2 ^ 53 \<le> c / 2 ^ 53" using assms(1,2) by (intro divide_right_mono) simp_all
  then show ?thesis using fl_error [of x] assms(3,4) by linarith
qed

lemma fl_numeral: "numeral k < (2 ^ 53 :: int) \<Longrightarrow> fl (numeral k) = numeral k"
  using fl_int [of "numeral k"] by simp

lemma hours_saturated: "float_to_int (fl (duration_hours int64_max / 24)) = 106751"
proof -
  have d: "go_div int64_max hour_ns = 2562047" by (simp add: go_div_def int64_defs hour_ns_def)
  have m: "go_mod int64_max hour_ns = 2836854775807" by (simp add: go_mod_def d) (simp add: int64_defs hour_ns_def)
  define q where "q = fl (2836854775807 / 3600000000000)"
  have q: "78 / 100 \<le> q" "q \<le> 79 / 100"
    using fl_between [of "2836854775807 / 3600000000000" 1 "78 / 100" "79 / 100"] by (simp_all add: q_def)
  have h: "duration_hours int64_max = fl (2562047 + q)"
    unfolding duration_hours_def d m q_def unfolding hour_ns_def by (simp add: fl_numeral)
  define y where "y = duration_hours int64_max"
  have c: "2562048 / 2 ^ 53 \<le> (1 / 1000 :: rat)" "106752 / 2 ^ 53 \<le> (1 / 1000000 :: rat)" by simp_all
  have y: "256204777 / 100 \<le> y \<and> y \<le> 256204780 / 100"
    unfolding y_def h using q c by (intro fl_between [where c = 2562048]) linarith+
  then have "106751 \<le> fl (y / 24) \<and> fl (y / 24) \<le> 1067519999 / 10000"
    using c by (intro fl_between [where c = 106752]) linarith+
  then show ?thesis unfolding y_def [symmetric] float_to_int_def by (simp add: floor_eq_iff)
qed

lemma nights_saturated:
  assumes "106752 \<le> n"
  shows "nightsBetween s (s + n * day_ns) = 106752"
proof -
  have "106752 * day_ns \<le> n * day_ns" using assms by (intro mult_right_mono) (simp_all add: day_ns_def)
  then have "time_sub (s + n * day_ns) s = int64_max"
    by (simp add: time_sub_def int64_defs day_ns_def)
  then have "nightsBetween s (s + n * day_ns) = (let days = wrap64 (106751 + 1) in if days < 1 then 0 else days)"
    by (simp only: nightsBetween_def hours_saturated)
  then show ?thesis by (simp add: wrap64_id int64_defs)
qed

lemma nights_aligned:
  assumes "s \<le> e" and "s mod day_ns = 0" and "e mod day_ns = 0"
  shows "nightsBetween s e = min ((e - s) div day_ns) 106751 + 1"
proof -
  define n where "n = (e - s) div day_ns"
  have "(e - s) mod day_ns = 0" using assms(2,3) by (simp add: mod_diff_eq [symmetric])
  then have e: "e = s + n * day_ns" by (simp add: n_def minus_mod_eq_div_mult [symmetric])
  have "0 \<le> n" using assms(1) by (simp add: n_def day_ns_def pos_imp_zdiv_nonneg_iff)
  then show ?thesis
    using nights_of_days [of n s] nights_saturated [of n s] unfolding n_def [symmetric] e
    by (cases "n \<le> 106751") simp_all
qed

end
