(* ===== verification/Database.thy ===== *)
theory Database
  imports Schema
begin

text \<open>
  The world a request runs in, and \<open>internal/db\<close>: the primary and the replica server, the
  outcome of every external call, the statements issued through \<open>Reader()\<close>, \<open>Primary\<close> or a
  transaction, and \<open>WithinTransaction\<close> with its retries.

  Every external call takes its outcome from the script \<open>faults\<close>: it works, it fails with an
  error and no effect, or its effect happens and the reply is lost. An empty script means that
  all further calls work; theorems quantify over the script.
\<close>

subsection \<open>The world\<close>

datatype fault = Works | Fails gerr | Lost string

datatype rval = RBody json | RInt int

datatype effect =
    Published string string json
  | EmailQueued json
  | SyncSent int string
  | OwnerPush int json

record world =
  primary :: tables
  replica :: "tables option"
  counters_of :: counters
  faults :: "fault list"
  clock :: time
  jitter :: "nat list"
  queries :: nat
  retries :: nat
  effects :: "effect list"
  redis :: "string \<Rightarrow> (rval \<times> time option) option"
  email_key :: "string \<Rightarrow> string"
  row_rank :: "int \<Rightarrow> int"

text \<open>
  \<open>replica\<close> is \<open>None\<close> when both connection pools reach one server. \<open>email_key\<close> is the
  collation of \<open>users.email\<close>, \<open>row_rank\<close> the order in which the engine returns rows whose
  sort keys are equal. \<open>jitter\<close> holds the values of \<open>rand.Intn(20)\<close> to come.
\<close>

definition reader :: "world \<Rightarrow> tables" where
  "reader w = (case replica w of None \<Rightarrow> primary w | Some t \<Rightarrow> t)"

definition in_sync :: "world \<Rightarrow> bool" where
  "in_sync w \<longleftrightarrow> reader w = primary w"

definition io :: "world \<Rightarrow> fault \<times> world" where
  "io w = (case faults w of [] \<Rightarrow> (Works, w) | f # fs \<Rightarrow> (f, w\<lparr>faults := fs\<rparr>))"

definition emit :: "effect \<Rightarrow> world \<Rightarrow> world" where
  "emit e w = w\<lparr>effects := effects w @ [e]\<rparr>"

text \<open>A call with an effect outside the server: the error it reports, and the world after.\<close>

definition io_effect :: "effect \<Rightarrow> world \<Rightarrow> gerr option \<times> world" where
  "io_effect e w = (case io w of
       (Works, w') \<Rightarrow> (None, emit e w')
     | (Fails g, w') \<Rightarrow> (Some g, w')
     | (Lost s, w') \<Rightarrow> (Some (OtherErr s), emit e w'))"

subsection \<open>Statements\<close>

definition count_query :: "world \<Rightarrow> world" where
  "count_query w = w\<lparr>queries := Suc (queries w)\<rparr>"

definition sql_select :: "(tables \<Rightarrow> 'a) \<Rightarrow> world \<Rightarrow> (gerr + 'a) \<times> world" where
  "sql_select q w = (case io (count_query w) of
       (Works, w') \<Rightarrow> (Inr (q (reader w')), w')
     | (Fails g, w') \<Rightarrow> (Inl g, w')
     | (Lost s, w') \<Rightarrow> (Inl (OtherErr s), w'))"

definition or_no_rows :: "'a option \<Rightarrow> gerr + 'a" where
  "or_no_rows r = (case r of None \<Rightarrow> Inl ErrNoRows | Some x \<Rightarrow> Inr x)"

text \<open>\<open>GetContext\<close> of one row answers \<open>sql.ErrNoRows\<close> when there is none.\<close>

definition sql_get :: "(tables \<Rightarrow> 'a option) \<Rightarrow> world \<Rightarrow> (gerr + 'a) \<times> world" where
  "sql_get q w = bind_res (sql_select q w) (\<lambda>r w'. (or_no_rows r, w'))"

text \<open>A missing row becomes the package's own error, anything else is wrapped.\<close>

definition not_found_or :: "gerr \<Rightarrow> string \<Rightarrow> gerr \<Rightarrow> gerr" where
  "not_found_or nf pre e = (if errors_is e ErrNoRows then nf else Wrapped pre e)"

definition sql_exec :: "'a dml \<Rightarrow> world \<Rightarrow> (gerr + 'a) \<times> world" where
  "sql_exec d w = (case io (count_query w) of
       (Fails g, w') \<Rightarrow> (Inl g, w')
     | (f, w') \<Rightarrow>
         (case d (clock w') (primary w') (counters_of w') of (r, t', ai') \<Rightarrow>
            (case f of Lost s \<Rightarrow> Inl (OtherErr s) | _ \<Rightarrow> r,
             w'\<lparr>primary := t', counters_of := ai'\<rparr>)))"

subsection \<open>Transactions\<close>

text \<open>
  Inside a transaction statements see and change the transaction's own tables; the counters
  and the script are the server's.
\<close>

type_synonym txstate = "tables \<times> world"
type_synonym 'a txop = "txstate \<Rightarrow> (gerr + 'a) \<times> txstate"

definition tx_select :: "(tables \<Rightarrow> 'a) \<Rightarrow> 'a txop" where
  "tx_select q = (\<lambda>(t, w). case io (count_query w) of
       (Works, w') \<Rightarrow> (Inr (q t), t, w')
     | (Fails g, w') \<Rightarrow> (Inl g, t, w')
     | (Lost s, w') \<Rightarrow> (Inl (OtherErr s), t, w'))"

definition tx_get :: "(tables \<Rightarrow> 'a option) \<Rightarrow> 'a txop" where
  "tx_get q s = bind_res (tx_select q s) (\<lambda>r s'. (or_no_rows r, s'))"

definition tx_exec :: "'a dml \<Rightarrow> 'a txop" where
  "tx_exec d = (\<lambda>(t, w). case io (count_query w) of
       (Fails g, w') \<Rightarrow> (Inl g, t, w')
     | (f, w') \<Rightarrow>
         (case d (clock w') t (counters_of w') of (r, t', ai') \<Rightarrow>
            (case f of Lost s \<Rightarrow> Inl (OtherErr s) | _ \<Rightarrow> r, t', w'\<lparr>counters_of := ai'\<rparr>)))"

definition mysqlErrLockDeadlock :: nat where "mysqlErrLockDeadlock = 1213"
definition mysqlErrLockWaitTimeout :: nat where "mysqlErrLockWaitTimeout = 1205"
definition maxTxRetries :: nat where "maxTxRetries = 3"

definition isRetryable :: "gerr \<Rightarrow> bool" where
  "isRetryable e = (case as_mysql e of
       Some n \<Rightarrow> n = mysqlErrLockDeadlock \<or> n = mysqlErrLockWaitTimeout
     | None \<Rightarrow> False)"

definition attemptTx :: "'a txop \<Rightarrow> world \<Rightarrow> (gerr + 'a) \<times> world" where
  "attemptTx fn w = (case io w of
       (Fails g, w1) \<Rightarrow> (Inl (Wrapped ''db: begin tx'' g), w1)
     | (Lost s, w1) \<Rightarrow> (Inl (Wrapped ''db: begin tx'' (OtherErr s)), w1)
     | (Works, w1) \<Rightarrow>
         (case fn (primary w1, w1) of
            (Inl e, t, w2) \<Rightarrow> (Inl e, snd (io w2))
          | (Inr x, t, w2) \<Rightarrow>
              (case io w2 of
                 (Works, w3) \<Rightarrow> (Inr x, w3\<lparr>primary := t\<rparr>)
               | (Fails g, w3) \<Rightarrow> (Inl g, w3)
               | (Lost s, w3) \<Rightarrow> (Inl (OtherErr s), w3\<lparr>primary := t\<rparr>))))"

text \<open>The wait before attempt \<open>n > 0\<close>: \<open>n * 20 ms\<close> and a jitter below 20 ms.\<close>

definition backoff :: "nat \<Rightarrow> world \<Rightarrow> world" where
  "backoff attempt w = (if attempt = 0 then w
     else let j = (case jitter w of [] \<Rightarrow> 0 | x # xs \<Rightarrow> x mod 20)
          in w\<lparr>retries := Suc (retries w), jitter := tl (jitter w),
               clock := clock w + int attempt * 20 * millisecond + int j * millisecond\<rparr>)"

fun tx_loop :: "nat \<Rightarrow> nat \<Rightarrow> gerr \<Rightarrow> 'a txop \<Rightarrow> world \<Rightarrow> (gerr + 'a) \<times> world" where
  "tx_loop 0 attempt lastErr fn w = (Inl (Wrapped ''db: transaction failed after 3 attempts'' lastErr), w)"
| "tx_loop (Suc n) attempt lastErr fn w =
     (case attemptTx fn (backoff attempt w) of
        (Inr x, w') \<Rightarrow> (Inr x, w')
      | (Inl e, w') \<Rightarrow> if isRetryable e then tx_loop n (Suc attempt) e fn w' else (Inl e, w'))"

definition WithinTransaction :: "'a txop \<Rightarrow> world \<Rightarrow> (gerr + 'a) \<times> world" where
  "WithinTransaction fn w = tx_loop maxTxRetries 0 (Sentinel '''') fn w"

subsection \<open>What a call leaves alone\<close>

text \<open>\<open>same_db\<close>: the servers hold what they held; \<open>same_env\<close>: so do the replica and the settings.\<close>

definition same_env :: "world \<Rightarrow> world \<Rightarrow> bool" where
  "same_env w w' \<longleftrightarrow> replica w' = replica w \<and> email_key w' = email_key w
     \<and> row_rank w' = row_rank w \<and> effects w' = effects w \<and> redis w' = redis w"

definition same_db :: "world \<Rightarrow> world \<Rightarrow> bool" where
  "same_db w w' \<longleftrightarrow> primary w' = primary w \<and> counters_of w' = counters_of w \<and> clock w' = clock w"

lemma same_refl [simp]: "same_env w w" "same_db w w"
  by (simp_all add: same_env_def same_db_def)

lemma same_env_trans [trans]: "same_env a b \<Longrightarrow> same_env b c \<Longrightarrow> same_env a c"
  by (simp add: same_env_def)

lemma same_db_trans [trans]: "same_db a b \<Longrightarrow> same_db b c \<Longrightarrow> same_db a c"
  by (simp add: same_db_def)

lemma io_cases:
  obtains f where "io w = (f, w\<lparr>faults := tl (faults w)\<rparr>)"
  by (cases "faults w") (auto simp: io_def)

lemma io_same: "io w = (f, w') \<Longrightarrow> w' = w\<lparr>faults := tl (faults w)\<rparr>"
  by (rule io_cases [of w]) simp

lemma snd_io [simp]: "snd (io w) = w\<lparr>faults := tl (faults w)\<rparr>"
  by (rule io_cases [of w]) simp

lemma io_ok: "faults w = [] \<Longrightarrow> io w = (Works, w)"
  by (simp add: io_def)

lemma reader_update [simp]:
  "reader (w\<lparr>faults := x1\<rparr>) = reader w" "reader (w\<lparr>queries := x2\<rparr>) = reader w"
  "reader (w\<lparr>effects := x3\<rparr>) = reader w" "reader (w\<lparr>counters_of := x4\<rparr>) = reader w"
  "reader (w\<lparr>redis := x5\<rparr>) = reader w" "reader (w\<lparr>clock := x6\<rparr>) = reader w"
  by (simp_all add: reader_def split: option.splits)

lemma reader_same: "same_env w w' \<Longrightarrow> same_db w w' \<Longrightarrow> reader w' = reader w"
  by (simp add: reader_def same_env_def same_db_def split: option.splits)

lemmas stmt_defs = sql_select_def sql_exec_def tx_select_def tx_exec_def count_query_def

lemma sql_select_same: "sql_select q w = (r, w') \<Longrightarrow> same_env w w' \<and> same_db w w'"
  by (rule io_cases [of "count_query w"])
    (auto simp: stmt_defs same_env_def same_db_def split: fault.splits prod.splits)

lemma sql_select_ok:
  "sql_select q w = (Inr x, w') \<Longrightarrow> x = q (reader w)"
  by (rule io_cases [of "count_query w"]) (auto simp: stmt_defs split: fault.splits prod.splits)

lemma sql_select_queries: "sql_select q w = (r, w') \<Longrightarrow> queries w' = Suc (queries w)"
  by (rule io_cases [of "count_query w"]) (auto simp: stmt_defs split: fault.splits prod.splits)

lemma sql_select_works [simp]:
  "faults w = [] \<Longrightarrow> sql_select q w = (Inr (q (reader w)), w\<lparr>queries := Suc (queries w)\<rparr>)"
  by (simp add: stmt_defs io_def)

lemma sql_get_same:
  "sql_get q w = (r, w') \<Longrightarrow> same_env w w' \<and> same_db w w' \<and> queries w' = Suc (queries w)"
  using sql_select_same [of q w] sql_select_queries [of q w] unfolding sql_get_def
  by (cases "sql_select q w"; cases "fst (sql_select q w)"; auto)

lemma or_no_rows_Inr [simp]: "or_no_rows r = Inr x \<longleftrightarrow> r = Some x"
  by (simp add: or_no_rows_def split: option.splits)

lemma sql_get_ok:
  assumes "sql_get q w = (Inr x, w')"
  shows "q (reader w) = Some x"
proof -
  obtain r w1 where r: "sql_select q w = (Inr r, w1)" "or_no_rows r = Inr x"
    using assms unfolding sql_get_def bind_res_ok by auto
  then show ?thesis using sql_select_ok [OF r(1)] by simp
qed

lemma sql_get_works [simp]:
  "faults w = [] \<Longrightarrow> sql_get q w = (or_no_rows (q (reader w)), w\<lparr>queries := Suc (queries w)\<rparr>)"
  by (simp add: sql_get_def)

lemma sql_exec_cases:
  assumes "sql_exec d w = (r, w')"
  obtains (unchanged) e where "r = Inl e" "same_env w w'" "same_db w w'"
  | (ran) r' t' ai' where "d (clock w) (primary w) (counters_of w) = (r', t', ai')"
      "primary w' = t'" "counters_of w' = ai'" "same_env w w'" "clock w' = clock w"
      "r = r' \<or> (\<exists>e. r = Inl e)"
proof (rule io_cases [of "count_query w"])
  fix f assume f: "io (count_query w) = (f, (count_query w)\<lparr>faults := tl (faults (count_query w))\<rparr>)"
  obtain r' t' ai' where d: "d (clock w) (primary w) (counters_of w) = (r', t', ai')"
    by (metis prod_cases3)
  show thesis
  proof (cases f)
    case (Fails g)
    show ?thesis
      by (rule unchanged [of g])
        (use assms f Fails in \<open>auto simp: sql_exec_def count_query_def same_env_def same_db_def\<close>)
  qed (use assms f d ran in \<open>auto simp: sql_exec_def count_query_def same_env_def\<close>)
qed

lemma sql_exec_ok:
  assumes "sql_exec d w = (Inr x, w')"
  shows "d (clock w) (primary w) (counters_of w) = (Inr x, primary w', counters_of w')"
    and "same_env w w'" and "clock w' = clock w"
  using sql_exec_cases [OF assms] by auto

lemma sql_exec_works:
  "faults w = [] \<Longrightarrow> d (clock w) (primary w) (counters_of w) = (r, t', ai')
   \<Longrightarrow> sql_exec d w = (r, w\<lparr>queries := Suc (queries w), primary := t', counters_of := ai'\<rparr>)"
  by (simp add: stmt_defs io_def)

subsection \<open>The contract of a transaction body\<close>

text \<open>
  A body of a transaction only changes its own tables, by a step of a relation \<open>R\<close> between
  tables and counters, lets the counters grow and does not touch the rest of the world. Then
  the transaction as a whole changes the primary by at most one step, and by exactly one when
  it reports success.
\<close>

definition tx_frame :: "world \<Rightarrow> world \<Rightarrow> bool" where
  "tx_frame w w' \<longleftrightarrow> same_env w w' \<and> primary w' = primary w \<and> counters_of w \<le> counters_of w'"

lemma tx_frame_refl [simp]: "tx_frame w w"
  by (simp add: tx_frame_def)

lemma tx_frame_trans [trans]: "tx_frame a b \<Longrightarrow> tx_frame b c \<Longrightarrow> tx_frame a c"
  using same_env_trans order_trans by (auto simp: tx_frame_def)

lemma tx_frame_update [simp]:
  "tx_frame w (w'\<lparr>faults := x\<rparr>) = tx_frame w w'" "tx_frame w (w'\<lparr>queries := z\<rparr>) = tx_frame w w'"
  by (simp_all add: tx_frame_def same_env_def)

lemma tx_select_frame: "tx_select q (t, w) = (r, t', w') \<Longrightarrow> t' = t \<and> tx_frame w w' \<and> counters_of w' = counters_of w"
  by (rule io_cases [of "count_query w"]) (auto simp: stmt_defs split: fault.splits prod.splits)

lemma tx_select_ok: "tx_select q (t, w) = (Inr x, t', w') \<Longrightarrow> x = q t"
  by (rule io_cases [of "count_query w"]) (auto simp: stmt_defs split: fault.splits prod.splits)

lemma tx_exec_frame:
  assumes "counts_up d" and "tx_exec d (t, w) = (r, t', w')"
  shows "tx_frame w w'"
proof -
  obtain r1 t1 ai1 where d: "d (clock w) t (counters_of w) = (r1, t1, ai1)" by (metis prod_cases3)
  then have "counters_of w \<le> ai1" using assms(1) counts_upD by blast
  with assms(2) d show ?thesis
    by (rule_tac io_cases [of "count_query w"])
      (auto simp: stmt_defs tx_frame_def same_env_def split: fault.splits prod.splits)
qed

lemma tx_exec_ok:
  "tx_exec d (t, w) = (Inr x, t', w') \<Longrightarrow> d (clock w) t (counters_of w) = (Inr x, t', counters_of w')"
  by (rule io_cases [of "count_query w"]) (auto simp: stmt_defs split: fault.splits prod.splits)

lemma tx_get_ok:
  assumes "tx_get q (t, w) = (r, t', w')"
  shows "t' = t \<and> tx_frame w w' \<and> counters_of w' = counters_of w \<and> (\<forall>x. r = Inr x \<longrightarrow> q t = Some x)"
proof -
  obtain r1 t1 w1 where s: "tx_select q (t, w) = (r1, t1, w1)" by (metis prod_cases3)
  then show ?thesis
    using assms tx_select_frame [OF s] tx_select_ok [of q t w _ t1 w1]
    by (cases r1) (auto simp: tx_get_def)
qed

lemma tx_works [simp]:
  "faults w = [] \<Longrightarrow> tx_select q (t, w) = (Inr (q t), t, w\<lparr>queries := Suc (queries w)\<rparr>)"
  "faults w = [] \<Longrightarrow> tx_exec d (t, w) = (case d (clock w) t (counters_of w) of (r, t', ai') \<Rightarrow>
     (r, t', w\<lparr>queries := Suc (queries w), counters_of := ai'\<rparr>))"
  by (simp_all add: stmt_defs io_def)

text \<open>A call with an external effect changes nothing else, and its effect happens at most once.\<close>

lemma io_effect_same:
  "primary (snd (io_effect e w)) = primary w" "replica (snd (io_effect e w)) = replica w"
  "counters_of (snd (io_effect e w)) = counters_of w" "clock (snd (io_effect e w)) = clock w"
  "email_key (snd (io_effect e w)) = email_key w" "row_rank (snd (io_effect e w)) = row_rank w"
  "redis (snd (io_effect e w)) = redis w"
  by (rule io_cases [of w]; auto simp: io_effect_def emit_def split: fault.splits)+

lemma io_effect_effects: "effects (snd (io_effect e w)) \<in> {effects w, effects w @ [e]}"
  by (rule io_cases [of w]) (auto simp: io_effect_def emit_def split: fault.splits)

lemma io_effect_works [simp]: "faults w = [] \<Longrightarrow> io_effect e w = (None, emit e w)"
  by (simp add: io_effect_def io_ok)

lemma emit_simps [simp]:
  "faults (emit e w) = faults w" "effects (emit e w) = effects w @ [e]" "primary (emit e w) = primary w"
  "clock (emit e w) = clock w" "replica (emit e w) = replica w" "counters_of (emit e w) = counters_of w"
  by (simp_all add: emit_def)

lemma reader_io_effect: "reader (snd (io_effect e w)) = reader w"
  by (simp add: reader_def io_effect_same split: option.splits)

type_synonym dbstate = "tables \<times> counters"

definition db_of :: "world \<Rightarrow> dbstate" where
  "db_of w = (primary w, counters_of w)"

locale tx_body =
  fixes fn :: "'a txop" and R :: "'a \<Rightarrow> dbstate \<Rightarrow> dbstate \<Rightarrow> bool"
  assumes frame: "fn (t, w) = (r, t', w') \<Longrightarrow> tx_frame w w'"
    and step: "fn (t, w) = (Inr x, t', w') \<Longrightarrow> R x (t, counters_of w) (t', counters_of w')"
begin

text \<open>One step of the body, after the counters may have grown in attempts that rolled back.\<close>

definition committed :: "'a \<Rightarrow> world \<Rightarrow> world \<Rightarrow> bool" where
  "committed x w w' \<longleftrightarrow> (\<exists>ai. counters_of w \<le> ai \<and> R x (primary w, ai) (db_of w'))"

definition unchanged :: "world \<Rightarrow> world \<Rightarrow> bool" where
  "unchanged w w' \<longleftrightarrow> primary w' = primary w \<and> counters_of w \<le> counters_of w'"

lemma committed_after: "unchanged w w1 \<Longrightarrow> committed x w1 w' \<Longrightarrow> committed x w w'"
  unfolding unchanged_def committed_def by (metis order_trans)

lemma unchanged_trans: "unchanged w w1 \<Longrightarrow> unchanged w1 w' \<Longrightarrow> unchanged w w'"
  unfolding unchanged_def by (metis order_trans)

lemma attempt_frame: "attemptTx fn w = (r, w') \<Longrightarrow> same_env w w'"
  unfolding attemptTx_def
  by (auto split: prod.splits fault.splits sum.splits dest!: io_same frame
      simp: tx_frame_def same_env_def)

lemma attempt_cases:
  assumes "attemptTx fn w = (r, w')"
  obtains (ok) x where "r = Inr x" "committed x w w'"
  | (rolled_back) e where "r = Inl e" "unchanged w w'"
  | (lost) e x where "r = Inl e" "\<not> isRetryable e" "committed x w w'"
proof -
  define w1 where "w1 = w\<lparr>faults := tl (faults w)\<rparr>"
  obtain f where f: "io w = (f, w1)" by (rule io_cases [of w]) (simp add: w1_def)
  have w1: "primary w1 = primary w" "counters_of w1 = counters_of w" by (simp_all add: w1_def)
  obtain r2 t2 w2 where b: "fn (primary w1, w1) = (r2, t2, w2)" by (metis prod_cases3)
  define w3 where "w3 = w2\<lparr>faults := tl (faults w2)\<rparr>"
  obtain g where g: "io w2 = (g, w3)" by (rule io_cases [of w2]) (simp add: w3_def)
  have fr: "primary w2 = primary w" "counters_of w \<le> counters_of w2"
    using frame [OF b] w1 by (simp_all add: tx_frame_def)
  have w3: "primary w3 = primary w2" "counters_of w3 = counters_of w2" by (simp_all add: w3_def)
  have st: "R x (primary w, counters_of w) (t2, counters_of w2)" if "r2 = Inr x" for x
    using step [OF b [unfolded that]] w1 by simp
  show thesis
  proof (cases f)
    case Works
    show ?thesis
    proof (cases r2)
      case (Inl e)
      with Works f b g assms show ?thesis
        by (intro rolled_back [of e]) (auto simp: attemptTx_def unchanged_def fr)
    next
      case (Inr x)
      show ?thesis
      proof (cases g)
        case Works
        with \<open>f = Works\<close> Inr f b g w3 assms st [OF Inr] show ?thesis
          by (intro ok [of x]) (auto simp: attemptTx_def committed_def db_of_def intro!: exI [of _ "counters_of w"])
      next
        case (Fails e)
        with Works Inr f b g w3 fr assms show ?thesis
          by (intro rolled_back [of e]) (auto simp: attemptTx_def unchanged_def)
      next
        case (Lost s)
        with Works Inr f b g w3 assms st [OF Inr] show ?thesis
          by (intro lost [of "OtherErr s" x])
            (auto simp: attemptTx_def isRetryable_def committed_def db_of_def intro!: exI [of _ "counters_of w"])
      qed
    qed
  next
    case (Fails e)
    with f w1 assms show ?thesis
      by (intro rolled_back [of "Wrapped ''db: begin tx'' e"]) (auto simp: attemptTx_def unchanged_def)
  next
    case (Lost s)
    with f w1 assms show ?thesis
      by (intro rolled_back [of "Wrapped ''db: begin tx'' (OtherErr s)"]) (auto simp: attemptTx_def unchanged_def)
  qed
qed

lemma backoff_same [simp]: "unchanged w (backoff n w)" "same_env w (backoff n w)"
  by (simp_all add: backoff_def Let_def same_env_def unchanged_def)

lemma loop_result:
  assumes "tx_loop n k e fn w = (r, w')"
  shows "same_env w w' \<and> (case r of Inr x \<Rightarrow> committed x w w'
     | Inl e \<Rightarrow> unchanged w w' \<or> (\<exists>x. committed x w w'))"
  using assms
proof (induction n arbitrary: k e w)
  case 0
  then show ?case by (auto simp: unchanged_def)
next
  case (Suc n)
  obtain r1 w1 where a: "attemptTx fn (backoff k w) = (r1, w1)" by fastforce
  have env: "same_env w w1" using attempt_frame [OF a] backoff_same(2) same_env_trans by blast
  from a show ?case
  proof (cases rule: attempt_cases)
    case (ok x)
    then show ?thesis using Suc.prems a env committed_after [OF backoff_same(1)] by auto
  next
    case (rolled_back e1)
    then have un: "unchanged w w1" using unchanged_trans [OF backoff_same(1)] by blast
    show ?thesis
    proof (cases "isRetryable e1")
      case True
      then have "tx_loop n (Suc k) e1 fn w1 = (r, w')" using Suc.prems a rolled_back by simp
      note ih = Suc.IH [OF this]
      then have "same_env w w'" using env same_env_trans by blast
      with ih show ?thesis
        by (cases r) (auto dest: committed_after [OF un] unchanged_trans [OF un])
    next
      case False
      then show ?thesis using Suc.prems a env rolled_back un by auto
    qed
  next
    case (lost e1 x)
    then have "committed x w w1" using committed_after [OF backoff_same(1)] by blast
    then show ?thesis using Suc.prems a env lost(1,2) by auto
  qed
qed

lemma transaction_frame: "WithinTransaction fn w = (r, w') \<Longrightarrow> same_env w w'"
  unfolding WithinTransaction_def using loop_result by blast

lemma transaction_ok: "WithinTransaction fn w = (Inr x, w') \<Longrightarrow> committed x w w'"
  unfolding WithinTransaction_def using loop_result by fastforce

lemma transaction_err:
  "WithinTransaction fn w = (Inl e, w') \<Longrightarrow> unchanged w w' \<or> (\<exists>x. committed x w w')"
  unfolding WithinTransaction_def using loop_result by fastforce

end

end
