(* ===== verification/Availability.thy ===== *)
theory Availability
  imports Database "HOL-Library.Word"
begin

text \<open>
  \<open>internal/availability\<close>: the blocks of a listing, the overlap count taken inside the booking
  transaction, the insertion of a block, and the FNV-1a shard routing.
\<close>

unbundle bit_operations_syntax

subsection \<open>Blocks\<close>

definition overlaps_range :: "int \<Rightarrow> time \<Rightarrow> time \<Rightarrow> block \<Rightarrow> bool" where
  "overlaps_range listingID start finish k \<longleftrightarrow> bl_listing k = listingID \<and> bl_start k \<le> finish \<and> bl_end k \<ge> start"

definition CountOverlapping :: "int \<Rightarrow> time \<Rightarrow> time \<Rightarrow> nat txop" where
  "CountOverlapping listingID start finish s =
     map_err (Wrapped ''availability: count overlapping'')
       (tx_select (\<lambda>t. length (filter (overlaps_range listingID start finish) (t_blocks t))) s)"

definition new_block :: "int \<Rightarrow> int \<Rightarrow> time \<Rightarrow> time \<Rightarrow> reason \<Rightarrow> block" where
  "new_block listingID bookingID start finish r =
     \<lparr>bl_id = 0, bl_listing = listingID, bl_booking = Some bookingID, bl_start = start, bl_end = finish,
      bl_reason = r, bl_created = 0\<rparr>"

definition InsertBlock :: "int \<Rightarrow> int \<Rightarrow> time \<Rightarrow> time \<Rightarrow> reason \<Rightarrow> int txop" where
  "InsertBlock listingID bookingID start finish r s =
     map_err (Wrapped ''availability: insert block'')
       (tx_exec (insert_block (new_block listingID bookingID start finish r)) s)"

definition ListForListing :: "int \<Rightarrow> world \<Rightarrow> (gerr + block list) \<times> world" where
  "ListForListing listingID w =
     map_err (Wrapped ''availability: list for listing'')
       (sql_select (\<lambda>t. sort_key bl_start (sort_key (\<lambda>k. row_rank w (bl_id k))
          (filter (\<lambda>k. bl_listing k = listingID) (t_blocks t)))) w)"

lemma count_overlapping_zero:
  "length (filter (overlaps_range l s e) ks) = 0 \<longleftrightarrow> (\<forall>k\<in>set ks. \<not> overlaps_range l s e k)"
  by (auto simp: filter_empty_conv)

subsection \<open>Sharding\<close>

text \<open>\<open>fnv.New32a\<close>: exclusive-or a byte, then multiply by the prime, on 32 bits.\<close>

definition fnv_offset :: "32 word" where "fnv_offset = 2166136261"
definition fnv_prime :: "32 word" where "fnv_prime = 16777619"

fun fnv32a :: "32 word \<Rightarrow> 8 word list \<Rightarrow> 32 word" where
  "fnv32a h [] = h"
| "fnv32a h (b # bs) = fnv32a ((h XOR ucast b) * fnv_prime) bs"

definition big_endian :: "int \<Rightarrow> 8 word list" where
  "big_endian n = map (\<lambda>i. word_of_int (drop_bit (8 * (7 - i)) n)) [0..<8]"

record shard_router = shardCount :: "32 word"

definition NewShardRouter :: "int \<Rightarrow> shard_router" where
  "NewShardRouter n = \<lparr>shardCount = word_of_int (if n < 1 then 1 else n)\<rparr>"

definition ShardFor :: "shard_router \<Rightarrow> int \<Rightarrow> int" where
  "ShardFor r ownerID = uint (fnv32a fnv_offset (big_endian ownerID) mod shardCount r)"

definition ShardCount :: "shard_router \<Rightarrow> int" where
  "ShardCount r = uint (shardCount r)"

lemma shard_for_range: "shardCount r \<noteq> 0 \<Longrightarrow> 0 \<le> ShardFor r k \<and> ShardFor r k < ShardCount r"
  by (simp add: ShardFor_def ShardCount_def uint_mod word_neq_0_conv word_less_def)

text \<open>The eight bytes determine the owner: two owners are never confused before hashing.\<close>

lemma big_endian_inj:
  assumes "in_int64 a" and "in_int64 b" and "big_endian a = big_endian b"
  shows "a = b"
proof -
  have e: "take_bit 8 (drop_bit (8 * (7 - i)) a) = take_bit 8 (drop_bit (8 * (7 - i)) b)" if "i < 8" for i
  proof -
    have "big_endian a ! i = big_endian b ! i" using assms(3) by simp
    then have "word_of_int (drop_bit (8 * (7 - i)) a) = (word_of_int (drop_bit (8 * (7 - i)) b) :: 8 word)"
      using that by (simp add: big_endian_def)
    then show ?thesis by (simp add: word_of_int_eq_iff)
  qed
  have bits: "bit a n = bit b n" if n: "n < 64" for n
  proof -
    define i where "i = 7 - n div 8"
    have i: "i < 8" "n = 8 * (7 - i) + n mod 8" using n by (auto simp: i_def)
    have "bit (take_bit 8 (drop_bit (8 * (7 - i)) a)) (n mod 8) = bit (take_bit 8 (drop_bit (8 * (7 - i)) b)) (n mod 8)"
      using e [OF i(1)] by simp
    then show ?thesis using i(2) by (simp add: bit_take_bit_iff bit_drop_bit_eq)
  qed
  have "take_bit 64 a = take_bit 64 b"
    by (rule bit_eqI) (use bits in \<open>auto simp: bit_take_bit_iff\<close>)
  moreover have "signed_take_bit 63 a = a" "signed_take_bit 63 b = b"
    using assms(1,2) by (auto simp: in_int64_def int64_min_def int64_max_def signed_take_bit_int_eq_self_iff)
  ultimately show ?thesis
    by (metis signed_take_bit_eq_iff_take_bit_eq Suc_numeral semiring_norm(5) semiring_norm(2) semiring_norm(8))
qed

end
