(* ===== verification/Http.thy ===== *)
theory Http
  imports Database GoBytes
begin

text \<open>
  Requests, responses and \<open>internal/httputil\<close>: the JSON helpers and the conditional
  \<open>WriteCacheableJSON\<close>. MD5, the JSON encoder and the HTTP date format are arguments.
\<close>

record claims =
  cl_user :: int
  cl_role :: string

record http_req =
  rq_method :: string
  rq_id :: string
  rq_query :: "(string \<times> string) list"
  rq_headers :: "(string \<times> string) list"
  rq_cookies :: "(string \<times> string) list"
  rq_form :: "(string \<times> string) list option"
  rq_remote :: string
  rq_claims :: "claims option"

text \<open>
  \<open>rq_id\<close> is the \<open>id\<close> parameter of the route, \<open>rq_form\<close> the parsed form (\<open>None\<close> when
  \<open>ParseForm\<close> fails), \<open>rq_claims\<close> what \<open>RequireJWT\<close> put in the context. A header, query or
  form field that is absent reads as the empty string; a cookie that is absent is an error.
\<close>

record cookie =
  ck_name :: string
  ck_value :: string
  ck_path :: string
  ck_httponly :: bool
  ck_secure :: bool
  ck_expires :: "time option"
  ck_maxage :: int

record http_resp =
  rs_status :: int
  rs_headers :: "(string \<times> string) list"
  rs_cookies :: "cookie list"
  rs_body :: "json option"

definition field :: "(string \<times> string) list \<Rightarrow> string \<Rightarrow> string" where
  "field kvs k = (case map_of kvs k of None \<Rightarrow> '''' | Some v \<Rightarrow> v)"

definition json_type :: "string \<times> string" where
  "json_type = (''Content-Type'', ''application/json; charset=utf-8'')"

definition JSON :: "int \<Rightarrow> json option \<Rightarrow> http_resp" where
  "JSON status body = \<lparr>rs_status = status, rs_headers = [json_type], rs_cookies = [], rs_body = body\<rparr>"

definition Error :: "int \<Rightarrow> string \<Rightarrow> http_resp" where
  "Error status message = JSON status (Some (JObj [(''error'', JStr message)]))"

definition Redirect :: "int \<Rightarrow> string \<Rightarrow> http_resp" where
  "Redirect status url = \<lparr>rs_status = status, rs_headers = [(''Location'', url)], rs_cookies = [], rs_body = None\<rparr>"

definition set_cookie :: "cookie \<Rightarrow> http_resp \<Rightarrow> http_resp" where
  "set_cookie c r = r\<lparr>rs_cookies := rs_cookies r @ [c]\<rparr>"

lemma resp_simps [simp]:
  "rs_status (JSON s b) = s" "rs_body (JSON s b) = b" "rs_cookies (JSON s b) = []"
  "rs_status (Error s m) = s" "rs_body (Error s m) = Some (JObj [(''error'', JStr m)])"
  "rs_status (Redirect s u) = s" "rs_body (Redirect s u) = None" "rs_cookies (Redirect s u) = []"
  "rs_status (set_cookie c r) = rs_status r" "rs_body (set_cookie c r) = rs_body r"
  by (simp_all add: JSON_def Error_def Redirect_def set_cookie_def)

text \<open>A handler and the middlewares around it.\<close>

type_synonym handler = "http_req \<Rightarrow> world \<Rightarrow> http_resp \<times> world"

subsection \<open>Conditional responses\<close>

record etag_lib =
  md5 :: "string \<Rightarrow> string"
  marshal :: "json \<Rightarrow> string"
  format_http :: "time \<Rightarrow> string"
  parse_http :: "string \<Rightarrow> time option"

definition etag_of :: "etag_lib \<Rightarrow> json \<Rightarrow> string" where
  "etag_of L body = CHR 0x22 # hex_encode (md5 L (marshal L body)) @ [CHR 0x22]"

definition cache_headers :: "etag_lib \<Rightarrow> time \<Rightarrow> json \<Rightarrow> (string \<times> string) list" where
  "cache_headers L lastModified body =
     [(''ETag'', etag_of L body), (''Last-Modified'', format_http L lastModified),
      (''Cache-Control'', ''private, max-age=30, must-revalidate'')]"

definition not_modified :: "(string \<times> string) list \<Rightarrow> http_resp" where
  "not_modified hs = \<lparr>rs_status = 304, rs_headers = hs, rs_cookies = [], rs_body = None\<rparr>"

definition WriteCacheableJSON :: "etag_lib \<Rightarrow> http_req \<Rightarrow> int \<Rightarrow> time \<Rightarrow> json \<Rightarrow> http_resp" where
  "WriteCacheableJSON L r status lastModified body =
     (let etag = etag_of L body;
          hs = cache_headers L lastModified body;
          match = field (rq_headers r) ''If-None-Match'';
          since = field (rq_headers r) ''If-Modified-Since''
      in if match \<noteq> '''' \<and> match = etag then not_modified hs
         else if since \<noteq> '''' \<and> (case parse_http L since of Some t \<Rightarrow> \<not> t < lastModified | None \<Rightarrow> False)
         then not_modified hs
         else \<lparr>rs_status = status, rs_headers = hs @ [json_type], rs_cookies = [], rs_body = Some body\<rparr>)"

lemma etag_nonempty [simp]: "etag_of L b \<noteq> ''''"
  by (simp add: etag_of_def)

lemma etag_inj: "etag_of L a = etag_of L b \<longleftrightarrow> md5 L (marshal L a) = md5 L (marshal L b)"
  by (simp add: etag_of_def hex_encode_inj)

lemma not_modified_simps [simp]: "rs_status (not_modified hs) = 304" "rs_body (not_modified hs) = None"
  by (simp_all add: not_modified_def)

lemma cacheable_status:
  "rs_status (WriteCacheableJSON L r st lm body) \<in> {304, st}"
  by (simp add: WriteCacheableJSON_def Let_def)

end
