(* ===== verification/Listings.thy ===== *)
theory Listings
  imports Http
begin

text \<open>
  \<open>internal/listing\<close>'s repository and events: the rows of \<open>gear_listings\<close> as the other
  components read and write them.
\<close>

definition listing_ErrNotFound :: gerr where "listing_ErrNotFound = Sentinel ''listing: not found''"
definition ErrInvalidInput :: gerr where "ErrInvalidInput = Sentinel ''listing: invalid input''"

definition listing_by_id :: "int \<Rightarrow> tables \<Rightarrow> listing option" where
  "listing_by_id i t = find (\<lambda>l. ls_id l = i) (t_listings t)"

definition listing_GetByID :: "int \<Rightarrow> world \<Rightarrow> (gerr + listing) \<times> world" where
  "listing_GetByID i w = map_err (not_found_or listing_ErrNotFound ''listing: get'') (sql_get (listing_by_id i) w)"

definition listing_Create :: "listing \<Rightarrow> world \<Rightarrow> (gerr + int) \<times> world" where
  "listing_Create l w = map_err (Wrapped ''listing: create'') (sql_exec (insert_listing l) w)"

text \<open>\<open>ORDER BY created_at DESC LIMIT ? OFFSET ?\<close>; equal timestamps in the engine's order.\<close>

definition newest_first :: "(int \<Rightarrow> int) \<Rightarrow> listing list \<Rightarrow> listing list" where
  "newest_first rank ls = sort_key (\<lambda>l. - ls_created l) (sort_key (\<lambda>l. rank (ls_id l)) ls)"

definition page :: "int \<Rightarrow> int \<Rightarrow> 'a list \<Rightarrow> 'a list" where
  "page limit offset xs = take (nat limit) (drop (nat offset) xs)"

definition active_page :: "(int \<Rightarrow> int) \<Rightarrow> int \<Rightarrow> int \<Rightarrow> tables \<Rightarrow> listing list" where
  "active_page rank limit offset t =
     page limit offset (newest_first rank (filter (\<lambda>l. ls_status l = StatusActive) (t_listings t)))"

definition ListActivePage :: "int \<Rightarrow> int \<Rightarrow> world \<Rightarrow> (gerr + listing list) \<times> world" where
  "ListActivePage limit offset w =
     map_err (Wrapped ''listing: list active page'') (sql_select (active_page (row_rank w) limit offset) w)"

lemma listing_by_id_Some: "listing_by_id i t = Some l \<Longrightarrow> l \<in> set (t_listings t) \<and> ls_id l = i"
  unfolding listing_by_id_def by (rule find_SomeD)

lemma active_page_subset: "set (active_page rank m n t) \<subseteq> set (t_listings t)"
  unfolding active_page_def page_def newest_first_def
  by (auto dest!: in_set_takeD in_set_dropD)

lemma active_page_active: "l \<in> set (active_page rank m n t) \<Longrightarrow> ls_status l = StatusActive"
  unfolding active_page_def page_def newest_first_def
  by (auto dest!: in_set_takeD in_set_dropD)

lemma active_page_length: "length (active_page rank m n t) \<le> nat m"
  by (simp add: active_page_def page_def)

lemma listing_GetByID_same:
  "listing_GetByID i w = (r, w') \<Longrightarrow> same_env w w' \<and> same_db w w' \<and> queries w' = Suc (queries w)"
  using sql_get_same [of "listing_by_id i" w] unfolding listing_GetByID_def
  by (cases "sql_get (listing_by_id i) w"; cases "fst (sql_get (listing_by_id i) w)"; auto)

lemma listing_GetByID_ok:
  assumes "listing_GetByID i w = (Inr l, w')"
  shows "listing_by_id i (reader w) = Some l"
  using assms sql_get_ok [of "listing_by_id i" w l w'] by (simp add: listing_GetByID_def)

lemma listing_GetByID_works:
  "faults w = [] \<Longrightarrow> listing_GetByID i w =
     ((case listing_by_id i (reader w) of None \<Rightarrow> Inl listing_ErrNotFound | Some l \<Rightarrow> Inr l),
      w\<lparr>queries := Suc (queries w)\<rparr>)"
  by (simp add: listing_GetByID_def or_no_rows_def not_found_or_def ErrNoRows_def split: option.splits)

subsection \<open>Events\<close>

datatype listing_event_type = EventListingCreated | EventListingUpdated | EventListingDeleted

fun listing_event_str :: "listing_event_type \<Rightarrow> string" where
  "listing_event_str EventListingCreated = ''ListingCreated''"
| "listing_event_str EventListingUpdated = ''ListingUpdated''"
| "listing_event_str EventListingDeleted = ''ListingDeleted''"

fun lstatus_str :: "lstatus \<Rightarrow> string" where
  "lstatus_str StatusDraft = ''draft''"
| "lstatus_str StatusActive = ''active''"
| "lstatus_str StatusArchived = ''archived''"

record listing_event =
  le_type :: listing_event_type
  le_listing :: int
  le_title :: string
  le_desc :: string
  le_price :: int
  le_category :: string
  le_status :: string

definition listing_event_json :: "listing_event \<Rightarrow> json" where
  "listing_event_json e = JObj
     [(''type'', JStr (listing_event_str (le_type e))), (''listing_id'', JNum (le_listing e)),
      (''title'', JStr (le_title e)), (''description'', JStr (le_desc e)),
      (''price_per_day_cents'', JNum (le_price e)), (''category_name'', JStr (le_category e)),
      (''status'', JStr (le_status e))]"

definition TopicListingEvents :: string where "TopicListingEvents = ''listing.events''"

text \<open>The publisher's error, if any; without a publisher nothing happens.\<close>

definition listing_publishEvent :: "bool \<Rightarrow> listing_event \<Rightarrow> world \<Rightarrow> gerr option \<times> world" where
  "listing_publishEvent has_publisher e w =
     (if \<not> has_publisher then (None, w)
      else io_effect (Published TopicListingEvents (format_int (le_listing e)) (listing_event_json e)) w)"

end
