(* ===== verification/Cache.thy ===== *)
theory Cache
  imports Http
begin

text \<open>
  \<open>internal/cache\<close>: the cache-aside store of feed pages and listing details, and the
  distributed fixed-window rate limiter, over a Redis whose keys carry an expiry. A Redis
  failure is a miss for the cache and "allowed" for the limiter.
\<close>

subsection \<open>Redis\<close>

definition r_live :: "world \<Rightarrow> string \<Rightarrow> rval option" where
  "r_live w k = (case redis w k of None \<Rightarrow> None
     | Some (v, e) \<Rightarrow> (case e of Some t \<Rightarrow> if t \<le> clock w then None else Some v | None \<Rightarrow> Some v))"

definition r_put :: "string \<Rightarrow> (rval \<times> time option) option \<Rightarrow> world \<Rightarrow> world" where
  "r_put k v w = w\<lparr>redis := (redis w)(k := v)\<rparr>"

definition redis_get :: "string \<Rightarrow> world \<Rightarrow> (gerr + rval option) \<times> world" where
  "redis_get k w = (case io w of
       (Works, w') \<Rightarrow> (Inr (r_live w' k), w')
     | (Fails g, w') \<Rightarrow> (Inl g, w')
     | (Lost s, w') \<Rightarrow> (Inl (OtherErr s), w'))"

definition redis_write :: "(world \<Rightarrow> world) \<Rightarrow> world \<Rightarrow> world" where
  "redis_write f w = (case io w of (Fails g, w') \<Rightarrow> w' | (_, w') \<Rightarrow> f w')"

definition redis_incr :: "string \<Rightarrow> world \<Rightarrow> (gerr + int) \<times> world" where
  "redis_incr k w = (case io w of
       (Fails g, w') \<Rightarrow> (Inl g, w')
     | (f, w') \<Rightarrow>
        (case r_live w' k of
           Some (RBody b) \<Rightarrow> (Inl (OtherErr ''ERR value is not an integer or out of range''), w')
         | v \<Rightarrow> let n = (case v of Some (RInt n) \<Rightarrow> n | _ \<Rightarrow> 0) + 1;
                    e = (if v = None then None else snd (the (redis w' k)))
                in (case f of Lost s \<Rightarrow> Inl (OtherErr s) | _ \<Rightarrow> Inr n, r_put k (Some (RInt n, e)) w')))"

definition r_expire :: "string \<Rightarrow> time \<Rightarrow> world \<Rightarrow> world" where
  "r_expire k d w = (case r_live w k of None \<Rightarrow> w
     | Some v \<Rightarrow> r_put k (Some (v, Some (clock w + d))) w)"

lemmas redis_defs = redis_get_def redis_write_def redis_incr_def

lemma r_put_simps [simp]:
  "clock (r_put k v w) = clock w" "faults (r_put k v w) = faults w" "primary (r_put k v w) = primary w"
  "redis (r_put k v w) = (redis w)(k := v)" "effects (r_put k v w) = effects w"
  "replica (r_put k v w) = replica w" "counters_of (r_put k v w) = counters_of w"
  "reader (r_put k v w) = reader w" "email_key (r_put k v w) = email_key w" "row_rank (r_put k v w) = row_rank w"
  by (simp_all add: r_put_def)

subsection \<open>The listing cache\<close>

definition feedKey :: "int \<Rightarrow> int \<Rightarrow> string" where
  "feedKey limit offset = ''gearshare:listing:feed:'' @ format_int limit @ '':'' @ format_int offset"

definition detailKey :: "int \<Rightarrow> string" where
  "detailKey listingID = ''gearshare:listing:detail:'' @ format_int listingID"

definition cache_get :: "string \<Rightarrow> world \<Rightarrow> json option \<times> world" where
  "cache_get key w = (case redis_get key w of
       (Inr (Some (RBody b)), w') \<Rightarrow> (Some b, w')
     | (Inr (Some (RInt n)), w') \<Rightarrow> (Some (JNum n), w')
     | (_, w') \<Rightarrow> (None, w'))"

definition cache_set :: "time \<Rightarrow> string \<Rightarrow> json \<Rightarrow> world \<Rightarrow> world" where
  "cache_set ttl key payload w = redis_write (\<lambda>w'. r_put key (Some (RBody payload, Some (clock w' + ttl))) w') w"

definition InvalidateDetail :: "int \<Rightarrow> world \<Rightarrow> world" where
  "InvalidateDetail listingID w =
     redis_write (r_put (feedKey 20 0) None) (redis_write (r_put (detailKey listingID) None) w)"

definition GetFeed :: "int \<Rightarrow> int \<Rightarrow> world \<Rightarrow> json option \<times> world" where
  "GetFeed limit offset = cache_get (feedKey limit offset)"

definition SetFeed :: "time \<Rightarrow> int \<Rightarrow> int \<Rightarrow> json \<Rightarrow> world \<Rightarrow> world" where
  "SetFeed ttl limit offset = cache_set ttl (feedKey limit offset)"

definition GetDetail :: "int \<Rightarrow> world \<Rightarrow> json option \<times> world" where
  "GetDetail listingID = cache_get (detailKey listingID)"

definition SetDetail :: "time \<Rightarrow> int \<Rightarrow> json \<Rightarrow> world \<Rightarrow> world" where
  "SetDetail ttl listingID = cache_set ttl (detailKey listingID)"

lemma feedKey_inj: "feedKey a b = feedKey c d \<longleftrightarrow> a = c \<and> b = d"
proof
  assume "feedKey a b = feedKey c d"
  then have "format_int a @ '':'' @ format_int b = format_int c @ '':'' @ format_int d"
    by (simp add: feedKey_def)
  moreover have "CHR '':'' \<notin> set (format_int x)" for x
    using format_int_chars [of _ x] by (force simp: is_digit_def)
  ultimately have "format_int a = format_int c \<and> format_int b = format_int d"
    by (metis append_Cons append_Nil append_Cons_eq_iff)
  then show "a = c \<and> b = d" by (simp add: format_int_inj)
qed simp

lemma detailKey_inj [simp]: "detailKey a = detailKey b \<longleftrightarrow> a = b"
  by (simp add: detailKey_def format_int_inj)

lemma feed_not_detail [simp]: "feedKey a b \<noteq> detailKey c" "detailKey c \<noteq> feedKey a b"
  by (simp_all add: feedKey_def detailKey_def)

lemma redis_write_db [simp]:
  assumes "\<And>w. primary (f w) = primary w \<and> replica (f w) = replica w \<and> counters_of (f w) = counters_of w
     \<and> clock (f w) = clock w \<and> effects (f w) = effects w \<and> email_key (f w) = email_key w \<and> row_rank (f w) = row_rank w"
  shows "primary (redis_write f w) = primary w" "replica (redis_write f w) = replica w"
    "counters_of (redis_write f w) = counters_of w" "clock (redis_write f w) = clock w"
    "effects (redis_write f w) = effects w" "email_key (redis_write f w) = email_key w"
    "row_rank (redis_write f w) = row_rank w"
  using assms by (cases "io w"; cases "fst (io w)"; auto simp: redis_write_def dest: io_same)+

lemma Invalidate_db [simp]:
  "primary (InvalidateDetail i w) = primary w" "replica (InvalidateDetail i w) = replica w"
  "counters_of (InvalidateDetail i w) = counters_of w" "clock (InvalidateDetail i w) = clock w"
  "effects (InvalidateDetail i w) = effects w" "email_key (InvalidateDetail i w) = email_key w"
  "row_rank (InvalidateDetail i w) = row_rank w"
  by (simp_all add: InvalidateDetail_def)

lemma reader_Invalidate [simp]: "reader (InvalidateDetail i w) = reader w"
  by (simp add: reader_def split: option.splits)

lemma faults_Invalidate [simp]: "faults w = [] \<Longrightarrow> faults (InvalidateDetail i w) = []"
  by (simp add: InvalidateDetail_def redis_write_def io_ok)

lemma cache_get_same: "cache_get k w = (r, w') \<Longrightarrow> same_env w w' \<and> same_db w w'"
  unfolding cache_get_def redis_get_def
  by (auto split: prod.splits fault.splits sum.splits option.splits rval.splits dest!: io_same
      simp: same_env_def same_db_def)

subsection \<open>The rate limiter\<close>

text \<open>\<open>Duration.Seconds()\<close> as Go computes it in \<open>float64\<close>.\<close>

definition duration_seconds :: "int \<Rightarrow> rat" where
  "duration_seconds d = fl (fl (of_int (go_div d second)) + fl (fl (of_int (go_mod d second)) / fl 1000000000))"

datatype allow_result = Panics | Answer bool "gerr option"

definition windowKey :: "string \<Rightarrow> time \<Rightarrow> int \<Rightarrow> string" where
  "windowKey key now secs = ''gearshare:ratelimit:'' @ key @ '':'' @ format_int (go_div (unix now) secs)"

text \<open>Integer division by zero panics; \<open>EXPIRE\<close>'s own error is dropped.\<close>

definition Allow :: "string \<Rightarrow> int \<Rightarrow> int \<Rightarrow> world \<Rightarrow> allow_result \<times> world" where
  "Allow key mx window w =
     (let secs = float_to_int (duration_seconds window)
      in if secs = 0 then (Panics, w)
         else let k = windowKey key (clock w) secs
              in case redis_incr k w of
                   (Inl e, w1) \<Rightarrow> (Answer True (Some (Wrapped ''ratelimiter: incr'' e)), w1)
                 | (Inr n, w1) \<Rightarrow>
                     (Answer (n \<le> mx) None, if n = 1 then redis_write (r_expire k window) w1 else w1))"

text \<open>A panic reaches chi's \<open>Recoverer\<close>, which answers 500.\<close>

definition Middleware :: "int \<Rightarrow> int \<Rightarrow> (http_req \<Rightarrow> string) \<Rightarrow> handler \<Rightarrow> handler" where
  "Middleware mx window keyFunc nxt r w = (case Allow (keyFunc r) mx window w of
       (Panics, w') \<Rightarrow> (\<lparr>rs_status = 500, rs_headers = [], rs_cookies = [], rs_body = None\<rparr>, w')
     | (Answer allowed (Some e), w') \<Rightarrow> nxt r w'
     | (Answer allowed None, w') \<Rightarrow>
         if \<not> allowed then (Error 429 ''rate limit exceeded'', w') else nxt r w')"

subsection \<open>A window's requests\<close>

text \<open>
  Requests of one key, each with the clock at which it arrives and the limit of the middleware
  it passes.
\<close>

fun allow_run :: "string \<Rightarrow> int \<Rightarrow> (time \<times> int) list \<Rightarrow> world \<Rightarrow> allow_result list \<times> world" where
  "allow_run key window [] w = ([], w)"
| "allow_run key window ((t, mx) # rs) w =
     (case Allow key mx window (w\<lparr>clock := t\<rparr>) of (a, w1) \<Rightarrow>
      case allow_run key window rs w1 of (as, w2) \<Rightarrow> (a # as, w2))"

lemma duration_seconds_whole:
  assumes "0 \<le> k" and "k < 2 ^ 53"
  shows "duration_seconds (k * second) = of_int k"
proof -
  have d: "go_div (k * second) second = k"
    using assms go_div_nonneg [of "k * second" second] by (simp add: second_def)
  have "go_mod (k * second) second = 0" unfolding go_mod_def d by simp
  moreover have "fl (of_int k) = of_int k" using assms by (intro fl_int) simp
  ultimately show ?thesis unfolding duration_seconds_def d by simp
qed

lemma window_end:
  assumes "0 < k" and "unix t div k = j"
  shows "t < (j + 1) * k * second" and "j * k * second \<le> t"
proof -
  have a: "unix t < k * j + k" "k * j \<le> unix t"
    using div_bounds [OF assms(1), of "unix t"] assms(2) by simp_all
  have s: "0 < second" by (simp add: second_def)
  have b: "t < second * unix t + second" "second * unix t \<le> t"
    using div_bounds [OF s, of t] by (simp_all add: unix_def)
  have "second * unix t + second \<le> second * (k * j + k)"
    using a(1) s by (metis add1_zle_eq distrib_left mult.right_neutral mult_le_cancel_left_pos)
  with b(1) show "t < (j + 1) * k * second" by (simp add: algebra_simps)
  have "second * (k * j) \<le> second * unix t" using a(2) s by simp
  with b(2) show "j * k * second \<le> t" by (simp add: algebra_simps)
qed

definition window_count :: "world \<Rightarrow> string \<Rightarrow> nat \<Rightarrow> time \<Rightarrow> bool" where
  "window_count w k n limit \<longleftrightarrow> (if n = 0 then redis w k = None
     else \<exists>e. redis w k = Some (RInt (int n), Some e) \<and> limit \<le> e)"

lemma allow_step:
  assumes w: "faults w = []" "window_count w K n ((j + 1) * k * second)"
    and k: "0 < k" "k < 2 ^ 53" and t: "0 \<le> clock w" "unix (clock w) div k = j"
    and K: "K = ''gearshare:ratelimit:'' @ key @ '':'' @ format_int j"
  obtains w' where "Allow key mx (k * second) w = (Answer (int n + 1 \<le> mx) None, w')"
    "faults w' = []" "window_count w' K (Suc n) ((j + 1) * k * second)"
proof -
  have secs: "float_to_int (duration_seconds (k * second)) = k"
    using duration_seconds_whole [of k] k by simp
  have "0 \<le> unix (clock w)" using t(1) by (simp add: unix_def second_def pos_imp_zdiv_nonneg_iff)
  then have wk: "windowKey key (clock w) k = K"
    using k(1) t(2) by (simp add: windowKey_def K go_div_nonneg)
  have lim: "clock w < (j + 1) * k * second" "(j + 1) * k * second \<le> clock w + k * second"
    using window_end [OF k(1) t(2)] by (simp_all add: algebra_simps)
  obtain a w' where A: "Allow key mx (k * second) w = (a, w')" by fastforce
  have "a = Answer (int n + 1 \<le> mx) None \<and> faults w' = [] \<and> window_count w' K (Suc n) ((j + 1) * k * second)"
  proof (cases "n = 0")
    case True
    with w(2) have "redis w K = None" by (simp add: window_count_def)
    with A w(1) k secs wk lim True show ?thesis
      by (auto simp: Allow_def Let_def redis_defs io_ok r_live_def r_expire_def window_count_def)
  next
    case False
    with w(2) obtain e where "redis w K = Some (RInt (int n), Some e)" "(j + 1) * k * second \<le> e"
      by (auto simp: window_count_def)
    with A w(1) k secs wk lim False show ?thesis
      by (auto simp: Allow_def Let_def redis_defs io_ok r_live_def window_count_def)
  qed
  with A that show thesis by blast
qed

lemma allow_run_counts:
  assumes "faults w = []" and "window_count w K n ((j + 1) * k * second)" and "0 < k" and "k < 2 ^ 53"
    and "\<forall>(t, mx)\<in>set rs. 0 \<le> t \<and> unix t div k = j"
    and "K = ''gearshare:ratelimit:'' @ key @ '':'' @ format_int j"
  shows "fst (allow_run key (k * second) rs w)
    = map2 (\<lambda>i r. Answer (int i + 1 \<le> snd r) None) [n..<n + length rs] rs"
  using assms
proof (induction rs arbitrary: w n)
  case (Cons r rs)
  obtain t mx where r: "r = (t, mx)" by fastforce
  have c: "window_count (w\<lparr>clock := t\<rparr>) K n ((j + 1) * k * second)"
    using Cons.prems(2) by (simp add: window_count_def)
  obtain w' where a: "Allow key mx (k * second) (w\<lparr>clock := t\<rparr>) = (Answer (int n + 1 \<le> mx) None, w')"
    and w': "faults w' = []" "window_count w' K (Suc n) ((j + 1) * k * second)"
    by (rule allow_step [where mx = mx, OF _ c Cons.prems(3,4) _ _ Cons.prems(6)])
      (use Cons.prems r in auto)
  have u: "[n..<n + length (r # rs)] = n # [Suc n..<Suc n + length rs]"
    by (simp add: upt_conv_Cons del: upt_Suc)
  have "fst (allow_run key (k * second) (r # rs) w)
      = Answer (int n + 1 \<le> mx) None # fst (allow_run key (k * second) rs w')"
    by (simp add: r a split: prod.splits)
  also have "fst (allow_run key (k * second) rs w')
      = map2 (\<lambda>i r. Answer (int i + 1 \<le> snd r) None) [Suc n..<Suc n + length rs] rs"
    by (rule Cons.IH [OF w' Cons.prems(3,4) _ Cons.prems(6)]) (use Cons.prems(5) in auto)
  finally show ?case unfolding u by (simp add: r del: upt_Suc)
qed simp

end
