(* ===== verification/Booking.thy ===== *)
theory Booking
  imports Pricing Availability Listings Cache
begin

text \<open>
  \<open>internal/booking\<close> without its HTTP layer: the repository, the transaction that writes a
  booking with its availability block, the service with its events, emails and notifications.
\<close>

subsection \<open>Repository\<close>

definition ErrNotFound :: gerr where "ErrNotFound = Sentinel ''booking: not found''"
definition ErrInvalidTransition :: gerr where
  "ErrInvalidTransition = Sentinel ''booking: invalid status transition''"
definition ErrListingUnavailable :: gerr where
  "ErrListingUnavailable = Sentinel ''booking: listing not available for the requested dates''"

definition booking_by_id :: "int \<Rightarrow> tables \<Rightarrow> booking option" where
  "booking_by_id i t = find (\<lambda>b. bk_id b = i) (t_bookings t)"

definition CreateInTx :: "booking \<Rightarrow> int txop" where
  "CreateInTx b s = map_err (Wrapped ''booking: create in tx'') (tx_exec (insert_booking b) s)"

definition GetByID :: "int \<Rightarrow> world \<Rightarrow> (gerr + booking) \<times> world" where
  "GetByID i w = map_err (not_found_or ErrNotFound ''booking: get'') (sql_get (booking_by_id i) w)"

definition UpdateStatus :: "int \<Rightarrow> bstatus \<Rightarrow> world \<Rightarrow> (gerr + unit) \<times> world" where
  "UpdateStatus i new w =
     bind_res (GetByID i w) (\<lambda>current w1.
       if \<not> CanTransition (bk_status current) new then (Inl ErrInvalidTransition, w1)
       else map_err (Wrapped ''booking: update status'') (sql_exec (update_booking_status i new) w1))"

definition ListRecent :: "int \<Rightarrow> world \<Rightarrow> (gerr + booking list) \<times> world" where
  "ListRecent limit w = map_err (Wrapped ''booking: list recent'')
     (sql_select (\<lambda>t. take (nat limit) (sort_key (\<lambda>b. - bk_created b)
        (sort_key (\<lambda>b. row_rank w (bk_id b)) (t_bookings t)))) w)"

definition owned_by :: "int \<Rightarrow> tables \<Rightarrow> booking \<Rightarrow> bool" where
  "owned_by ownerID t b \<longleftrightarrow> (\<exists>l\<in>set (t_listings t). ls_id l = bk_listing b \<and> ls_owner l = ownerID)"

definition ListForOwner :: "int \<Rightarrow> world \<Rightarrow> (gerr + booking list) \<times> world" where
  "ListForOwner ownerID w = map_err (Wrapped ''booking: list for owner'')
     (sql_select (\<lambda>t. sort_key (\<lambda>b. - bk_updated b) (sort_key (\<lambda>b. row_rank w (bk_id b))
        (filter (owned_by ownerID t) (t_bookings t)))) w)"

subsection \<open>The booking transaction\<close>

record CreateBookingInput =
  in_listing :: int
  in_renter :: int
  in_start :: time
  in_end :: time

definition new_booking :: "CreateBookingInput \<Rightarrow> int \<Rightarrow> booking" where
  "new_booking inp totalPrice =
     \<lparr>bk_id = 0, bk_listing = in_listing inp, bk_renter = in_renter inp, bk_start = in_start inp,
      bk_end = in_end inp, bk_status = Requested, bk_total = totalPrice, bk_created = 0, bk_updated = 0\<rparr>"

definition create_body :: "CreateBookingInput \<Rightarrow> int \<Rightarrow> int txop" where
  "create_body inp totalPrice s =
     bind_res (CountOverlapping (in_listing inp) (in_start inp) (in_end inp) s) (\<lambda>overlapping s1.
       if overlapping > 0 then (Inl ErrListingUnavailable, s1)
       else bind_res (CreateInTx (new_booking inp totalPrice) s1) (\<lambda>bookingID s2.
         bind_res (InsertBlock (in_listing inp) bookingID (in_start inp) (in_end inp) ReasonBooked s2) (\<lambda>_ s3.
           (Inr bookingID, s3))))"

definition CreateAtomic :: "CreateBookingInput \<Rightarrow> world \<Rightarrow> (gerr + booking) \<times> world" where
  "CreateAtomic inp w =
     bind_res (map_err (Wrapped ''booking: load listing'') (listing_GetByID (in_listing inp) w)) (\<lambda>l w1.
       case CalculateTotalPriceCents (in_start inp) (in_end inp) (ls_price l) of
         Inl e \<Rightarrow> (Inl e, w1)
       | Inr totalPrice \<Rightarrow> bind_res (WithinTransaction (create_body inp totalPrice) w1) GetByID)"

subsection \<open>Events\<close>

datatype event_type = EventBookingCreated | EventBookingApproved | EventBookingActivated
  | EventBookingRejected | EventBookingCancelled | EventBookingCompleted | EventBookingDisputed

fun event_str :: "event_type \<Rightarrow> string" where
  "event_str EventBookingCreated = ''BookingCreated''"
| "event_str EventBookingApproved = ''BookingApproved''"
| "event_str EventBookingActivated = ''BookingActivated''"
| "event_str EventBookingRejected = ''BookingRejected''"
| "event_str EventBookingCancelled = ''BookingCancelled''"
| "event_str EventBookingCompleted = ''BookingCompleted''"
| "event_str EventBookingDisputed = ''BookingDisputed''"

record event =
  ev_type :: event_type
  ev_booking :: int
  ev_listing :: int
  ev_renter :: int
  ev_status :: bstatus
  ev_at :: time

definition event_json :: "event \<Rightarrow> json" where
  "event_json e = JObj
     [(''type'', JStr (event_str (ev_type e))), (''booking_id'', JNum (ev_booking e)),
      (''listing_id'', JNum (ev_listing e)), (''renter_id'', JNum (ev_renter e)),
      (''status'', JStr (status_str (ev_status e))), (''occurred_at'', JTime (ev_at e))]"

definition TopicBookingEvents :: string where "TopicBookingEvents = ''booking.events''"

definition publishEvent :: "bool \<Rightarrow> event \<Rightarrow> world \<Rightarrow> gerr option \<times> world" where
  "publishEvent has_publisher e w =
     (if \<not> has_publisher then (None, w)
      else io_effect (Published TopicBookingEvents (format_int (ev_booking e)) (event_json e)) w)"

subsection \<open>Service\<close>

text \<open>The collaborators that are wired in; the others are \<open>nil\<close>.\<close>

record service =
  sv_publisher :: bool
  sv_cache :: bool
  sv_notifier :: bool
  sv_sync :: bool

definition email_json :: "int \<Rightarrow> int \<Rightarrow> string \<Rightarrow> json" where
  "email_json bookingID renterID template = JObj
     [(''booking_id'', JNum bookingID), (''renter_id'', JNum renterID), (''template'', JStr template)]"

definition queueEmail :: "service \<Rightarrow> int \<Rightarrow> int \<Rightarrow> string \<Rightarrow> world \<Rightarrow> world" where
  "queueEmail s bookingID renterID template w =
     (if \<not> sv_notifier s then w else snd (io_effect (EmailQueued (email_json bookingID renterID template)) w))"

definition invalidateListingCache :: "service \<Rightarrow> int \<Rightarrow> world \<Rightarrow> world" where
  "invalidateListingCache s listingID w = (if sv_cache s then InvalidateDetail listingID w else w)"

definition booking_event :: "event_type \<Rightarrow> booking \<Rightarrow> time \<Rightarrow> event" where
  "booking_event ty b now = \<lparr>ev_type = ty, ev_booking = bk_id b, ev_listing = bk_listing b,
     ev_renter = bk_renter b, ev_status = bk_status b, ev_at = now\<rparr>"

text \<open>A failed publish is only printed.\<close>

definition CreateBooking :: "service \<Rightarrow> int \<Rightarrow> int \<Rightarrow> time \<Rightarrow> time \<Rightarrow> world \<Rightarrow> (gerr + booking) \<times> world" where
  "CreateBooking s listingID renterID start finish w =
     bind_res (CreateAtomic \<lparr>in_listing = listingID, in_renter = renterID, in_start = start, in_end = finish\<rparr> w)
       (\<lambda>b w1. let w2 = invalidateListingCache s (bk_listing b) w1;
                   w3 = snd (publishEvent (sv_publisher s) (booking_event EventBookingCreated b (clock w2)) w2)
               in (Inr b, w3))"

fun emailTemplateFor :: "event_type \<Rightarrow> string option" where
  "emailTemplateFor EventBookingApproved = Some ''booking_approved''"
| "emailTemplateFor EventBookingDisputed = Some ''booking_disputed''"
| "emailTemplateFor _ = None"

definition transition :: "service \<Rightarrow> int \<Rightarrow> bstatus \<Rightarrow> event_type \<Rightarrow> world \<Rightarrow> (gerr + booking) \<times> world" where
  "transition s bookingID new evtType w =
     bind_res (UpdateStatus bookingID new w) (\<lambda>_ w1.
       bind_res (GetByID bookingID w1) (\<lambda>b w2.
         let w3 = invalidateListingCache s (bk_listing b) w2;
             w4 = snd (publishEvent (sv_publisher s) (booking_event evtType b (clock w3)) w3);
             w5 = (case emailTemplateFor evtType of None \<Rightarrow> w4
                   | Some template \<Rightarrow> queueEmail s (bk_id b) (bk_renter b) template w4);
             w6 = (if evtType = EventBookingDisputed \<and> sv_sync s
                   then snd (io_effect (SyncSent (bk_renter b) ''booking_disputed'') w5) else w5)
         in (Inr b, w6)))"

definition Approve :: "service \<Rightarrow> int \<Rightarrow> world \<Rightarrow> (gerr + booking) \<times> world" where
  "Approve s i = transition s i Approved EventBookingApproved"

definition Reject :: "service \<Rightarrow> int \<Rightarrow> world \<Rightarrow> (gerr + booking) \<times> world" where
  "Reject s i = transition s i Rejected EventBookingRejected"

definition Cancel :: "service \<Rightarrow> int \<Rightarrow> world \<Rightarrow> (gerr + booking) \<times> world" where
  "Cancel s i = transition s i Cancelled EventBookingCancelled"

definition Activate :: "service \<Rightarrow> int \<Rightarrow> world \<Rightarrow> (gerr + booking) \<times> world" where
  "Activate s i = transition s i Active EventBookingActivated"

definition Complete :: "service \<Rightarrow> int \<Rightarrow> world \<Rightarrow> (gerr + booking) \<times> world" where
  "Complete s i = transition s i Completed EventBookingCompleted"

definition Dispute :: "service \<Rightarrow> int \<Rightarrow> world \<Rightarrow> (gerr + booking) \<times> world" where
  "Dispute s i = transition s i Disputed EventBookingDisputed"

lemmas transition_ops = Approve_def Reject_def Cancel_def Activate_def Complete_def Dispute_def

end
