(* ===== verification/BookingInv.thy ===== *)
theory BookingInv
  imports Booking
begin

text \<open>
  The invariant of the booking tables and its preservation: no two blocks of a listing overlap,
  and bookings and blocks correspond one to one. The transaction body instantiates the
  transaction contract; \<open>CreateBooking\<close> then keeps the invariant under every failure script.
\<close>

subsection \<open>The invariant\<close>

definition disjoint_blocks :: "tables \<Rightarrow> bool" where
  "disjoint_blocks t \<longleftrightarrow> (\<forall>k\<in>set (t_blocks t). \<forall>k'\<in>set (t_blocks t).
     bl_id k \<noteq> bl_id k' \<longrightarrow> bl_listing k = bl_listing k' \<longrightarrow>
     \<not> DatesOverlap (bl_start k) (bl_end k) (bl_start k') (bl_end k'))"

definition stay_of_booking :: "booking \<Rightarrow> int option \<times> int \<times> time \<times> time" where
  "stay_of_booking b = (Some (bk_id b), bk_listing b, bk_start b, bk_end b)"

definition stay_of_block :: "block \<Rightarrow> int option \<times> int \<times> time \<times> time" where
  "stay_of_block k = (bl_booking k, bl_listing k, bl_start k, bl_end k)"

definition paired :: "tables \<Rightarrow> bool" where
  "paired t \<longleftrightarrow> stay_of_booking ` set (t_bookings t)
       = stay_of_block ` set (filter (\<lambda>k. bl_booking k \<noteq> None) (t_blocks t))
     \<and> (\<forall>k\<in>set (t_blocks t). \<forall>k'\<in>set (t_blocks t).
          bl_booking k = bl_booking k' \<longrightarrow> bl_booking k \<noteq> None \<longrightarrow> bl_id k = bl_id k')"

definition booking_inv :: "(string \<Rightarrow> string) \<Rightarrow> dbstate \<Rightarrow> bool" where
  "booking_inv ck s \<longleftrightarrow> wf_tables ck (fst s) \<and> fresh_ids (snd s) (fst s)
     \<and> disjoint_blocks (fst s) \<and> paired (fst s)"

definition world_inv :: "world \<Rightarrow> bool" where
  "world_inv w \<longleftrightarrow> booking_inv (email_key w) (db_of w)"

lemma booking_inv_counters: "booking_inv ck (t, ai) \<Longrightarrow> ai \<le> ai' \<Longrightarrow> booking_inv ck (t, ai')"
  using fresh_mono by (auto simp: booking_inv_def)

subsection \<open>The transaction body\<close>

lemma map_err_cases:
  assumes "map_err f m = (r, s)"
  obtains r0 where "m = (r0, s)" and "\<And>x. r = Inr x \<longleftrightarrow> r0 = Inr x"
  using assms by (cases m; cases "fst m") auto

lemma bind_res_cases:
  assumes "bind_res m f = (r, s')"
  obtains (err) e where "m = (Inl e, s')" "r = Inl e"
  | (val) x s where "m = (Inr x, s)" "f x s = (r, s')"
  using assms by (cases m; cases "fst m") auto

lemma CountOverlapping_frame:
  assumes "CountOverlapping l s e (t, w) = (r, t', w')"
  shows "t' = t \<and> tx_frame w w' \<and> counters_of w' = counters_of w
    \<and> (r = Inr 0 \<longrightarrow> (\<forall>k\<in>set (t_blocks t). \<not> overlaps_range l s e k))"
  using assms unfolding CountOverlapping_def
proof (rule map_err_cases)
  fix r0
  assume m: "tx_select (\<lambda>t. length (filter (overlaps_range l s e) (t_blocks t))) (t, w) = (r0, t', w')"
    and r: "\<And>x. r = Inr x \<longleftrightarrow> r0 = Inr x"
  have "\<forall>k\<in>set (t_blocks t). \<not> overlaps_range l s e k" if "r = Inr 0"
    using tx_select_ok [of _ t w 0 t' w'] m that r count_overlapping_zero by metis
  then show ?thesis using tx_select_frame [OF m] by blast
qed

lemma CreateInTx_ok:
  assumes "CreateInTx b (t, w) = (r, t', w')"
  shows "tx_frame w w' \<and> (\<forall>i. r = Inr i \<longrightarrow> insert_booking b (clock w) t (counters_of w) = (Inr i, t', counters_of w'))"
  using assms unfolding CreateInTx_def
  by (rule map_err_cases) (auto dest: tx_exec_ok tx_exec_frame [OF counts_up_dml(1)])

lemma InsertBlock_ok:
  assumes "InsertBlock l i s e rs (t, w) = (r, t', w')"
  shows "tx_frame w w' \<and> (\<forall>j. r = Inr j \<longrightarrow>
    insert_block (new_block l i s e rs) (clock w) t (counters_of w) = (Inr j, t', counters_of w'))"
  using assms unfolding InsertBlock_def
  by (rule map_err_cases) (auto dest: tx_exec_ok tx_exec_frame [OF counts_up_dml(2)])

definition create_step :: "CreateBookingInput \<Rightarrow> int \<Rightarrow> int \<Rightarrow> dbstate \<Rightarrow> dbstate \<Rightarrow> bool" where
  "create_step inp price i s s' \<longleftrightarrow>
     (\<forall>k\<in>set (t_blocks (fst s)). \<not> overlaps_range (in_listing inp) (in_start inp) (in_end inp) k)
     \<and> (\<exists>now1 now2 j t1 ai1. insert_booking (new_booking inp price) now1 (fst s) (snd s) = (Inr i, t1, ai1)
        \<and> insert_block (new_block (in_listing inp) i (in_start inp) (in_end inp) ReasonBooked) now2 t1 ai1
          = (Inr j, s'))"

lemma create_body_cases:
  assumes "create_body inp price (t, w) = (r, t', w')"
  shows "tx_frame w w'" and "r = Inr i \<Longrightarrow> create_step inp price i (t, counters_of w) (t', counters_of w')"
proof -
  have "tx_frame w w' \<and> (\<forall>i. r = Inr i \<longrightarrow> create_step inp price i (t, counters_of w) (t', counters_of w'))"
    using assms unfolding create_body_def
  proof (cases rule: bind_res_cases)
    case (err e)
    then show ?thesis using CountOverlapping_frame by fastforce
  next
    case (val n s1)
    obtain w1 where s1: "s1 = (t, w1)" and f1: "tx_frame w w1" "counters_of w1 = counters_of w"
      and c: "n = 0 \<longrightarrow> (\<forall>k\<in>set (t_blocks t). \<not> overlaps_range (in_listing inp) (in_start inp) (in_end inp) k)"
      using val(1) CountOverlapping_frame by (cases s1) fastforce
    show ?thesis
    proof (cases "0 < n")
      case True
      with val(2) s1 f1 show ?thesis by auto
    next
      case False
      with val(2) have "bind_res (CreateInTx (new_booking inp price) s1) (\<lambda>bookingID s2.
         bind_res (InsertBlock (in_listing inp) bookingID (in_start inp) (in_end inp) ReasonBooked s2) (\<lambda>_ s3.
           (Inr bookingID, s3))) = (r, t', w')" by simp
      then show ?thesis
      proof (cases rule: bind_res_cases)
        case (err e)
        then show ?thesis using CreateInTx_ok f1 tx_frame_trans unfolding s1 by blast
      next
        case (val i s2)
        obtain t2 w2 where s2: "s2 = (t2, w2)" by fastforce
        have f2: "tx_frame w w2"
          and b: "insert_booking (new_booking inp price) (clock w1) t (counters_of w) = (Inr i, t2, counters_of w2)"
          using CreateInTx_ok [OF val(1) [unfolded s1 s2]] f1 tx_frame_trans by (blast, simp)
        from val(2) show ?thesis unfolding s2
        proof (cases rule: bind_res_cases)
          case (err e)
          then show ?thesis using InsertBlock_ok f2 tx_frame_trans by blast
        next
          case (val j s3)
          then have "InsertBlock (in_listing inp) i (in_start inp) (in_end inp) ReasonBooked (t2, w2) = (Inr j, t', w')"
            and r: "r = Inr i" by simp_all
          note ins = InsertBlock_ok [OF this(1)]
          with b c False have "create_step inp price i (t, counters_of w) (t', counters_of w')"
            unfolding create_step_def fst_conv snd_conv by blast
          with ins f2 tx_frame_trans r show ?thesis by auto
        qed
      qed
    qed
  qed
  then show "tx_frame w w'" and "r = Inr i \<Longrightarrow> create_step inp price i (t, counters_of w) (t', counters_of w')"
    by blast+
qed

interpretation create_tx: tx_body "create_body inp price" "create_step inp price" for inp price
  by unfold_locales (use create_body_cases in blast)+

subsection \<open>One step keeps the invariant\<close>

definition booking_row :: "CreateBookingInput \<Rightarrow> int \<Rightarrow> int \<Rightarrow> time \<Rightarrow> booking" where
  "booking_row inp price i now = (new_booking inp price)\<lparr>bk_id := i, bk_start := to_date (in_start inp),
     bk_end := to_date (in_end inp), bk_created := db_now now, bk_updated := db_now now\<rparr>"

definition block_row :: "CreateBookingInput \<Rightarrow> int \<Rightarrow> int \<Rightarrow> time \<Rightarrow> block" where
  "block_row inp i j now = (new_block (in_listing inp) i (in_start inp) (in_end inp) ReasonBooked)
     \<lparr>bl_id := j, bl_start := to_date (in_start inp), bl_end := to_date (in_end inp), bl_created := db_now now\<rparr>"

lemmas row_defs = booking_row_def block_row_def new_booking_def new_block_def

text \<open>What a step appends, and to which tables.\<close>

lemma create_step_rows:
  assumes "create_step inp price i (t, ai) (t', ai')"
  obtains now1 now2 where
    "t' = t\<lparr>t_bookings := t_bookings t @ [booking_row inp price i now1],
            t_blocks := t_blocks t @ [block_row inp i (ai TBlocks) now2]\<rparr>"
    "i = ai TBookings" "ai' = bump TBlocks (bump TBookings ai)"
    "uint_range 32 price" "to_date (in_start inp) \<le> to_date (in_end inp)"
    "in_listing inp \<in> ls_id ` set (t_listings t)" "in_renter inp \<in> us_id ` set (t_users t)"
proof -
  obtain now1 now2 j t1 ai1
    where b: "insert_booking (new_booking inp price) now1 t ai = (Inr i, t1, ai1)"
      and k: "insert_block (new_block (in_listing inp) i (in_start inp) (in_end inp) ReasonBooked) now2 t1 ai1
        = (Inr j, t', ai')"
    using assms by (auto simp: create_step_def)
  have b': "i = ai TBookings" "t1 = t\<lparr>t_bookings := t_bookings t @ [booking_row inp price i now1]\<rparr>"
      "ai1 = bump TBookings ai" "uint_range 32 price" "to_date (in_start inp) \<le> to_date (in_end inp)"
      "in_listing inp \<in> ls_id ` set (t_listings t)" "in_renter inp \<in> us_id ` set (t_users t)"
    using b by (auto simp: insert_booking_def Let_def row_defs split: if_splits)
  have "t' = t1\<lparr>t_blocks := t_blocks t1 @ [block_row inp i (ai1 TBlocks) now2]\<rparr>" "ai' = bump TBlocks ai1"
    using k by (auto simp: insert_block_def Let_def row_defs split: if_splits)
  moreover have "ai1 TBlocks = ai TBlocks" unfolding b'(3) by (simp add: bump_def)
  ultimately have "t' = t\<lparr>t_bookings := t_bookings t @ [booking_row inp price i now1],
            t_blocks := t_blocks t @ [block_row inp i (ai TBlocks) now2]\<rparr>" "ai' = bump TBlocks (bump TBookings ai)"
    unfolding b'(2,3) by simp_all
  then show thesis by (rule that [OF _ b'(1) _ b'(4-7)])
qed

definition aligned :: "CreateBookingInput \<Rightarrow> bool" where
  "aligned inp \<longleftrightarrow> in_start inp mod day_ns = 0 \<and> in_end inp mod day_ns = 0"

lemma create_step_inv [inv_intros]:
  assumes inv: "booking_inv ck (t, ai)" and step: "create_step inp price i (t, ai) (t', ai')"
    and al: "aligned inp"
  shows "booking_inv ck (t', ai')"
proof -
  from step obtain now1 now2 where
    t': "t' = t\<lparr>t_bookings := t_bookings t @ [booking_row inp price i now1],
            t_blocks := t_blocks t @ [block_row inp i (ai TBlocks) now2]\<rparr>"
    and i: "i = ai TBookings" by (rule create_step_rows)
  have wf: "wf_tables ck t' \<and> fresh_ids ai' t'"
    using step inv keeps_tablesD [OF keeps_insert_booking] keeps_tablesD [OF keeps_insert_block]
    unfolding create_step_def booking_inv_def fst_conv snd_conv by meson
  have new: "\<not> overlaps_range (in_listing inp) (in_start inp) (in_end inp) k" if "k \<in> set (t_blocks t)" for k
    using step that by (auto simp: create_step_def)
  have d: "to_date (in_start inp) = in_start inp" "to_date (in_end inp) = in_end inp"
    using al to_date_id by (auto simp: aligned_def)
  define B K where "B = booking_row inp price i now1" and "K = block_row inp i (ai TBlocks) now2"
  have K: "bl_listing K = in_listing inp" "bl_start K = in_start inp" "bl_end K = in_end inp"
      "bl_booking K = Some i" "stay_of_block K = stay_of_booking B"
    by (simp_all add: K_def B_def row_defs d stay_of_booking_def stay_of_block_def)
  have sets: "set (t_bookings t') = insert B (set (t_bookings t))" "set (t_blocks t') = insert K (set (t_blocks t))"
    unfolding t' B_def K_def by simp_all
  have apart: "\<not> DatesOverlap (bl_start K) (bl_end K) (bl_start k) (bl_end k)
      \<and> \<not> DatesOverlap (bl_start k) (bl_end k) (bl_start K) (bl_end K)"
    if "k \<in> set (t_blocks t)" "bl_listing k = bl_listing K" for k
    using new [OF that(1)] that(2) by (auto simp: K DatesOverlap_def overlaps_range_def)
  have "disjoint_blocks t" "paired t" using inv by (simp_all add: booking_inv_def)
  then have dis: "disjoint_blocks t'"
    unfolding disjoint_blocks_def sets using apart by auto
  have nb: "i \<notin> bk_id ` set (t_bookings t)"
    using inv i by (auto simp: booking_inv_def fresh_ids_def)
  then have nk: "bl_booking k \<noteq> Some i" if "k \<in> set (t_blocks t)" for k
    using inv that by (auto simp: booking_inv_def wf_tables_def rows_ok_def block_ok_def)
  have "{k \<in> set (t_blocks t'). bl_booking k \<noteq> None} = insert K {k \<in> set (t_blocks t). bl_booking k \<noteq> None}"
    unfolding sets by (auto simp: K)
  then have "stay_of_booking ` set (t_bookings t') = stay_of_block ` {k \<in> set (t_blocks t'). bl_booking k \<noteq> None}"
    using \<open>paired t\<close> unfolding paired_def sets(1) by (simp only: image_insert set_filter K(5))
  moreover have "bl_id k = bl_id k'"
    if "k \<in> set (t_blocks t')" "k' \<in> set (t_blocks t')" "bl_booking k = bl_booking k'" "bl_booking k \<noteq> None" for k k'
  proof (cases "k = K \<or> k' = K")
    case True
    then have "k = k'" using that nk K(4) unfolding sets by (metis insertE)
    then show ?thesis by simp
  next
    case False
    then show ?thesis using that \<open>paired t\<close> unfolding paired_def sets by blast
  qed
  ultimately have "paired t'" unfolding paired_def set_filter by blast
  with wf dis show ?thesis by (simp add: booking_inv_def)
qed

subsection \<open>CreateAtomic and CreateBooking\<close>

lemma GetByID_same:
  "GetByID i w = (r, w') \<Longrightarrow> same_env w w' \<and> same_db w w'"
  using sql_get_same [of "booking_by_id i" w] unfolding GetByID_def
  by (cases "sql_get (booking_by_id i) w"; cases "fst (sql_get (booking_by_id i) w)"; auto)

lemma GetByID_ok:
  assumes "GetByID i w = (Inr b, w')"
  shows "booking_by_id i (reader w) = Some b"
  using assms sql_get_ok [of "booking_by_id i" w b w'] by (simp add: GetByID_def)

lemma GetByID_works:
  "faults w = [] \<Longrightarrow> GetByID i w =
     ((case booking_by_id i (reader w) of None \<Rightarrow> Inl ErrNotFound | Some b \<Rightarrow> Inr b),
      w\<lparr>queries := Suc (queries w)\<rparr>)"
  by (simp add: GetByID_def or_no_rows_def not_found_or_def ErrNoRows_def split: option.splits)

text \<open>The price of a stay at the listing the reader sees.\<close>

definition price_of :: "CreateBookingInput \<Rightarrow> tables \<Rightarrow> int option" where
  "price_of inp t = (case listing_by_id (in_listing inp) t of None \<Rightarrow> None
     | Some l \<Rightarrow> (case CalculateTotalPriceCents (in_start inp) (in_end inp) (ls_price l) of
         Inl e \<Rightarrow> None | Inr p \<Rightarrow> Some p))"

definition booked :: "CreateBookingInput \<Rightarrow> int \<Rightarrow> world \<Rightarrow> world \<Rightarrow> bool" where
  "booked inp i w w' \<longleftrightarrow> (\<exists>price ai. price_of inp (reader w) = Some price \<and> counters_of w \<le> ai
     \<and> create_step inp price i (primary w, ai) (db_of w'))"

lemma CreateAtomic_cases:
  assumes "CreateAtomic inp w = (r, w')"
  shows "same_env w w'"
    and "primary w' = primary w \<and> counters_of w \<le> counters_of w' \<or> (\<exists>i. booked inp i w w')"
    and "r = Inr b \<Longrightarrow> \<exists>i. booked inp i w w' \<and> booking_by_id i (reader w') = Some b"
proof -
  have "same_env w w' \<and> (primary w' = primary w \<and> counters_of w \<le> counters_of w' \<or> (\<exists>i. booked inp i w w'))
     \<and> (\<forall>b. r = Inr b \<longrightarrow> (\<exists>i. booked inp i w w' \<and> booking_by_id i (reader w') = Some b))"
    using assms unfolding CreateAtomic_def
  proof (cases rule: bind_res_cases)
    case (err e)
    then obtain r0 where "listing_GetByID (in_listing inp) w = (r0, w')" by (auto elim: map_err_cases)
    with err show ?thesis using listing_GetByID_same by (fastforce simp: same_db_def)
  next
    case (val l w1)
    then have g: "listing_GetByID (in_listing inp) w = (Inr l, w1)" by simp
    then have l: "listing_by_id (in_listing inp) (reader w) = Some l" by (rule listing_GetByID_ok)
    have s1: "same_env w w1" "primary w1 = primary w" "counters_of w1 = counters_of w"
      using listing_GetByID_same [OF g] by (simp_all add: same_db_def)
    show ?thesis
    proof (cases "CalculateTotalPriceCents (in_start inp) (in_end inp) (ls_price l)")
      case (Inl e)
      with val(2) s1 show ?thesis by auto
    next
      case (Inr price)
      then have p: "price_of inp (reader w) = Some price" by (simp add: price_of_def l)
      have comm: "booked inp i w w2" if "create_tx.committed inp price i w1 w2" for i w2
        using that p s1 unfolding booked_def create_tx.committed_def by auto
      from val(2) Inr have "bind_res (WithinTransaction (create_body inp price) w1) GetByID = (r, w')" by simp
      then show ?thesis
      proof (cases rule: bind_res_cases)
        case (err e)
        then show ?thesis
          using create_tx.transaction_err [OF err(1)] create_tx.transaction_frame [OF err(1)] s1 same_env_trans
          by (auto simp: create_tx.unchanged_def dest: comm)
      next
        case (val i w2)
        have b: "booked inp i w w2" using create_tx.transaction_ok [OF val(1)] comm by blast
        have same: "same_env w2 w'" "same_db w2 w'" using GetByID_same [OF val(2)] by blast+
        then have "booked inp i w w'" using b by (simp add: booked_def db_of_def same_db_def)
        moreover have "same_env w w'"
          using create_tx.transaction_frame [OF val(1)] s1(1) same(1) same_env_trans by blast
        ultimately show ?thesis using GetByID_ok [of i w2 _ w'] val(2) reader_same [OF same] by auto
      qed
    qed
  qed
  then show "same_env w w'"
    and "primary w' = primary w \<and> counters_of w \<le> counters_of w' \<or> (\<exists>i. booked inp i w w')"
    and "r = Inr b \<Longrightarrow> \<exists>i. booked inp i w w' \<and> booking_by_id i (reader w') = Some b" by blast+
qed

text \<open>What the service adds after the transaction touches neither the servers nor the settings.\<close>

definition same_servers :: "world \<Rightarrow> world \<Rightarrow> bool" where
  "same_servers w w' \<longleftrightarrow> db_of w' = db_of w \<and> replica w' = replica w \<and> email_key w' = email_key w
     \<and> row_rank w' = row_rank w \<and> clock w' = clock w"

lemma same_servers_trans: "same_servers a b \<Longrightarrow> same_servers b c \<Longrightarrow> same_servers a c"
  by (simp add: same_servers_def)

lemma side_effects_same [simp]:
  "same_servers w (invalidateListingCache s l w)" "same_servers w (snd (publishEvent p e w))"
  "same_servers w (queueEmail s i r t w)" "same_servers w (snd (io_effect x w))" "same_servers w w"
  by (simp_all add: same_servers_def db_of_def invalidateListingCache_def publishEvent_def queueEmail_def
      io_effect_same)

lemma CreateBooking_atomic:
  assumes "CreateBooking s l r st e w = (res, w')"
  obtains w1 where "CreateAtomic \<lparr>in_listing = l, in_renter = r, in_start = st, in_end = e\<rparr> w = (res, w1)"
    and "same_servers w1 w'"
  using assms unfolding CreateBooking_def
proof (cases rule: bind_res_cases)
  case (err x)
  then show thesis using that by simp
next
  case (val b w1)
  let ?w2 = "invalidateListingCache s (bk_listing b) w1"
  have "res = Inr b" "w' = snd (publishEvent (sv_publisher s) (booking_event EventBookingCreated b (clock ?w2)) ?w2)"
    using val(2) by (simp_all add: Let_def)
  moreover have "same_servers w1 ?w2" by simp
  ultimately have "same_servers w1 w'" using same_servers_trans side_effects_same(2) by blast
  with val(1) \<open>res = Inr b\<close> show thesis using that by blast
qed

end
