(* ===== verification/Samples.thy ===== *)
theory Samples
  imports BookingInv
begin

text \<open>
  Concrete worlds on which the properties are applied: two users, one listing of the second and
  one booking of the first, three days long, with its block.
\<close>

definition sample_user :: "int \<Rightarrow> string \<Rightarrow> string \<Rightarrow> user" where
  "sample_user i email role = \<lparr>us_id = i, us_email = email, us_hash = ''h'', us_algo = ''bcrypt'',
     us_name = ''n'', us_role = role, us_created = 0, us_updated = 0\<rparr>"

definition sample_listing :: listing where
  "sample_listing = \<lparr>ls_id = 1, ls_owner = 2, ls_category = 1, ls_title = ''Tent'', ls_desc = '''',
     ls_price = 1500, ls_deposit = 0, ls_status = StatusActive, ls_created = 0, ls_updated = 0\<rparr>"

definition sample_booking :: "bstatus \<Rightarrow> booking" where
  "sample_booking s = \<lparr>bk_id = 1, bk_listing = 1, bk_renter = 1, bk_start = 20000 * day_ns,
     bk_end = 20002 * day_ns, bk_status = s, bk_total = 4500, bk_created = 0, bk_updated = 0\<rparr>"

definition sample_block :: block where
  "sample_block = \<lparr>bl_id = 1, bl_listing = 1, bl_booking = Some 1, bl_start = 20000 * day_ns,
     bl_end = 20002 * day_ns, bl_reason = ReasonBooked, bl_created = 0\<rparr>"

definition sample_tables :: "bstatus \<Rightarrow> tables" where
  "sample_tables s = \<lparr>t_users = [sample_user 1 ''r@x'' ''renter'', sample_user 2 ''o@x'' ''owner''],
     t_oauth = [], t_apikeys = [], t_categories = [\<lparr>ca_id = 1, ca_name = ''Camping'', ca_slug = ''camping''\<rparr>],
     t_listings = [sample_listing], t_bookings = [sample_booking s], t_blocks = [sample_block], t_reviews = []\<rparr>"

definition world_of :: "tables \<Rightarrow> tables option \<Rightarrow> fault list \<Rightarrow> world" where
  "world_of t rep fs = \<lparr>primary = t, replica = rep, counters_of = (\<lambda>_. 3), faults = fs, clock = 19990 * day_ns,
     jitter = [], queries = 0, retries = 0, effects = [], redis = (\<lambda>_. None), email_key = id, row_rank = id\<rparr>"

definition sample_world :: world where
  "sample_world = world_of (sample_tables Requested) None []"

definition all_wired :: service where
  "all_wired = \<lparr>sv_publisher = True, sv_cache = True, sv_notifier = True, sv_sync = True\<rparr>"

lemmas sample_rows = sample_user_def sample_listing_def sample_booking_def sample_block_def
lemmas sample_defs = sample_rows sample_tables_def world_of_def sample_world_def all_wired_def

lemma sample_tables_inv: "booking_inv id (sample_tables s, \<lambda>_. 3)"
  unfolding booking_inv_def wf_defs row_ok_defs disjoint_blocks_def paired_def sample_tables_def
  by (simp add: sample_rows day_ns_def uint_range_def user_ok_def stay_of_booking_def stay_of_block_def)

lemma sample_inv: "world_inv sample_world"
  using sample_tables_inv by (simp add: world_inv_def db_of_def sample_world_def world_of_def)

end
