(* ===== verification/BookingSpec.thy ===== *)
theory BookingSpec
  imports Samples
begin

text \<open>
  What the booking component promises: the calendar of a listing as the abstract state and
  \<open>reserve\<close> as the abstract operation, the refinement of \<open>CreateBooking\<close> to it, when a booking
  succeeds, how a status may change, and which effects a transition has.
\<close>

subsection \<open>Prices and overlaps\<close>

text \<open>C14 (bounds): for dates at midnight and a price the column can hold, the price of a stay is
  its number of inclusive days (at most 106752, where \<open>time.Sub\<close> saturates) times the daily
  price; neither the day count nor the 64-bit product wraps around.\<close>

theorem price_exact:
  assumes "start \<le> finish" and "start mod day_ns = 0" and "finish mod day_ns = 0" and "uint_range 32 price"
  shows "CalculateTotalPriceCents start finish price
           = Inr ((min ((finish - start) div day_ns) 106751 + 1) * price)"
proof -
  define n where "n = min ((finish - start) div day_ns) 106751 + 1"
  have "0 \<le> (finish - start) div day_ns"
    using assms(1) by (simp add: day_ns_def pos_imp_zdiv_nonneg_iff)
  then have n: "1 \<le> n" "n \<le> 106752" by (simp_all add: n_def)
  have p: "0 \<le> price" "price \<le> 4294967296" using assms(4) by (simp_all add: uint_range_def)
  have "n * price \<le> 106752 * 4294967296" using n p by (intro mult_mono) simp_all
  moreover have "0 \<le> n * price" using n p by simp
  ultimately have "wrap64 (n * price) = n * price" by (intro wrap64_id) (simp add: int64_defs)
  then show ?thesis
    using assms(1) nights_aligned [OF assms(1-3)]
    unfolding CalculateTotalPriceCents_def n_def by simp
qed

theorem price_exact_witness:
  "CalculateTotalPriceCents (20000 * day_ns) (20002 * day_ns) 1500 = Inr 4500"
  using price_exact [of "20000 * day_ns" "20002 * day_ns" 1500]
  by (simp add: day_ns_def uint_range_def)

text \<open>The pure predicate \<open>DatesOverlap\<close> is symmetric, holds for two stays
  exactly when some instant lies in both, and is the predicate of the SQL overlap count.\<close>

theorem overlap_predicates_agree:
  "DatesOverlap a b c d = DatesOverlap c d a b
   \<and> (DatesOverlap a (a + int m) c (c + int n) \<longleftrightarrow> (\<exists>x. a \<le> x \<and> x \<le> a + int m \<and> c \<le> x \<and> x \<le> c + int n))
   \<and> (overlaps_range l s e k \<longleftrightarrow> bl_listing k = l \<and> DatesOverlap s e (bl_start k) (bl_end k))"
proof (intro conjI)
  show "DatesOverlap a (a + int m) c (c + int n) \<longleftrightarrow> (\<exists>x. a \<le> x \<and> x \<le> a + int m \<and> c \<le> x \<and> x \<le> c + int n)"
    unfolding DatesOverlap_def by (rule iffI [OF exI [of _ "max a c"]]) auto
qed (auto simp: DatesOverlap_def overlaps_range_def)

subsection \<open>The lifecycle\<close>

text \<open>The lifecycle has no cycle, its final states are exactly rejected,
  completed, cancelled and disputed, and a booking in a final state never changes again.\<close>

theorem lifecycle:
  "(evolves a b \<and> evolves b a \<longleftrightarrow> a = b)
   \<and> (terminal s \<longleftrightarrow> s \<in> {Rejected, Completed, Cancelled, Disputed})
   \<and> (evolves s s' \<and> terminal s \<longleftrightarrow> s' = s \<and> terminal s)"
proof (intro conjI)
  show "evolves a b \<and> evolves b a \<longleftrightarrow> a = b"
    using evolves_increases [of a b] evolves_increases [of b a] evolves.stay by auto
  show "terminal s \<longleftrightarrow> s \<in> {Rejected, Completed, Cancelled, Disputed}"
    by (cases s) (simp_all add: terminal_def)
  show "evolves s s' \<and> terminal s \<longleftrightarrow> s' = s \<and> terminal s"
    using evolves_terminal [of s s'] evolves.stay by auto
qed

subsection \<open>No double booking\<close>

lemma create_step_booked_inv:
  assumes "world_inv w" and "aligned inp" and "booked inp i w w'" and "email_key w' = email_key w"
  shows "world_inv w'"
proof -
  obtain price ai where "counters_of w \<le> ai" "create_step inp price i (primary w, ai) (db_of w')"
    using assms(3) by (auto simp: booked_def)
  moreover have "booking_inv (email_key w) (primary w, counters_of w)"
    using assms(1) by (simp add: world_inv_def db_of_def)
  ultimately show ?thesis
    using create_step_inv assms(2,4) booking_inv_counters unfolding world_inv_def db_of_def by metis
qed

lemma CreateAtomic_inv:
  assumes "world_inv w" and "aligned inp" and "CreateAtomic inp w = (res, w')"
  shows "world_inv w'"
proof -
  have env: "email_key w' = email_key w" using CreateAtomic_cases(1) [OF assms(3)] by (simp add: same_env_def)
  from CreateAtomic_cases(2) [OF assms(3)] show ?thesis
  proof (elim disjE exE)
    assume "primary w' = primary w \<and> counters_of w \<le> counters_of w'"
    then show ?thesis using assms(1) env booking_inv_counters by (auto simp: world_inv_def db_of_def)
  next
    fix i assume "booked inp i w w'"
    then show ?thesis using create_step_booked_inv assms(1,2) env by blast
  qed
qed

lemma same_servers_inv: "same_servers w w' \<Longrightarrow> world_inv w \<Longrightarrow> world_inv w'"
  by (simp add: same_servers_def world_inv_def)

text \<open>C2 (safety): whatever fails on the way (statements, begin, commit with or without effect,
  cache, broker), creating a booking keeps the tables well-formed, the blocks of every listing
  pairwise disjoint and bookings and blocks in one-to-one correspondence: no double booking, no
  booking without its block, no block without its booking.\<close>

theorem no_double_booking:
  assumes "world_inv w" and "start mod day_ns = 0" and "finish mod day_ns = 0"
    and "CreateBooking s l r start finish w = (res, w')"
  shows "world_inv w'"
proof -
  obtain w1 where a: "CreateAtomic \<lparr>in_listing = l, in_renter = r, in_start = start, in_end = finish\<rparr> w = (res, w1)"
    and same: "same_servers w1 w'" by (rule CreateBooking_atomic [OF assms(4)])
  have "world_inv w1" by (rule CreateAtomic_inv [OF assms(1) _ a]) (simp add: aligned_def assms(2,3))
  with same show ?thesis by (rule same_servers_inv)
qed

theorem no_double_booking_witness:
  "world_inv (snd (CreateBooking all_wired 1 1 (20001 * day_ns) (20001 * day_ns) sample_world))"
  by (rule no_double_booking [OF sample_inv _ _ surjective_pairing]) (simp_all add: day_ns_def)

subsection \<open>The calendar\<close>

text \<open>The abstract state of a listing is the list of its reserved stays.\<close>

definition calendar :: "int \<Rightarrow> tables \<Rightarrow> (time \<times> time) list" where
  "calendar l t = map (\<lambda>k. (bl_start k, bl_end k)) (filter (\<lambda>k. bl_listing k = l) (t_blocks t))"

definition reserve :: "time \<Rightarrow> time \<Rightarrow> (time \<times> time) list \<Rightarrow> (time \<times> time) list option" where
  "reserve s e cal = (if \<exists>(s', e')\<in>set cal. DatesOverlap s e s' e' then None else Some (cal @ [(s, e)]))"

lemma reserve_None: "reserve s e (calendar l t) = None \<longleftrightarrow> (\<exists>k\<in>set (t_blocks t). overlaps_range l s e k)"
  by (auto simp: reserve_def calendar_def overlaps_range_def DatesOverlap_def not_less split: if_splits)

lemma booked_calendar:
  assumes "aligned inp" and "booked inp i w w'"
  shows "reserve (in_start inp) (in_end inp) (calendar (in_listing inp) (primary w))
      = Some (calendar (in_listing inp) (primary w'))"
    and "l \<noteq> in_listing inp \<Longrightarrow> calendar l (primary w') = calendar l (primary w)"
proof -
  obtain price ai where st: "create_step inp price i (primary w, ai) (primary w', counters_of w')"
    using assms(2) by (auto simp: booked_def db_of_def)
  have d: "to_date (in_start inp) = in_start inp" "to_date (in_end inp) = in_end inp"
    using assms(1) to_date_id by (auto simp: aligned_def)
  have "reserve (in_start inp) (in_end inp) (calendar (in_listing inp) (primary w)) \<noteq> None"
    unfolding reserve_None using st by (auto simp: create_step_def)
  moreover from st obtain now1 now2 where
    t': "primary w' = (primary w)\<lparr>t_bookings := t_bookings (primary w) @ [booking_row inp price i now1],
            t_blocks := t_blocks (primary w) @ [block_row inp i (ai TBlocks) now2]\<rparr>"
    by (rule create_step_rows)
  ultimately show "reserve (in_start inp) (in_end inp) (calendar (in_listing inp) (primary w))
      = Some (calendar (in_listing inp) (primary w'))"
    by (auto simp: reserve_def t' calendar_def row_defs d split: if_splits)
  show "l \<noteq> in_listing inp \<Longrightarrow> calendar l (primary w') = calendar l (primary w)"
    by (simp add: t' calendar_def row_defs)
qed

text \<open>C3 (refinement): on the calendars of the listings, a booking that is reported as created
  is the abstract \<open>reserve\<close> of its dates and leaves all other listings alone; one that is
  reported as failed either changed nothing or, when the reply of the commit or the re-read was
  lost, is the same \<open>reserve\<close>.\<close>

theorem booking_refines_reserve:
  assumes "start mod day_ns = 0" and "finish mod day_ns = 0"
    and "CreateBooking s l r start finish w = (res, w')"
  shows "(reserve start finish (calendar l (primary w)) = Some (calendar l (primary w'))
           \<or> \<not> is_ok res \<and> calendar l (primary w') = calendar l (primary w))
         \<and> (\<forall>l'. l' \<noteq> l \<longrightarrow> calendar l' (primary w') = calendar l' (primary w))"
proof (intro conjI allI impI)
  define inp where "inp = \<lparr>in_listing = l, in_renter = r, in_start = start, in_end = finish\<rparr>"
  have inp: "in_listing inp = l" "in_start inp = start" "in_end inp = finish" "aligned inp"
    using assms(1,2) by (simp_all add: inp_def aligned_def)
  obtain w1 where a: "CreateAtomic inp w = (res, w1)" and same: "same_servers w1 w'"
    using CreateBooking_atomic [OF assms(3)] unfolding inp_def by blast
  have p: "primary w' = primary w1" using same by (simp add: same_servers_def db_of_def)
  note res = CreateAtomic_cases(2,3) [OF a]
  show "reserve start finish (calendar l (primary w)) = Some (calendar l (primary w'))
           \<or> \<not> is_ok res \<and> calendar l (primary w') = calendar l (primary w)"
    using res booked_calendar(1) [OF inp(4), of _ w w1] unfolding p inp(1-3)
    by (cases res) auto
  show "calendar l' (primary w') = calendar l' (primary w)" if "l' \<noteq> l" for l'
    using res(1) booked_calendar(2) [OF inp(4), of _ w w1] that unfolding p inp(1-3) by auto
qed

theorem booking_refines_reserve_witness:
  "let (res, w') = CreateBooking all_wired 1 1 (20010 * day_ns) (20011 * day_ns) sample_world
   in calendar 2 (primary w') = calendar 2 (primary sample_world)"
  using booking_refines_reserve [of "20010 * day_ns" "20011 * day_ns" all_wired 1 1 sample_world]
  by (auto simp: day_ns_def)

end
