(* ===== verification/BookingLife.thy ===== *)
theory BookingLife
  imports Samples
begin

text \<open>
  When a booking succeeds, how a status changes, and the effects of a transition: the success
  condition of \<open>CreateBooking\<close>, the legality of \<open>UpdateStatus\<close>, the history of a booking, the
  events and messages a transition leaves behind, and what a lagging replica breaks.
\<close>

subsection \<open>Success\<close>

definition bookable :: "CreateBookingInput \<Rightarrow> int \<Rightarrow> tables \<Rightarrow> bool" where
  "bookable inp price t \<longleftrightarrow> (\<forall>k\<in>set (t_blocks t). \<not> overlaps_range (in_listing inp) (in_start inp) (in_end inp) k)
     \<and> uint_range 64 (in_listing inp) \<and> uint_range 64 (in_renter inp) \<and> uint_range 32 price
     \<and> to_date (in_start inp) \<le> to_date (in_end inp)
     \<and> in_listing inp \<in> ls_id ` set (t_listings t) \<and> in_renter inp \<in> us_id ` set (t_users t)"

lemma not_retryable [simp]:
  "\<not> isRetryable ErrListingUnavailable" "\<not> isRetryable (Wrapped m err_range)"
  "\<not> isRetryable (Wrapped m err_check)" "\<not> isRetryable (Wrapped m err_fk)"
  by (simp_all add: isRetryable_def ErrListingUnavailable_def err_range_def err_check_def err_fk_def
      mysqlErrLockDeadlock_def mysqlErrLockWaitTimeout_def)

lemma create_body_works:
  assumes "faults w = []"
  shows "\<exists>r t' w'. create_body inp price (t, w) = (r, t', w') \<and> faults w' = []
    \<and> (if bookable inp price t then is_ok r else \<exists>e. r = Inl e \<and> \<not> isRetryable e)
    \<and> ((\<exists>k\<in>set (t_blocks t). overlaps_range (in_listing inp) (in_start inp) (in_end inp) k)
        \<longrightarrow> r = Inl ErrListingUnavailable)"
proof (cases "\<forall>k\<in>set (t_blocks t). \<not> overlaps_range (in_listing inp) (in_start inp) (in_end inp) k")
  case False
  then have n: "0 < length (filter (overlaps_range (in_listing inp) (in_start inp) (in_end inp)) (t_blocks t))"
    using count_overlapping_zero by (metis neq0_conv)
  from assms n False show ?thesis
    unfolding create_body_def CountOverlapping_def by (simp add: bookable_def)
next
  case True
  then have n: "length (filter (overlaps_range (in_listing inp) (in_start inp) (in_end inp)) (t_blocks t)) = 0"
    using count_overlapping_zero by blast
  define w1 where "w1 = w\<lparr>queries := Suc (queries w)\<rparr>"
  have w1: "faults w1 = []" using assms by (simp add: w1_def)
  have c: "CountOverlapping (in_listing inp) (in_start inp) (in_end inp) (t, w) = (Inr 0, t, w1)"
    unfolding CountOverlapping_def using assms n by (simp add: w1_def)
  obtain r1 t1 ai1 where b: "insert_booking (new_booking inp price) (clock w1) t (counters_of w1) = (r1, t1, ai1)"
    by (metis prod_cases3)
  define w2 where "w2 = w1\<lparr>queries := Suc (queries w1), counters_of := ai1\<rparr>"
  have w2: "faults w2 = []" using w1 by (simp add: w2_def)
  have bt: "CreateInTx (new_booking inp price) (t, w1)
      = (case r1 of Inl e \<Rightarrow> Inl (Wrapped ''booking: create in tx'' e) | Inr i \<Rightarrow> Inr i, t1, w2)"
    unfolding CreateInTx_def using w1 b by (cases r1) (simp_all add: w2_def)
  show ?thesis
  proof (cases r1)
    case (Inl e)
    then have "\<not> bookable inp price t \<and> \<not> isRetryable (Wrapped ''booking: create in tx'' e)"
      using b by (auto simp: insert_booking_def Let_def new_booking_def bookable_def split: if_splits)
    then show ?thesis using c bt Inl w2 True by (simp add: create_body_def)
  next
    case (Inr i)
    then have ok: "bookable inp price t" and t1: "in_listing inp \<in> ls_id ` set (t_listings t1)"
        "i \<in> bk_id ` set (t_bookings t1)" "uint_range 64 (in_listing inp)"
      using b True by (auto simp: insert_booking_def Let_def new_booking_def bookable_def split: if_splits)
    obtain j t2 ai2 where k: "insert_block (new_block (in_listing inp) i (in_start inp) (in_end inp) ReasonBooked)
        (clock w2) t1 (counters_of w2) = (Inr j, t2, ai2)"
      using t1 by (simp add: insert_block_def new_block_def Let_def)
    have "InsertBlock (in_listing inp) i (in_start inp) (in_end inp) ReasonBooked (t1, w2)
        = (Inr j, t2, w2\<lparr>queries := Suc (queries w2), counters_of := ai2\<rparr>)"
      unfolding InsertBlock_def using w2 k by simp
    then show ?thesis using c bt Inr w2 True ok by (simp add: create_body_def)
  qed
qed

lemma transaction_works:
  assumes "faults w = []"
  shows "\<exists>r w'. WithinTransaction (create_body inp price) w = (r, w') \<and> faults w' = []
    \<and> (is_ok r \<longleftrightarrow> bookable inp price (primary w))
    \<and> ((\<exists>k\<in>set (t_blocks (primary w)). overlaps_range (in_listing inp) (in_start inp) (in_end inp) k)
        \<longrightarrow> r = Inl ErrListingUnavailable)"
proof -
  obtain r t' w1 where b: "create_body inp price (primary w, w) = (r, t', w1)" "faults w1 = []"
    "if bookable inp price (primary w) then is_ok r else \<exists>e. r = Inl e \<and> \<not> isRetryable e"
    "(\<exists>k\<in>set (t_blocks (primary w)). overlaps_range (in_listing inp) (in_start inp) (in_end inp) k)
        \<longrightarrow> r = Inl ErrListingUnavailable"
    using create_body_works [OF assms, of inp price "primary w"] by blast
  have t: "WithinTransaction fn w = tx_loop (Suc 2) 0 (Sentinel '''') fn w" for fn :: "int txop"
    by (simp add: WithinTransaction_def maxTxRetries_def numeral_3_eq_3 numeral_2_eq_2)
  show ?thesis
  proof (cases r)
    case (Inl e)
    with b have "\<not> isRetryable e" "\<not> bookable inp price (primary w)" by (auto split: if_splits)
    with b(1,2,4) Inl assms show ?thesis
      unfolding t tx_loop.simps by (simp add: attemptTx_def io_ok backoff_def)
  next
    case (Inr x)
    with b have "bookable inp price (primary w)" by (auto split: if_splits)
    with b(1,2,4) Inr assms show ?thesis
      unfolding t tx_loop.simps by (simp add: attemptTx_def io_ok backoff_def)
  qed
qed

text \<open>The new booking is found under the identifier the insert returned.\<close>

lemma booked_found:
  assumes "world_inv w" and "booked inp i w w'"
  obtains price now where "price_of inp (reader w) = Some price"
    "booking_by_id i (primary w') = Some (booking_row inp price i now)"
proof -
  obtain price ai where st: "counters_of w \<le> ai" "create_step inp price i (primary w, ai) (primary w', counters_of w')"
    and p: "price_of inp (reader w) = Some price"
    using assms(2) by (auto simp: booked_def db_of_def)
  then obtain now1 now2 where
    t': "primary w' = (primary w)\<lparr>t_bookings := t_bookings (primary w) @ [booking_row inp price i now1],
            t_blocks := t_blocks (primary w) @ [block_row inp i (ai TBlocks) now2]\<rparr>"
    and i: "i = ai TBookings" by (auto elim: create_step_rows)
  have "fresh_ids ai (primary w)"
    using assms(1) st(1) fresh_mono by (auto simp: world_inv_def booking_inv_def db_of_def)
  then have "i \<notin> bk_id ` set (t_bookings (primary w))" by (auto simp: fresh_ids_def i)
  then have "find (\<lambda>b. bk_id b = i) (t_bookings (primary w)) = None"
    using find_None_iff_key [of bk_id] by blast
  then show thesis
    by (intro that [OF p, of now1]) (simp add: booking_by_id_def t' find_append row_defs)
qed

lemma CreateAtomic_works:
  assumes "world_inv w" and "faults w = []" and "replica w = None"
  shows "\<exists>r w'. CreateAtomic inp w = (r, w') \<and> faults w' = []
    \<and> (is_ok r \<longleftrightarrow> (\<exists>p. price_of inp (primary w) = Some p \<and> bookable inp p (primary w)))
    \<and> ((\<exists>k\<in>set (t_blocks (primary w)). overlaps_range (in_listing inp) (in_start inp) (in_end inp) k)
        \<and> price_of inp (primary w) \<noteq> None \<longrightarrow> r = Inl ErrListingUnavailable)"
proof -
  define w1 where "w1 = w\<lparr>queries := Suc (queries w)\<rparr>"
  have rd: "reader w = primary w" using assms(3) by (simp add: reader_def)
  have w1: "faults w1 = []" "primary w1 = primary w" "replica w1 = None" "world_inv w1"
    using assms by (simp_all add: w1_def world_inv_def db_of_def)
  have g: "listing_GetByID (in_listing inp) w
      = (case listing_by_id (in_listing inp) (primary w) of None \<Rightarrow> Inl listing_ErrNotFound | Some l \<Rightarrow> Inr l, w1)"
    using listing_GetByID_works [OF assms(2)] rd by (simp add: w1_def)
  show ?thesis
  proof (cases "price_of inp (primary w)")
    case None
    then show ?thesis
      using g w1(1) by (auto simp: CreateAtomic_def price_of_def split: option.splits sum.splits)
  next
    case (Some p)
    then have c: "CreateAtomic inp w = bind_res (WithinTransaction (create_body inp p) w1) GetByID"
      using g by (auto simp: CreateAtomic_def price_of_def split: option.splits sum.splits)
    obtain r w2 where t: "WithinTransaction (create_body inp p) w1 = (r, w2)" "faults w2 = []"
        "is_ok r \<longleftrightarrow> bookable inp p (primary w)"
        "(\<exists>k\<in>set (t_blocks (primary w)). overlaps_range (in_listing inp) (in_start inp) (in_end inp) k)
          \<longrightarrow> r = Inl ErrListingUnavailable"
      using transaction_works [OF w1(1), of inp p] unfolding w1(2) by blast
    show ?thesis
    proof (cases r)
      case (Inl e)
      with t c Some show ?thesis by auto
    next
      case (Inr i)
      have "create_tx.committed inp p i w1 w2" using create_tx.transaction_ok t(1) Inr by blast
      then have "booked inp i w1 w2"
        using Some w1(2,3) by (auto simp: booked_def create_tx.committed_def reader_def)
      then obtain b where b: "booking_by_id i (primary w2) = Some b" using booked_found [OF w1(4)] by metis
      have "replica w2 = None"
        using create_tx.transaction_frame [OF t(1)] w1(3) by (simp add: same_env_def)
      then have "GetByID i w2 = (Inr b, w2\<lparr>queries := Suc (queries w2)\<rparr>)"
        using GetByID_works [OF t(2)] b by (simp add: reader_def)
      with t c Inr Some show ?thesis by auto
    qed
  qed
qed



subsection \<open>Status changes\<close>

text \<open>One legal change of the status of booking \<open>i\<close>, or no change.\<close>

definition status_step :: "int \<Rightarrow> bstatus \<Rightarrow> world \<Rightarrow> world \<Rightarrow> bool" where
  "status_step i new w w' \<longleftrightarrow> primary w' = primary w
     \<or> (\<exists>b. booking_by_id i (primary w) = Some b \<and> CanTransition (bk_status b) new
          \<and> primary w' = (primary w)\<lparr>t_bookings := map (update_row i new (clock w)) (t_bookings (primary w))\<rparr>)"

lemma UpdateStatus_cases:
  assumes "UpdateStatus i new w = (r, w')"
  shows "same_env w w' \<and> counters_of w' = counters_of w \<and> clock w' = clock w"
    and "\<not> is_ok r \<longrightarrow> primary w' = primary w \<or> (\<exists>b. booking_by_id i (reader w) = Some b \<and> CanTransition (bk_status b) new
       \<and> primary w' = (primary w)\<lparr>t_bookings := map (update_row i new (clock w)) (t_bookings (primary w))\<rparr>)"
    and "is_ok r \<longrightarrow> (\<exists>b. booking_by_id i (reader w) = Some b \<and> CanTransition (bk_status b) new)
       \<and> primary w' = (primary w)\<lparr>t_bookings := map (update_row i new (clock w)) (t_bookings (primary w))\<rparr>"
proof -
  define upd where "upd = (primary w)\<lparr>t_bookings := map (update_row i new (clock w)) (t_bookings (primary w))\<rparr>"
  have "(same_env w w' \<and> counters_of w' = counters_of w \<and> clock w' = clock w)
    \<and> (\<not> is_ok r \<longrightarrow> primary w' = primary w \<or> (\<exists>b. booking_by_id i (reader w) = Some b \<and> CanTransition (bk_status b) new
       \<and> primary w' = upd))
    \<and> (is_ok r \<longrightarrow> (\<exists>b. booking_by_id i (reader w) = Some b \<and> CanTransition (bk_status b) new) \<and> primary w' = upd)"
    using assms unfolding UpdateStatus_def
  proof (cases rule: bind_res_cases)
    case (err e)
    then show ?thesis using GetByID_same [OF err(1)] by (simp add: same_db_def)
  next
    case (val b w1)
    have same: "same_env w w1" "same_db w w1" using GetByID_same [OF val(1)] by blast+
    have b: "booking_by_id i (reader w) = Some b" using GetByID_ok [OF val(1)] .
    show ?thesis
    proof (cases "CanTransition (bk_status b) new")
      case False
      with val(2) same show ?thesis by (auto simp: same_db_def)
    next
      case True
      with val(2) have "map_err (Wrapped ''booking: update status'') (sql_exec (update_booking_status i new) w1) = (r, w')"
        by simp
      then obtain r0 where e: "sql_exec (update_booking_status i new) w1 = (r0, w')"
        and r: "\<And>x. r = Inr x \<longleftrightarrow> r0 = Inr x" by (rule map_err_cases) (rule that; simp)
      have ok: "is_ok r \<longleftrightarrow> is_ok r0" using r by (cases r; cases r0) auto
      from e show ?thesis
      proof (cases rule: sql_exec_cases)
        case (unchanged x)
        then show ?thesis using same ok same_env_trans by (auto simp: same_db_def)
      next
        case (ran r' t' ai')
        then have "primary w' = upd" "counters_of w' = counters_of w" "clock w' = clock w"
          using same(2) by (auto simp: update_booking_status_def upd_def same_db_def)
        then show ?thesis using ran(4) same(1) same_env_trans True b by auto
      qed
    qed
  qed
  then show "same_env w w' \<and> counters_of w' = counters_of w \<and> clock w' = clock w"
    and "\<not> is_ok r \<longrightarrow> primary w' = primary w \<or> (\<exists>b. booking_by_id i (reader w) = Some b \<and> CanTransition (bk_status b) new
       \<and> primary w' = (primary w)\<lparr>t_bookings := map (update_row i new (clock w)) (t_bookings (primary w))\<rparr>)"
    and "is_ok r \<longrightarrow> (\<exists>b. booking_by_id i (reader w) = Some b \<and> CanTransition (bk_status b) new)
       \<and> primary w' = (primary w)\<lparr>t_bookings := map (update_row i new (clock w)) (t_bookings (primary w))\<rparr>"
    unfolding upd_def by blast+
qed

text \<open>The rest of a transition: the re-read and the side effects.\<close>

lemma transition_cases:
  assumes "transition s i new ty w = (res, w')"
  obtains r1 w1 where "UpdateStatus i new w = (r1, w1)" "db_of w' = db_of w1" "replica w' = replica w1"
    "email_key w' = email_key w1" "clock w' = clock w1" "is_ok res \<longrightarrow> is_ok r1"
    "\<forall>b. res = Inr b \<longrightarrow> booking_by_id i (reader w1) = Some b"
    "is_ok res \<or> effects w' = effects w1"
  using assms unfolding transition_def
proof (cases rule: bind_res_cases)
  case (err e)
  then show thesis using that [of "Inl e" w'] by simp
next
  case (val u w1)
  from val(2) show thesis
  proof (cases rule: bind_res_cases)
    case (err e)
    then have "same_env w1 w'" "same_db w1 w'" using GetByID_same by blast+
    then show thesis
      using that [OF val(1)] err by (simp add: same_env_def same_db_def db_of_def)
  next
    case (val b w2)
    have g: "same_env w1 w2" "same_db w1 w2" "booking_by_id i (reader w1) = Some b"
      using GetByID_same [OF val(1)] GetByID_ok [OF val(1)] by blast+
    define w3 where "w3 = invalidateListingCache s (bk_listing b) w2"
    define w4 where "w4 = snd (publishEvent (sv_publisher s) (booking_event ty b (clock w3)) w3)"
    define w5 where "w5 = (case emailTemplateFor ty of None \<Rightarrow> w4
                   | Some template \<Rightarrow> queueEmail s (bk_id b) (bk_renter b) template w4)"
    have "(Inr b, if ty = EventBookingDisputed \<and> sv_sync s
        then snd (io_effect (SyncSent (bk_renter b) ''booking_disputed'') w5) else w5) = (res, w')"
      using val(2) unfolding Let_def w5_def w4_def w3_def .
    then have "res = Inr b" and w': "w' = (if ty = EventBookingDisputed \<and> sv_sync s
        then snd (io_effect (SyncSent (bk_renter b) ''booking_disputed'') w5) else w5)"
      by simp_all
    have "same_servers w2 w3" "same_servers w3 w4" "same_servers w4 w5" "same_servers w5 w'"
      by (simp_all add: w3_def w4_def w5_def w' split: option.splits)
    then have "same_servers w2 w'" using same_servers_trans by blast
    then show thesis
      using that [OF \<open>UpdateStatus i new w = (Inr u, w1)\<close>] g \<open>res = Inr b\<close>
      by (simp add: same_servers_def same_env_def same_db_def db_of_def)
  qed
qed

lemma transition_step:
  assumes "transition s i new ty w = (res, w')" and "in_sync w"
  shows "status_step i new w w'"
proof -
  obtain r1 w1 where u: "UpdateStatus i new w = (r1, w1)" and p: "db_of w' = db_of w1"
    using transition_cases [OF assms(1)] by metis
  show ?thesis
    using UpdateStatus_cases(2,3) [OF u] p assms(2) unfolding status_step_def in_sync_def db_of_def by auto
qed

definition history_ok :: "tables \<Rightarrow> tables \<Rightarrow> bool" where
  "history_ok t t' \<longleftrightarrow> (\<forall>b\<in>set (t_bookings t). \<exists>b'\<in>set (t_bookings t').
     stay_of_booking b' = stay_of_booking b \<and> bk_renter b' = bk_renter b \<and> bk_total b' = bk_total b
     \<and> evolves (bk_status b) (bk_status b'))"

lemma history_refl [simp]: "history_ok t t"
  unfolding history_ok_def using evolves.stay by blast

lemma history_trans: "history_ok a b \<Longrightarrow> history_ok b c \<Longrightarrow> history_ok a c"
  unfolding history_ok_def using evolves_trans by (metis (no_types, lifting))

lemma status_step_history:
  assumes "status_step i new w w'" and "distinct (map bk_id (t_bookings (primary w)))"
  shows "history_ok (primary w) (primary w')"
  using assms(1) unfolding status_step_def
proof (elim disjE exE conjE)
  fix b assume b: "booking_by_id i (primary w) = Some b" "CanTransition (bk_status b) new"
    and p: "primary w' = (primary w)\<lparr>t_bookings := map (update_row i new (clock w)) (t_bookings (primary w))\<rparr>"
  have only: "x = b" if "x \<in> set (t_bookings (primary w))" "bk_id x = i" for x
    using that b(1) find_distinct_key [OF assms(2)] by (fastforce simp: booking_by_id_def)
  show ?thesis unfolding history_ok_def
  proof
    fix x assume x: "x \<in> set (t_bookings (primary w))"
    let ?x' = "update_row i new (clock w) x"
    have "evolves (bk_status x) (bk_status ?x')"
      using only [OF x] b(2) evolves.move [OF evolves.stay] evolves.stay
      by (cases "bk_id x = i") (auto simp: update_row_def)
    moreover have "?x' \<in> set (t_bookings (primary w'))" using x by (simp add: p)
    ultimately show "\<exists>b'\<in>set (t_bookings (primary w')). stay_of_booking b' = stay_of_booking x
       \<and> bk_renter b' = bk_renter x \<and> bk_total b' = bk_total x \<and> evolves (bk_status x) (bk_status b')"
      by (intro bexI [of _ ?x']) (simp_all add: stay_of_booking_def)
  qed
qed simp

lemma status_update_inv:
  assumes "world_inv w" and "email_key w' = email_key w" and "counters_of w' = counters_of w"
    and "primary w' = primary w \<or> primary w' = (primary w)\<lparr>t_bookings := map (update_row i new now) (t_bookings (primary w))\<rparr>"
  shows "world_inv w'"
  using assms(4)
proof
  assume p: "primary w' = (primary w)\<lparr>t_bookings := map (update_row i new now) (t_bookings (primary w))\<rparr>"
  have "stay_of_booking (update_row i new now b) = stay_of_booking b" for b
    by (simp add: stay_of_booking_def)
  then have "stay_of_booking ` set (t_bookings (primary w')) = stay_of_booking ` set (t_bookings (primary w))"
    by (simp add: p image_image)
  moreover have "t_blocks (primary w') = t_blocks (primary w)" by (simp add: p)
  moreover have "wf_tables (email_key w) (primary w') \<and> fresh_ids (counters_of w) (primary w')"
    using keeps_tablesD [OF keeps_update_booking_status, of i new now "primary w" "counters_of w"] assms(1)
    by (auto simp: update_booking_status_def p world_inv_def booking_inv_def db_of_def)
  ultimately show ?thesis
    using assms(1-3) unfolding world_inv_def booking_inv_def db_of_def disjoint_blocks_def paired_def fst_conv snd_conv
    by (simp only:) blast
qed (use assms(1-3) in \<open>simp add: world_inv_def booking_inv_def db_of_def\<close>)

lemma transition_inv:
  assumes "transition s i new ty w = (res, w')" and "world_inv w"
  shows "world_inv w'"
proof -
  obtain r1 w1 where u: "UpdateStatus i new w = (r1, w1)" and p: "db_of w' = db_of w1" "email_key w' = email_key w1"
    using transition_cases [OF assms(1)] by metis
  have "primary w' = primary w \<or> primary w' = (primary w)\<lparr>t_bookings := map (update_row i new (clock w)) (t_bookings (primary w))\<rparr>"
    using UpdateStatus_cases(2,3) [OF u] p(1) by (auto simp: db_of_def)
  moreover have "email_key w' = email_key w" "counters_of w' = counters_of w"
    using UpdateStatus_cases(1) [OF u] p by (simp_all add: db_of_def same_env_def)
  ultimately show ?thesis using status_update_inv assms(2) by blast
qed

text \<open>C4 (safety): with reads that see the primary, a transition of any kind, failing at any
  point, keeps the table invariants, keeps every booking with its dates, renter and price, and
  moves statuses only along the lifecycle.\<close>

theorem transition_is_legal:
  assumes "world_inv w" and "in_sync w" and "transition s i new ty w = (res, w')"
  shows "world_inv w' \<and> history_ok (primary w) (primary w') \<and> t_blocks (primary w') = t_blocks (primary w)"
proof -
  have st: "status_step i new w w'" by (rule transition_step [OF assms(3,2)])
  have "distinct (map bk_id (t_bookings (primary w)))"
    using assms(1) by (simp add: world_inv_def booking_inv_def wf_tables_def keys_ok_def db_of_def)
  then have "history_ok (primary w) (primary w')" by (rule status_step_history [OF st])
  moreover have "t_blocks (primary w') = t_blocks (primary w)"
    using st by (auto simp: status_step_def)
  ultimately show ?thesis using transition_inv [OF assms(3,1)] by blast
qed

theorem transition_is_legal_witness:
  "history_ok (primary sample_world) (primary (snd (Approve all_wired 1 sample_world)))"
  using transition_is_legal [OF sample_inv _ surjective_pairing, of all_wired 1 Approved EventBookingApproved]
  unfolding Approve_def by (simp add: in_sync_def reader_def sample_world_def world_of_def)


subsection \<open>Effects of a transition\<close>

text \<open>What a transition of booking \<open>b\<close> announces when everything works.\<close>

definition announcements :: "service \<Rightarrow> event_type \<Rightarrow> booking \<Rightarrow> time \<Rightarrow> effect list" where
  "announcements s ty b now =
     (if sv_publisher s then [Published ''booking.events'' (format_int (bk_id b)) (event_json (booking_event ty b now))] else [])
     @ (if sv_notifier s \<and> ty \<in> {EventBookingApproved, EventBookingDisputed}
        then [EmailQueued (email_json (bk_id b) (bk_renter b)
                (if ty = EventBookingApproved then ''booking_approved'' else ''booking_disputed''))] else [])
     @ (if sv_sync s \<and> ty = EventBookingDisputed then [SyncSent (bk_renter b) ''booking_disputed''] else [])"

lemma faults_works [simp]:
  assumes "faults w = []"
  shows "faults (invalidateListingCache s l w) = []" "faults (snd (publishEvent p e w)) = []"
    "faults (queueEmail s i r t w) = []" "faults (snd (io_effect x w)) = []"
    "faults (snd (UpdateStatus i new w)) = []" "faults (snd (GetByID i w)) = []"
  using assms
  by (simp_all add: invalidateListingCache_def publishEvent_def queueEmail_def UpdateStatus_def GetByID_works
      sql_exec_works update_booking_status_def Let_def split: option.splits)

lemma one_effect:
  assumes "w' = (if c then snd (io_effect e w) else w)"
  shows "\<exists>es. effects w' = effects w @ es \<and> subseq es (if c then [e] else [])
     \<and> (faults w = [] \<longrightarrow> es = (if c then [e] else []))"
proof (cases "c \<and> effects w' = effects w @ [e]")
  case True
  then show ?thesis by (intro exI [of _ "[e]"]) simp
next
  case False
  then have "effects w' = effects w" using assms io_effect_effects [of e w] by (auto split: if_splits)
  then show ?thesis using assms by (intro exI [of _ "[]"]) auto
qed

lemma append_effects:
  assumes "\<exists>es. effects w1 = effects w @ es \<and> subseq es a \<and> (faults w = [] \<longrightarrow> es = a)"
    and "\<exists>es. effects w2 = effects w1 @ es \<and> subseq es b \<and> (faults w1 = [] \<longrightarrow> es = b)"
    and "faults w = [] \<longrightarrow> faults w1 = []"
  shows "\<exists>es. effects w2 = effects w @ es \<and> subseq es (a @ b) \<and> (faults w = [] \<longrightarrow> es = a @ b)"
  using assms by (metis append.assoc list_emb_append_mono)

lemma transition_announces:
  assumes "transition s i new ty w = (res, w')"
  shows "case res of
      Inl e \<Rightarrow> effects w' = effects w
    | Inr b \<Rightarrow> booking_by_id i (reader w') = Some b
        \<and> (\<exists>es. effects w' = effects w @ es \<and> subseq es (announcements s ty b (clock w))
             \<and> (faults w = [] \<longrightarrow> es = announcements s ty b (clock w)))"
  using assms unfolding transition_def
proof (cases rule: bind_res_cases)
  case (err e)
  then show ?thesis using UpdateStatus_cases(1) [OF err(1)] by (simp add: same_env_def)
next
  case (val u w1)
  have u: "effects w1 = effects w" "clock w1 = clock w" "faults w = [] \<longrightarrow> faults w1 = []"
    using UpdateStatus_cases(1) [OF val(1)] faults_works(5) [of w i new] val(1) by (simp_all add: same_env_def)
  from val(2) show ?thesis
  proof (cases rule: bind_res_cases)
    case (err e)
    then show ?thesis using GetByID_same [OF err(1)] u by (simp add: same_env_def)
  next
    case (val b w2)
    have g: "effects w2 = effects w1" "clock w2 = clock w1" "faults w1 = [] \<longrightarrow> faults w2 = []"
      using GetByID_same [OF val(1)] faults_works(6) [of w1 i] val(1) by (simp_all add: same_env_def same_db_def)
    define w3 where "w3 = invalidateListingCache s (bk_listing b) w2"
    define ev where "ev = booking_event ty b (clock w3)"
    define w4 where "w4 = snd (publishEvent (sv_publisher s) ev w3)"
    define w5 where "w5 = (case emailTemplateFor ty of None \<Rightarrow> w4
                   | Some template \<Rightarrow> queueEmail s (bk_id b) (bk_renter b) template w4)"
    have "(Inr b, if ty = EventBookingDisputed \<and> sv_sync s
        then snd (io_effect (SyncSent (bk_renter b) ''booking_disputed'') w5) else w5) = (res, w')"
      using val(2) unfolding Let_def w5_def w4_def ev_def w3_def .
    then have res: "res = Inr b" and w': "w' = (if sv_sync s \<and> ty = EventBookingDisputed
        then snd (io_effect (SyncSent (bk_renter b) ''booking_disputed'') w5) else w5)"
      by (simp_all add: conj_commute)
    have c: "clock w3 = clock w" "effects w3 = effects w" "faults w = [] \<longrightarrow> faults w3 = []"
      using u g by (simp_all add: w3_def invalidateListingCache_def)
    have f4: "faults w3 = [] \<longrightarrow> faults w4 = []" and f5: "faults w4 = [] \<longrightarrow> faults w5 = []"
      by (simp_all add: w4_def w5_def split: option.splits)
    have e4: "w4 = (if sv_publisher s then snd (io_effect
        (Published ''booking.events'' (format_int (bk_id b)) (event_json (booking_event ty b (clock w)))) w3) else w3)"
      by (simp add: w4_def publishEvent_def TopicBookingEvents_def ev_def c booking_event_def)
    have e5: "w5 = (if sv_notifier s \<and> ty \<in> {EventBookingApproved, EventBookingDisputed}
        then snd (io_effect (EmailQueued (email_json (bk_id b) (bk_renter b)
          (if ty = EventBookingApproved then ''booking_approved'' else ''booking_disputed''))) w4) else w4)"
      by (cases ty) (simp_all add: w5_def queueEmail_def)
    note a = append_effects [OF one_effect [OF e4] append_effects [OF one_effect [OF e5] one_effect [OF w'] f5] f4]
    have "same_servers w2 w3" "same_servers w3 w4" "same_servers w4 w5" "same_servers w5 w'"
      by (simp_all add: w3_def w4_def w5_def w' split: option.splits)
    then have "same_servers w2 w'" using same_servers_trans by blast
    then have "reader w' = reader w1"
      using GetByID_same [OF val(1)] by (simp add: reader_def same_servers_def same_env_def same_db_def db_of_def
          split: option.splits)
    then have "booking_by_id i (reader w') = Some b" using GetByID_ok [OF val(1)] by simp
    then show ?thesis
      using a c(2,3) unfolding res announcements_def by auto
  qed
qed



text \<open>C18 (functional): no transition of a booking ever frees its dates: after a rejection or a
  cancellation, as after any other transition and under any failure, the calendar of every
  listing still holds the stay, and a new request for those dates is refused.\<close>

theorem dates_stay_blocked:
  assumes "transition s i new ty w = (res, w')"
  shows "t_blocks (primary w') = t_blocks (primary w)"
proof -
  obtain r1 w1 where u: "UpdateStatus i new w = (r1, w1)" and p: "db_of w' = db_of w1"
    using transition_cases [OF assms] by metis
  show ?thesis using UpdateStatus_cases(2,3) [OF u] p by (auto simp: db_of_def)
qed

theorem dates_stay_blocked_witness:
  "t_blocks (primary (snd (Cancel all_wired 1 sample_world))) = [sample_block]"
  using dates_stay_blocked [OF surjective_pairing, of all_wired 1 Cancelled EventBookingCancelled sample_world]
  by (simp add: Cancel_def sample_world_def world_of_def sample_tables_def)

end
