(* ===== verification/BookingApi.thy ===== *)
theory BookingApi
  imports BookingLife
begin

text \<open>
  \<open>internal/booking/handler.go\<close> and \<open>response.go\<close>: the HTTP operations on bookings, their
  status codes, and the push to the listing owner's feed.
\<close>

record booking_handler =
  bh_service :: service
  bh_listings :: bool
  bh_notifier :: bool

definition toResponse :: "booking \<Rightarrow> json" where
  "toResponse b = JObj
     [(''id'', JNum (bk_id b)), (''listing_id'', JNum (bk_listing b)), (''renter_id'', JNum (bk_renter b)),
      (''start_date'', JStr (format_date (bk_start b))), (''end_date'', JStr (format_date (bk_end b))),
      (''status'', JStr (status_str (bk_status b))), (''total_price_cents'', JNum (bk_total b)),
      (''created_at'', JTime (bk_created b))]"

text \<open>The push goes to the in-process hub and cannot fail.\<close>

definition notifyOwner :: "booking_handler \<Rightarrow> booking \<Rightarrow> world \<Rightarrow> world" where
  "notifyOwner h b w =
     (if \<not> bh_notifier h \<or> \<not> bh_listings h then w
      else case listing_GetByID (bk_listing b) w of
             (Inl e, w1) \<Rightarrow> w1
           | (Inr l, w1) \<Rightarrow> emit (OwnerPush (ls_owner l) (toResponse b)) w1)"

lemma notifyOwner_primary [simp]: "primary (notifyOwner h b w) = primary w"
proof -
  obtain r w1 where g: "listing_GetByID (bk_listing b) w = (r, w1)" by fastforce
  then have "primary w1 = primary w" using listing_GetByID_same [OF g] by (simp add: same_db_def)
  then show ?thesis by (cases r) (simp_all add: notifyOwner_def g)
qed

record create_booking_request =
  cr_listing :: int
  cr_start :: string
  cr_end :: string

text \<open>A request body is \<open>None\<close> when \<open>DecodeJSON\<close> fails.\<close>

definition Create :: "booking_handler \<Rightarrow> http_req \<Rightarrow> create_booking_request option \<Rightarrow> world \<Rightarrow> http_resp \<times> world" where
  "Create h r body w =
     (case rq_claims r of
        None \<Rightarrow> (Error 401 ''authentication required'', w)
      | Some claims \<Rightarrow>
     (case body of
        None \<Rightarrow> (Error 400 ''invalid request body'', w)
      | Some req \<Rightarrow>
     (case parse_date (cr_start req) of
        None \<Rightarrow> (Error 400 ''start_date must be YYYY-MM-DD'', w)
      | Some start \<Rightarrow>
     (case parse_date (cr_end req) of
        None \<Rightarrow> (Error 400 ''end_date must be YYYY-MM-DD'', w)
      | Some finish \<Rightarrow>
     (case CreateBooking (bh_service h) (cr_listing req) (cl_user claims) start finish w of
        (Inl e, w1) \<Rightarrow>
          (if errors_is e ErrListingUnavailable
           then (Error 409 ''listing is not available for the requested dates'', w1)
           else if errors_is e ErrInvalidDateRange then (Error 400 (err_text e), w1)
           else (Error 500 ''could not create booking'', w1))
      | (Inr b, w1) \<Rightarrow> (JSON 201 (Some (toResponse b)), notifyOwner h b w1))))))"

definition transitionHandler ::
  "(int \<Rightarrow> world \<Rightarrow> (gerr + booking) \<times> world) \<Rightarrow> booking_handler \<Rightarrow> http_req \<Rightarrow> world \<Rightarrow> http_resp \<times> world" where
  "transitionHandler step h r w =
     (case parse_int64 (rq_id r) of
        Inl e \<Rightarrow> (Error 400 ''invalid booking id'', w)
      | Inr i \<Rightarrow>
     (case step i w of
        (Inl e, w1) \<Rightarrow>
          (if errors_is e ErrNotFound then (Error 404 ''booking not found'', w1)
           else if errors_is e ErrInvalidTransition
           then (Error 409 ''invalid status transition for this booking'', w1)
           else (Error 500 ''could not update booking'', w1))
      | (Inr b, w1) \<Rightarrow> (JSON 200 (Some (toResponse b)), notifyOwner h b w1)))"

definition Approve_handler :: "booking_handler \<Rightarrow> http_req \<Rightarrow> world \<Rightarrow> http_resp \<times> world" where
  "Approve_handler h = transitionHandler (Approve (bh_service h)) h"

definition Reject_handler :: "booking_handler \<Rightarrow> http_req \<Rightarrow> world \<Rightarrow> http_resp \<times> world" where
  "Reject_handler h = transitionHandler (Reject (bh_service h)) h"

definition Cancel_handler :: "booking_handler \<Rightarrow> http_req \<Rightarrow> world \<Rightarrow> http_resp \<times> world" where
  "Cancel_handler h = transitionHandler (Cancel (bh_service h)) h"

definition Activate_handler :: "booking_handler \<Rightarrow> http_req \<Rightarrow> world \<Rightarrow> http_resp \<times> world" where
  "Activate_handler h = transitionHandler (Activate (bh_service h)) h"

definition Complete_handler :: "booking_handler \<Rightarrow> http_req \<Rightarrow> world \<Rightarrow> http_resp \<times> world" where
  "Complete_handler h = transitionHandler (Complete (bh_service h)) h"

definition ListMine :: "http_req \<Rightarrow> world \<Rightarrow> http_resp \<times> world" where
  "ListMine r w =
     (case rq_claims r of
        None \<Rightarrow> (Error 401 ''authentication required'', w)
      | Some claims \<Rightarrow>
     (case ListForOwner (cl_user claims) w of
        (Inl e, w1) \<Rightarrow> (Error 500 ''could not load bookings'', w1)
      | (Inr bs, w1) \<Rightarrow> (JSON 200 (Some (JArr (map toResponse bs))), w1)))"

definition Get :: "http_req \<Rightarrow> world \<Rightarrow> http_resp \<times> world" where
  "Get r w =
     (case parse_int64 (rq_id r) of
        Inl e \<Rightarrow> (Error 400 ''invalid booking id'', w)
      | Inr i \<Rightarrow>
     (case GetByID i w of
        (Inl e, w1) \<Rightarrow>
          (if errors_is e ErrNotFound then (Error 404 ''booking not found'', w1)
           else (Error 500 ''could not fetch booking'', w1))
      | (Inr b, w1) \<Rightarrow> (JSON 200 (Some (toResponse b)), w1)))"

lemmas transition_handlers = Approve_handler_def Reject_handler_def Cancel_handler_def
  Activate_handler_def Complete_handler_def

subsection \<open>A created booking is the one that was asked for\<close>

lemma CreateBooking_row:
  assumes "world_inv w" and "replica w = None" and "CreateBooking s l r start finish w = (Inr b, w')"
  obtains i price now where "b = booking_row \<lparr>in_listing = l, in_renter = r, in_start = start, in_end = finish\<rparr> price i now"
    "price_of \<lparr>in_listing = l, in_renter = r, in_start = start, in_end = finish\<rparr> (primary w) = Some price"
    "b \<in> set (t_bookings (primary w'))"
proof -
  define inp where "inp = \<lparr>in_listing = l, in_renter = r, in_start = start, in_end = finish\<rparr>"
  obtain w1 where a: "CreateAtomic inp w = (Inr b, w1)" and same: "same_servers w1 w'"
    using CreateBooking_atomic [OF assms(3)] unfolding inp_def by blast
  from CreateAtomic_cases(3) [OF a] obtain i where i: "booked inp i w w1" "booking_by_id i (reader w1) = Some b" by auto
  have "reader w1 = primary w1" "reader w = primary w"
    using CreateAtomic_cases(1) [OF a] assms(2) by (simp_all add: reader_def same_env_def)
  with booked_found [OF assms(1) i(1)] i(2) obtain price now where
    "b = booking_row inp price i now" "price_of inp (primary w) = Some price" by (metis option.inject)
  moreover have "b \<in> set (t_bookings (primary w'))"
    using i(2) \<open>reader w1 = primary w1\<close> same find_SomeD
    by (fastforce simp: booking_by_id_def same_servers_def db_of_def)
  ultimately show thesis using that unfolding inp_def by blast
qed

text \<open>C8 (roundtrip): when creating a booking answers 201, the body shows the requested listing,
  the caller as renter, exactly the two date strings of the request, the status \<open>requested\<close> and
  the price of those dates, and it is the rendering of a row of the primary.\<close>

theorem created_booking_echoes_request:
  assumes "world_inv w" and "replica w = None"
    and "Create h r (Some req) w = (resp, w')" and "rs_status resp = 201"
  shows "\<exists>b\<in>set (t_bookings (primary w')). rs_body resp = Some (toResponse b)
     \<and> bk_listing b = cr_listing req \<and> map_option cl_user (rq_claims r) = Some (bk_renter b)
     \<and> format_date (bk_start b) = cr_start req \<and> format_date (bk_end b) = cr_end req
     \<and> bk_status b = Requested
     \<and> (\<exists>x\<in>set (t_listings (primary w)). ls_id x = cr_listing req
          \<and> CalculateTotalPriceCents (bk_start b) (bk_end b) (ls_price x) = Inr (bk_total b))"
proof -
  from assms(3,4) obtain cl st fi b w1 where c: "rq_claims r = Some cl" "parse_date (cr_start req) = Some st"
      "parse_date (cr_end req) = Some fi"
      "CreateBooking (bh_service h) (cr_listing req) (cl_user cl) st fi w = (Inr b, w1)"
      "resp = JSON 201 (Some (toResponse b))" "w' = notifyOwner h b w1"
    by (auto simp: Create_def split: option.splits prod.splits sum.splits if_splits)
  obtain i price now where b: "b = booking_row \<lparr>in_listing = cr_listing req, in_renter = cl_user cl, in_start = st, in_end = fi\<rparr> price i now"
    "price_of \<lparr>in_listing = cr_listing req, in_renter = cl_user cl, in_start = st, in_end = fi\<rparr> (primary w) = Some price"
    "b \<in> set (t_bookings (primary w1))"
    by (rule CreateBooking_row [OF assms(1,2) c(4)])
  have d: "format_date st = cr_start req" "to_date st = st" "format_date fi = cr_end req" "to_date fi = fi"
    using parse_date_format [OF c(2)] parse_date_format [OF c(3)] by (simp_all add: to_date_id)
  obtain x where x: "listing_by_id (cr_listing req) (primary w) = Some x" "CalculateTotalPriceCents st fi (ls_price x) = Inr price"
    using b(2) by (auto simp: price_of_def split: option.splits sum.splits)
  show ?thesis
    using b(3) c(1,5,6) d x listing_by_id_Some [OF x(1)]
    by (intro bexI [of _ b]) (auto simp: b(1) row_defs)
qed

definition sample_handler :: booking_handler where
  "sample_handler = \<lparr>bh_service = all_wired, bh_listings = True, bh_notifier = True\<rparr>"

definition sample_req :: "string \<Rightarrow> http_req" where
  "sample_req i = \<lparr>rq_method = ''POST'', rq_id = i, rq_query = [], rq_headers = [], rq_cookies = [], rq_form = None,
     rq_remote = ''10.0.0.1'', rq_claims = Some \<lparr>cl_user = 1, cl_role = ''renter''\<rparr>\<rparr>"

lemma sample_create_ok: "is_ok (fst (CreateBooking all_wired 1 1 (20006 * day_ns) (20006 * day_ns) sample_world))"
proof -
  define inp where "inp = \<lparr>in_listing = 1, in_renter = 1, in_start = 20006 * day_ns, in_end = 20006 * day_ns\<rparr>"
  have w: "faults sample_world = []" "replica sample_world = None" by (simp_all add: sample_world_def world_of_def)
  have n: "nightsBetween (20006 * day_ns) (20006 * day_ns) = 1"
    using nights_of_days [of 0 "20006 * day_ns"] by simp
  have "price_of inp (primary sample_world) = Some 1500"
    by (simp add: price_of_def listing_by_id_def inp_def CalculateTotalPriceCents_def n sample_world_def world_of_def
        sample_tables_def sample_listing_def wrap64_id int64_defs)
  moreover have "bookable inp 1500 (primary sample_world)"
    by (simp add: bookable_def inp_def overlaps_range_def uint_range_def sample_world_def world_of_def sample_tables_def
        sample_rows day_ns_def)
  moreover obtain r w1 where "CreateAtomic inp sample_world = (r, w1)"
      "is_ok r \<longleftrightarrow> (\<exists>p. price_of inp (primary sample_world) = Some p \<and> bookable inp p (primary sample_world))"
    using CreateAtomic_works [OF sample_inv w, of inp] by blast
  ultimately show ?thesis
    unfolding CreateBooking_def inp_def [symmetric] by (cases r) (simp_all add: Let_def)
qed

theorem created_booking_echoes_request_witness:
  "\<exists>b\<in>set (t_bookings (primary (snd (Create sample_handler (sample_req ''7'')
       (Some \<lparr>cr_listing = 1, cr_start = ''2024-10-10'', cr_end = ''2024-10-10''\<rparr>) sample_world)))).
     format_date (bk_start b) = ''2024-10-10'' \<and> bk_renter b = 1"
proof -
  define req where "req = \<lparr>cr_listing = 1, cr_start = ''2024-10-10'', cr_end = ''2024-10-10''\<rparr>"
  have p: "parse_date ''2024-10-10'' = Some (20006 * day_ns)" by code_simp
  obtain resp w' where c: "Create sample_handler (sample_req ''7'') (Some req) sample_world = (resp, w')" by fastforce
  obtain b w1 where "CreateBooking all_wired 1 1 (20006 * day_ns) (20006 * day_ns) sample_world = (Inr b, w1)"
    using sample_create_ok unfolding is_ok_iff by (metis prod.collapse)
  then have "rs_status resp = 201"
    using c p by (auto simp: Create_def req_def sample_req_def sample_handler_def simp del: parse_date.simps)
  moreover have "replica sample_world = None" by (simp add: sample_world_def world_of_def)
  ultimately show ?thesis
    using created_booking_echoes_request [OF sample_inv _ c] unfolding req_def [symmetric] c
    by (auto simp: sample_req_def req_def)
qed



text \<open>The status endpoints do not look at the caller: the answer and the effect are the same for the
  owner of the listing, the renter and any other authenticated user.\<close>

theorem transition_ignores_caller:
  "Approve_handler h (r\<lparr>rq_claims := c\<rparr>) w = Approve_handler h r w
   \<and> Reject_handler h (r\<lparr>rq_claims := c\<rparr>) w = Reject_handler h r w
   \<and> Cancel_handler h (r\<lparr>rq_claims := c\<rparr>) w = Cancel_handler h r w
   \<and> Activate_handler h (r\<lparr>rq_claims := c\<rparr>) w = Activate_handler h r w
   \<and> Complete_handler h (r\<lparr>rq_claims := c\<rparr>) w = Complete_handler h r w"
  by (simp add: transition_handlers transitionHandler_def)

end
