(* ===== verification/Auth.thy ===== *)
theory Auth
  imports Http
begin

text \<open>
  \<open>internal/auth\<close>: access tokens, refresh tokens, API keys, the signed session cookie of the
  admin dashboard, the CSRF double submit, basic authentication, and the middlewares that guard
  the route groups. HMAC, SHA-256 and the JWT library are arguments; random bytes are inputs.
\<close>

subsection \<open>JWT\<close>

record jwt_claims =
  jc_user :: int
  jc_role :: string
  jc_issuer :: string
  jc_issued :: time
  jc_expires :: time

text \<open>
  The library: signing with HS256, and parsing, which asks \<open>keyfunc\<close> for the key of the
  token's method and reports the claims and whether the token is valid.
\<close>

record jwt_lib =
  SignedString :: "string \<Rightarrow> jwt_claims \<Rightarrow> gerr + string"
  ParseWithClaims :: "time \<Rightarrow> (string \<Rightarrow> gerr + string) \<Rightarrow> string \<Rightarrow> gerr + (jwt_claims \<times> bool)"

record jwt_issuer =
  ji_secret :: string
  ji_ttl :: int

definition IssueAccessToken :: "jwt_lib \<Rightarrow> jwt_issuer \<Rightarrow> time \<Rightarrow> int \<Rightarrow> string \<Rightarrow> gerr + string" where
  "IssueAccessToken L j now userID role = SignedString L (ji_secret j)
     \<lparr>jc_user = userID, jc_role = role, jc_issuer = ''gearshare-api'',
      jc_issued = unix now * second, jc_expires = unix (now + ji_ttl j) * second\<rparr>"

text \<open>\<open>NumericDate\<close> keeps whole seconds.\<close>

definition hmac_methods :: "string list" where
  "hmac_methods = [''HS256'', ''HS384'', ''HS512'']"

definition jwt_keyfunc :: "jwt_issuer \<Rightarrow> string \<Rightarrow> gerr + string" where
  "jwt_keyfunc j alg = (if alg \<notin> set hmac_methods then Inl (OtherErr (''jwt: unexpected signing method '' @ alg))
     else Inr (ji_secret j))"

definition jwt_Verify :: "jwt_lib \<Rightarrow> jwt_issuer \<Rightarrow> time \<Rightarrow> string \<Rightarrow> gerr + jwt_claims" where
  "jwt_Verify L j now token =
     (case ParseWithClaims L now (jwt_keyfunc j) token of
        Inl e \<Rightarrow> Inl e
      | Inr (cl, valid) \<Rightarrow> if \<not> valid then Inl (OtherErr ''jwt: invalid token'') else Inr cl)"

definition HashRefreshToken :: "(string \<Rightarrow> string) \<Rightarrow> string \<Rightarrow> string" where
  "HashRefreshToken sha256 raw = hex_encode (sha256 raw)"

definition GenerateRefreshToken :: "(string \<Rightarrow> string) \<Rightarrow> gerr + string \<Rightarrow> gerr + (string \<times> string)" where
  "GenerateRefreshToken sha256 rnd =
     (case rnd of Inl e \<Rightarrow> Inl (Wrapped ''jwt: generate refresh token'' e)
      | Inr buf \<Rightarrow> let raw = b64_encode url_alphabet buf in Inr (raw, hex_encode (sha256 raw)))"

definition RequireJWT :: "jwt_lib \<Rightarrow> jwt_issuer \<Rightarrow> handler \<Rightarrow> handler" where
  "RequireJWT L j nxt r w =
     (case cut_prefix ''Bearer '' (field (rq_headers r) ''Authorization'') of
        None \<Rightarrow> (Error 401 ''missing bearer token'', w)
      | Some token \<Rightarrow> if token = '''' then (Error 401 ''missing bearer token'', w)
        else (case jwt_Verify L j (clock w) token of
            Inl e \<Rightarrow> (Error 401 ''invalid or expired token'', w)
          | Inr cl \<Rightarrow> nxt (r\<lparr>rq_claims := Some \<lparr>cl_user = jc_user cl, cl_role = jc_role cl\<rparr>\<rparr>) w))"

subsection \<open>API keys\<close>

definition ErrAPIKeyNotFound :: gerr where
  "ErrAPIKeyNotFound = Sentinel ''auth: api key not found or revoked''"

definition apikey_hash :: "(string \<Rightarrow> string) \<Rightarrow> string \<Rightarrow> string \<Rightarrow> string" where
  "apikey_hash sha256 pepper raw = hex_encode (sha256 (raw @ pepper))"

definition apikey_Generate :: "(string \<Rightarrow> string) \<Rightarrow> string \<Rightarrow> gerr + string \<Rightarrow> gerr + (string \<times> string)" where
  "apikey_Generate sha256 pepper rnd =
     (case rnd of Inl e \<Rightarrow> Inl (Wrapped ''apikey: generate'' e)
      | Inr buf \<Rightarrow> let raw = ''gsk_'' @ b64_encode url_alphabet buf in Inr (raw, apikey_hash sha256 pepper raw))"

definition apikey_Verify :: "(string \<Rightarrow> string) \<Rightarrow> string \<Rightarrow> string \<Rightarrow> string \<Rightarrow> bool" where
  "apikey_Verify sha256 pepper raw storedHash \<longleftrightarrow> ct_compare (apikey_hash sha256 pepper raw) storedHash = 1"

definition insert_apikey :: "string \<Rightarrow> string \<Rightarrow> unit dml" where
  "insert_apikey label keyHash now t ai =
     (if keyHash \<in> ak_hash ` set (t_apikeys t) then (Inl err_dup, t, ai)
      else (Inr (), t\<lparr>t_apikeys := t_apikeys t @ [\<lparr>ak_label = label, ak_hash = keyHash, ak_revoked = None\<rparr>]\<rparr>, ai))"

definition apikey_Create :: "string \<Rightarrow> string \<Rightarrow> world \<Rightarrow> (gerr + unit) \<times> world" where
  "apikey_Create label keyHash w = map_err (Wrapped ''auth: create api key'') (sql_exec (insert_apikey label keyHash) w)"

definition active_label :: "string \<Rightarrow> tables \<Rightarrow> string option" where
  "active_label h t = map_option ak_label (find (\<lambda>k. ak_hash k = h \<and> ak_revoked k = None) (t_apikeys t))"

definition FindActiveByHash :: "string \<Rightarrow> world \<Rightarrow> (gerr + string) \<times> world" where
  "FindActiveByHash h w =
     map_err (\<lambda>e. if errors_is e ErrNoRows then ErrAPIKeyNotFound else Wrapped ''auth: find api key'' e)
       (sql_get (active_label h) w)"

text \<open>The label of the partner is handed to the next handler.\<close>

definition RequireAPIKey :: "(string \<Rightarrow> string) \<Rightarrow> string \<Rightarrow> (string \<Rightarrow> handler) \<Rightarrow> handler" where
  "RequireAPIKey sha256 pepper nxt r w =
     (case cut_prefix ''ApiKey '' (field (rq_headers r) ''Authorization'') of
        None \<Rightarrow> (Error 401 ''missing API key'', w)
      | Some raw \<Rightarrow> if raw = '''' then (Error 401 ''missing API key'', w)
        else (case FindActiveByHash (apikey_hash sha256 pepper raw) w of
            (Inl e, w1) \<Rightarrow> (Error 401 ''invalid or revoked API key'', w1)
          | (Inr label, w1) \<Rightarrow> nxt label r w1))"

subsection \<open>Session cookie\<close>

record session_manager =
  sm_secret :: string
  sm_ttl :: int

definition SessionCookieName :: string where "SessionCookieName = ''gearshare_admin_session''"

definition sign :: "(string \<Rightarrow> string \<Rightarrow> string) \<Rightarrow> session_manager \<Rightarrow> string \<Rightarrow> string" where
  "sign hmac m payload = b64_encode url_alphabet (hmac (sm_secret m) payload)"

definition session_payload :: "int \<Rightarrow> int \<Rightarrow> string" where
  "session_payload userID expiry = format_int userID @ ''|'' @ format_int expiry"

definition session_cookie :: "(string \<Rightarrow> string \<Rightarrow> string) \<Rightarrow> session_manager \<Rightarrow> time \<Rightarrow> int \<Rightarrow> bool \<Rightarrow> cookie" where
  "session_cookie hmac m now userID secure =
     (let expiry = unix (now + sm_ttl m);
          payload = session_payload userID expiry
      in \<lparr>ck_name = SessionCookieName, ck_value = b64_encode url_alphabet payload @ ''.'' @ sign hmac m payload,
          ck_path = ''/admin'', ck_httponly = True, ck_secure = secure, ck_expires = Some (expiry * second), ck_maxage = 0\<rparr>)"

definition IssueCookie :: "(string \<Rightarrow> string \<Rightarrow> string) \<Rightarrow> session_manager \<Rightarrow> time \<Rightarrow> int \<Rightarrow> bool \<Rightarrow> http_resp \<Rightarrow> http_resp" where
  "IssueCookie hmac m now userID secure = set_cookie (session_cookie hmac m now userID secure)"

definition ClearCookie :: "bool \<Rightarrow> http_resp \<Rightarrow> http_resp" where
  "ClearCookie secure = set_cookie \<lparr>ck_name = SessionCookieName, ck_value = '''', ck_path = ''/admin'',
     ck_httponly = True, ck_secure = secure, ck_expires = None, ck_maxage = - 1\<rparr>"

definition session_Verify :: "(string \<Rightarrow> string \<Rightarrow> string) \<Rightarrow> session_manager \<Rightarrow> time \<Rightarrow> http_req \<Rightarrow> gerr + int" where
  "session_Verify hmac m now r =
     (case map_of (rq_cookies r) SessionCookieName of
        None \<Rightarrow> Inl (OtherErr ''auth: no session cookie'')
      | Some v \<Rightarrow>
     (case split_n2 (CHR ''.'') v of
        [payloadRaw, signature] \<Rightarrow>
     (case b64_decode url_alphabet payloadRaw of
        None \<Rightarrow> Inl (OtherErr ''auth: malformed session payload'')
      | Some payload \<Rightarrow>
      if ct_compare signature (sign hmac m payload) \<noteq> 1 then Inl (OtherErr ''auth: invalid session signature'')
      else
     (case split_n2 (CHR ''|'') payload of
        [f0, f1] \<Rightarrow>
     (case parse_int64 f0 of
        Inl e \<Rightarrow> Inl (OtherErr ''auth: malformed session user id'')
      | Inr userID \<Rightarrow>
     (case parse_int64 f1 of
        Inl e \<Rightarrow> Inl (OtherErr ''auth: malformed session expiry'')
      | Inr expiry \<Rightarrow> if unix now > expiry then Inl (OtherErr ''auth: session expired'') else Inr userID))
      | _ \<Rightarrow> Inl (OtherErr ''auth: malformed session fields'')))
      | _ \<Rightarrow> Inl (OtherErr ''auth: malformed session cookie'')))"

text \<open>The session's user is handed to the next handler.\<close>

definition RequireSession :: "(string \<Rightarrow> string \<Rightarrow> string) \<Rightarrow> session_manager \<Rightarrow> (int \<Rightarrow> handler) \<Rightarrow> handler" where
  "RequireSession hmac m nxt r w =
     (case session_Verify hmac m (clock w) r of
        Inl e \<Rightarrow> (Redirect 303 ''/admin/login'', w)
      | Inr userID \<Rightarrow> nxt userID r w)"

subsection \<open>CSRF and basic authentication\<close>

definition CSRFCookieName :: string where "CSRFCookieName = ''gearshare_csrf_token''"
definition CSRFFormField :: string where "CSRFFormField = ''csrf_token''"

definition GenerateCSRFToken :: "gerr + string \<Rightarrow> gerr + string" where
  "GenerateCSRFToken rnd = (case rnd of Inl e \<Rightarrow> Inl e | Inr buf \<Rightarrow> Inr (b64_encode url_alphabet buf))"

definition IssueCSRFCookie :: "string \<Rightarrow> bool \<Rightarrow> http_resp \<Rightarrow> http_resp" where
  "IssueCSRFCookie token secure = set_cookie \<lparr>ck_name = CSRFCookieName, ck_value = token, ck_path = ''/admin'',
     ck_httponly = False, ck_secure = secure, ck_expires = None, ck_maxage = 0\<rparr>"

definition plain_error :: "int \<Rightarrow> string \<Rightarrow> http_resp" where
  "plain_error status message = \<lparr>rs_status = status, rs_headers = [(''Content-Type'', ''text/plain; charset=utf-8'')],
     rs_cookies = [], rs_body = Some (JStr message)\<rparr>"

definition RequireCSRF :: "handler \<Rightarrow> handler" where
  "RequireCSRF nxt r w =
     (if rq_method r = ''GET'' \<or> rq_method r = ''HEAD'' then nxt r w
      else case map_of (rq_cookies r) CSRFCookieName of
        None \<Rightarrow> (plain_error 403 ''missing CSRF cookie'', w)
      | Some token \<Rightarrow>
     (case rq_form r of
        None \<Rightarrow> (plain_error 400 ''invalid form'', w)
      | Some form \<Rightarrow>
        if ct_compare token (field form CSRFFormField) \<noteq> 1 then (plain_error 403 ''CSRF token mismatch'', w)
        else nxt r w))"

text \<open>\<open>r.BasicAuth()\<close>: the scheme is compared without case, the credentials are base64 and
  split at the first colon.\<close>

definition lower :: "char \<Rightarrow> char" where
  "lower c = (let n = of_char c :: nat in if 65 \<le> n \<and> n \<le> 90 then char_of (n + 32) else c)"

definition BasicAuth :: "(string \<Rightarrow> string option) \<Rightarrow> http_req \<Rightarrow> (string \<times> string) option" where
  "BasicAuth decode_std r =
     (let h = field (rq_headers r) ''Authorization''
      in if length h < 6 \<or> map lower (take 6 h) \<noteq> ''basic '' then None
         else case decode_std (drop 6 h) of None \<Rightarrow> None
            | Some c \<Rightarrow> (case split_n2 (CHR '':'') c of [u, p] \<Rightarrow> Some (u, p) | _ \<Rightarrow> None))"

definition RequireBasicAuth :: "(string \<Rightarrow> string option) \<Rightarrow> string \<Rightarrow> string \<Rightarrow> handler \<Rightarrow> handler" where
  "RequireBasicAuth decode_std username password nxt r w =
     (let (user, pass, ok) = (case BasicAuth decode_std r of None \<Rightarrow> ('''', '''', False) | Some (u, p) \<Rightarrow> (u, p, True));
          validUser = (ct_compare user username = 1);
          validPass = (ct_compare pass password = 1)
      in if \<not> ok \<or> \<not> validUser \<or> \<not> validPass
         then ((Error 401 ''unauthorized'')\<lparr>rs_headers := [(''WWW-Authenticate'', ''Basic realm=\"gearshare-internal\"''), json_type]\<rparr>, w)
         else nxt r w)"

text \<open>The gRPC side compares the whole trimmed header with the expected one; \<open>enc\<close> is padded
  base64. \<open>None\<close> is a call without metadata.\<close>

definition grpc_space :: "char \<Rightarrow> bool" where
  "grpc_space c \<longleftrightarrow> (of_char c :: nat) \<in> {9, 10, 11, 12, 13, 32}"

definition TrimSpace :: "string \<Rightarrow> string" where
  "TrimSpace s = rev (dropWhile grpc_space (rev (dropWhile grpc_space s)))"

definition basic_credential :: "(string \<Rightarrow> string) \<Rightarrow> string \<Rightarrow> string \<Rightarrow> string" where
  "basic_credential enc username password = ''Basic '' @ enc (username @ '':'' @ password)"

definition BasicAuthInterceptor ::
  "(string \<Rightarrow> string) \<Rightarrow> string \<Rightarrow> string \<Rightarrow> (string list option \<Rightarrow> gerr + 'a) \<Rightarrow> string list option \<Rightarrow> gerr + 'a" where
  "BasicAuthInterceptor enc username password handler md =
     (case md of
        None \<Rightarrow> Inl (OtherErr ''Unauthenticated: missing metadata'')
      | Some values \<Rightarrow>
          if values = [] \<or> TrimSpace (hd values) \<noteq> basic_credential enc username password
          then Inl (OtherErr ''Unauthenticated: invalid credentials'')
          else handler md)"

definition BasicAuthClientInterceptor ::
  "(string \<Rightarrow> string) \<Rightarrow> string \<Rightarrow> string \<Rightarrow> (string list option \<Rightarrow> 'b) \<Rightarrow> string list option \<Rightarrow> 'b" where
  "BasicAuthClientInterceptor enc username password invoker md =
     invoker (Some ((case md of None \<Rightarrow> [] | Some vs \<Rightarrow> vs) @ [basic_credential enc username password]))"

end
