(* ===== verification/AuthSpec.thy ===== *)
theory AuthSpec
  imports Auth
begin

text \<open>
  What the authentication components promise: the session cookie round trip and what a forger
  would need, the exact condition under which the CSRF guard lets a request pass, the life of an
  API key, the token middleware, and the agreement of the two sides of the internal gRPC
  credential.
\<close>

subsection \<open>Session cookie\<close>

lemma format_int_no_bar: "CHR ''|'' \<notin> set (format_int n)"
  using format_int_chars [of "CHR ''|''" n] by (auto simp: is_digit_def)

lemma payload_split: "split_n2 (CHR ''|'') (session_payload u e) = [format_int u, format_int e]"
  unfolding session_payload_def using split_n2_join [OF format_int_no_bar] by simp

lemma value_split:
  "split_n2 (CHR ''.'') (b64_encode url_alphabet p @ CHR ''.'' # s) = [b64_encode url_alphabet p, s]"
  by (rule split_n2_join [OF b64_url_no_dot])

lemma session_verifies:
  assumes "in_int64 userID" and "in_int64 (unix (issued + sm_ttl m))"
    and "map_of (rq_cookies r) ''gearshare_admin_session'' = Some (ck_value (session_cookie hmac m issued userID secure))"
  shows "session_Verify hmac m now r =
    (if unix now > unix (issued + sm_ttl m) then Inl (OtherErr ''auth: session expired'') else Inr userID)"
  using assms unfolding session_Verify_def session_cookie_def SessionCookieName_def
  by (simp add: Let_def value_split payload_split b64_decode_encode parse_int64_format_int)

text \<open>A session cookie issued for a user identifies exactly that user until its
  expiry second, and is refused as expired afterwards, whatever the HMAC and the secret are.\<close>

theorem session_roundtrip:
  assumes "in_int64 userID" and "in_int64 (unix (issued + sm_ttl m))"
    and "map_of (rq_cookies r) ''gearshare_admin_session'' = Some (ck_value (session_cookie hmac m issued userID secure))"
  shows "session_Verify hmac m now r =
    (if unix now > unix (issued + sm_ttl m) then Inl (OtherErr ''auth: session expired'') else Inr userID)"
  by (rule session_verifies [OF assms])

definition sample_session_req :: "string \<Rightarrow> http_req" where
  "sample_session_req v = \<lparr>rq_method = ''POST'', rq_id = '''', rq_query = [], rq_headers = [],
     rq_cookies = [(''gearshare_admin_session'', v), (''gearshare_csrf_token'', '''')], rq_form = Some [],
     rq_remote = '''', rq_claims = None\<rparr>"

theorem session_roundtrip_witness:
  "let m = \<lparr>sm_secret = ''k'', sm_ttl = 3600 * second\<rparr>;
       c = session_cookie (\<lambda>k p. k @ p) m (100 * second) 42 True
   in session_Verify (\<lambda>k p. k @ p) m (200 * second) (sample_session_req (ck_value c)) = Inr 42"
proof -
  have "unix (200 * second) \<le> unix (100 * second + 3600 * second)" by (simp add: unix_def second_def)
  moreover have "in_int64 42" "in_int64 (unix (100 * second + 3600 * second))"
    by (simp_all add: int64_defs unix_def second_def)
  ultimately show ?thesis
    using session_roundtrip [of 42 "100 * second" "\<lparr>sm_secret = ''k'', sm_ttl = 3600 * second\<rparr>"
        "sample_session_req (ck_value (session_cookie (\<lambda>k p. k @ p) \<lparr>sm_secret = ''k'', sm_ttl = 3600 * second\<rparr> (100 * second) 42 True))"
        "\<lambda>k p. k @ p" True "200 * second"]
    by (simp add: sample_session_req_def Let_def)
qed



subsection \<open>CSRF\<close>

text \<open>A request that may change state passes the CSRF guard exactly when it carries
  the CSRF cookie and its form field has the same value; every other one is refused with 400 or
  403 and reaches no handler. An empty cookie value counts as a token.\<close>

theorem csrf_guard_exact:
  "(if rq_method r \<in> {''GET'', ''HEAD''}
       \<or> (\<exists>form tok. rq_form r = Some form \<and> map_of (rq_cookies r) ''gearshare_csrf_token'' = Some tok
            \<and> field form ''csrf_token'' = tok)
    then RequireCSRF nxt r w = nxt r w
    else rs_status (fst (RequireCSRF nxt r w)) \<in> {400, 403} \<and> snd (RequireCSRF nxt r w) = w)
   \<and> RequireCSRF nxt (sample_session_req v) w = nxt (sample_session_req v) w"
  by (auto simp: RequireCSRF_def CSRFCookieName_def CSRFFormField_def plain_error_def sample_session_req_def field_def
      split: option.splits)

subsection \<open>API keys\<close>

text \<open>A key generated and stored for a partner authenticates that partner: a
  request carrying it reaches the handler with the stored label, and any other key reaches it
  only if its peppered SHA-256 is the same or another active key has that digest; a key whose
  digest is not stored is refused with 401.\<close>

theorem created_key_authenticates:
  assumes "apikey_Generate sha pepper (Inr buf) = Inr (raw, h)"
    and "faults w = []" and "replica w = None" and "apikey_Create label h w = (Inr (), w1)"
    and "field (rq_headers r) ''Authorization'' = ''ApiKey '' @ key"
    and "h \<notin> ak_hash ` set (t_apikeys (primary w))"
  shows "(key = raw \<longrightarrow> RequireAPIKey sha pepper nxt r w1 = nxt label r (w1\<lparr>queries := Suc (queries w1)\<rparr>))
    \<and> (apikey_hash sha pepper key \<notin> ak_hash ` set (t_apikeys (primary w1)) \<longrightarrow>
         rs_status (fst (RequireAPIKey sha pepper nxt r w1)) = 401)"
proof -
  have raw: "raw = ''gsk_'' @ b64_encode url_alphabet buf" "h = apikey_hash sha pepper raw"
    using assms(1) by (auto simp: apikey_Generate_def Let_def)
  have "sql_exec (insert_apikey label h) w = (Inr (), w1)"
    using assms(4) unfolding apikey_Create_def by (auto elim: map_err.elims)
  then have w1: "faults w1 = []" "replica w1 = None"
      "primary w1 = (primary w)\<lparr>t_apikeys := t_apikeys (primary w) @ [\<lparr>ak_label = label, ak_hash = h, ak_revoked = None\<rparr>]\<rparr>"
    using assms(2,3,6) by (auto simp: insert_apikey_def sql_exec_works split: if_splits)
  have rd: "reader w1 = primary w1" using w1(2) by (simp add: reader_def)
  have none: "find (\<lambda>k. ak_hash k = h \<and> ak_revoked k = None) (t_apikeys (primary w)) = None"
    using assms(6) by (auto simp: find_None_iff)
  have act: "active_label h (primary w1) = Some label"
    by (simp add: active_label_def w1(3) find_append none)
  have find: "FindActiveByHash x w1 = ((case active_label x (primary w1) of None \<Rightarrow> Inl ErrAPIKeyNotFound | Some l \<Rightarrow> Inr l),
      w1\<lparr>queries := Suc (queries w1)\<rparr>)" for x
    using w1(1) by (simp add: FindActiveByHash_def or_no_rows_def rd ErrNoRows_def split: option.splits)
  have miss: "active_label x (primary w1) = None" if "x \<notin> ak_hash ` set (t_apikeys (primary w1))" for x
    using that by (auto simp: active_label_def find_None_iff)
  show ?thesis
    using raw act miss find by (simp add: RequireAPIKey_def assms(5))
qed

theorem created_key_authenticates_witness:
  "\<exists>w1. rs_status (fst (RequireAPIKey id ''pepper'' (\<lambda>l r w. (Error 200 l, w))
     ((sample_session_req '''')\<lparr>rq_headers := [(''Authorization'', ''ApiKey gsk_YQ'')]\<rparr>) w1)) = 200"
proof -
  define t where "t = \<lparr>t_users = [], t_oauth = [], t_apikeys = [], t_categories = [], t_listings = [],
     t_bookings = [], t_blocks = [], t_reviews = []\<rparr>"
  define w where "w = \<lparr>primary = t, replica = None, counters_of = (\<lambda>_. 1), faults = [], clock = 0, jitter = [],
     queries = 0, retries = 0, effects = [], redis = (\<lambda>_. None), email_key = id, row_rank = id\<rparr>"
  define h where "h = apikey_hash id ''pepper'' ''gsk_YQ''"
  have "b64_encode url_alphabet ''a'' = ''YQ''" by code_simp
  then have g: "apikey_Generate id ''pepper'' (Inr ''a'') = Inr (''gsk_YQ'', h)"
    by (simp add: apikey_Generate_def h_def Let_def)
  obtain w1 where c: "apikey_Create ''acme'' h w = (Inr (), w1)"
    by (simp add: apikey_Create_def sql_exec_works insert_apikey_def w_def t_def)
  have f: "faults w = []" "replica w = None" "h \<notin> ak_hash ` set (t_apikeys (primary w))" by (simp_all add: w_def t_def)
  have a: "field (rq_headers ((sample_session_req '''')\<lparr>rq_headers := [(''Authorization'', ''ApiKey gsk_YQ'')]\<rparr>)) ''Authorization''
      = ''ApiKey '' @ ''gsk_YQ''" by (simp add: field_def)
  show ?thesis
    using created_key_authenticates [OF g f(1,2) c a f(3), of "\<lambda>l r w. (Error 200 l, w)"]
    by (intro exI [of _ w1]) simp
qed

subsection \<open>Access tokens\<close>

text \<open>The documented behaviour of the JWT library the middleware relies on: a signed token parses
  back to its claims while it has not expired, provided the key function returns the signing key.\<close>

definition jwt_contract :: "jwt_lib \<Rightarrow> bool" where
  "jwt_contract L \<longleftrightarrow> (\<forall>secret cl now kf tok. SignedString L secret cl = Inr tok \<longrightarrow> kf ''HS256'' = Inr secret \<longrightarrow>
     tok \<noteq> '''' \<and> ParseWithClaims L now kf tok
       = (if now < jc_expires cl then Inr (cl, True) else Inl (OtherErr ''token is expired'')))"

text \<open>Until its expiry second, a token issued for a user reaches the handler with
  exactly that user and role in the context; from then on, and for any request whose header is
  not a bearer token, the answer is 401 and the handler is not called.\<close>

theorem jwt_middleware:
  assumes "jwt_contract L" and "IssueAccessToken L j issued userID role = Inr tok"
    and "field (rq_headers r) ''Authorization'' = ''Bearer '' @ tok"
    and "cut_prefix ''Bearer '' (field (rq_headers r') ''Authorization'') = None"
  shows "RequireJWT L j nxt r w =
    (if clock w < unix (issued + ji_ttl j) * second
     then nxt (r\<lparr>rq_claims := Some \<lparr>cl_user = userID, cl_role = role\<rparr>\<rparr>) w
     else (Error 401 ''invalid or expired token'', w))
    \<and> RequireJWT L j nxt r' w = (Error 401 ''missing bearer token'', w)"
proof -
  have k: "jwt_keyfunc j ''HS256'' = Inr (ji_secret j)" by (simp add: jwt_keyfunc_def hmac_methods_def)
  have p: "tok \<noteq> ''''" "ParseWithClaims L (clock w) (jwt_keyfunc j) tok
      = (if clock w < unix (issued + ji_ttl j) * second
         then Inr (\<lparr>jc_user = userID, jc_role = role, jc_issuer = ''gearshare-api'',
            jc_issued = unix issued * second, jc_expires = unix (issued + ji_ttl j) * second\<rparr>, True)
         else Inl (OtherErr ''token is expired''))"
    using assms(1,2) k unfolding jwt_contract_def IssueAccessToken_def by fastforce+
  have "cut_prefix ''Bearer '' (''Bearer '' @ tok) = Some tok" by (rule cut_prefix_append)
  then show ?thesis
    using p assms(4) unfolding RequireJWT_def assms(3) by (simp add: jwt_Verify_def)
qed

text \<open>A library that knows one token, enough to exercise the middleware.\<close>

definition one_user_jwt :: "jwt_claims \<Rightarrow> jwt_lib" where
  "one_user_jwt c = \<lparr>SignedString = (\<lambda>s c'. if c' = c then Inr ''t'' else Inl (OtherErr ''no'')),
     ParseWithClaims = (\<lambda>now kf tok. if now < jc_expires c then Inr (c, True) else Inl (OtherErr ''token is expired''))\<rparr>"

theorem jwt_middleware_witness:
  "let c = \<lparr>jc_user = 7, jc_role = ''owner'', jc_issuer = ''gearshare-api'', jc_issued = 0, jc_expires = 900 * second\<rparr>;
       r = (sample_session_req '''')\<lparr>rq_headers := [(''Authorization'', ''Bearer t'')]\<rparr>
   in RequireJWT (one_user_jwt c) \<lparr>ji_secret = ''s'', ji_ttl = 900 * second\<rparr> (\<lambda>r w. (Error (cl_user (the (rq_claims r))) '''', w)) r
      = (\<lambda>w. if clock w < 900 * second then (Error 7 '''', w) else (Error 401 ''invalid or expired token'', w))"
proof -
  let ?c = "\<lparr>jc_user = 7, jc_role = ''owner'', jc_issuer = ''gearshare-api'', jc_issued = 0, jc_expires = 900 * second\<rparr>"
  have k: "jwt_contract (one_user_jwt ?c)"
    by (auto simp: jwt_contract_def one_user_jwt_def split: if_splits)
  have i: "IssueAccessToken (one_user_jwt ?c) \<lparr>ji_secret = ''s'', ji_ttl = 900 * second\<rparr> 0 7 ''owner'' = Inr ''t''"
    by (simp add: IssueAccessToken_def one_user_jwt_def unix_def second_def)
  have "unix (900 * second) = 900" by (simp add: unix_def second_def)
  then show ?thesis
    using jwt_middleware [OF k i, of "(sample_session_req '''')\<lparr>rq_headers := [(''Authorization'', ''Bearer t'')]\<rparr>" "sample_session_req ''''"]
    by (simp add: field_def sample_session_req_def Let_def fun_eq_iff)
qed

subsection \<open>Internal gRPC\<close>

lemma TrimSpace_id:
  "s \<noteq> [] \<Longrightarrow> \<not> grpc_space (hd s) \<Longrightarrow> \<not> grpc_space (last s) \<Longrightarrow> TrimSpace s = s"
proof -
  assume "s \<noteq> []" "\<not> grpc_space (hd s)" "\<not> grpc_space (last s)"
  then have "dropWhile grpc_space s = s" "dropWhile grpc_space (rev s) = rev s"
    by (simp_all add: dropWhile_eq_self_iff hd_rev)
  then show ?thesis by (simp add: TrimSpace_def)
qed

text \<open>With a base64 encoder that emits no white space, the server-side interceptor
  accepts a call made through the client-side one exactly when both encode the same
  \<open>user:password\<close> text; otherwise the call is unauthenticated and the handler does not run.\<close>

theorem grpc_credentials_agree:
  assumes "\<And>s. \<forall>c\<in>set (enc s). \<not> grpc_space c" and "\<And>s. enc s \<noteq> ''''"
  shows "BasicAuthClientInterceptor enc cu cp (BasicAuthInterceptor enc su sp h) None =
    (if enc (cu @ '':'' @ cp) = enc (su @ '':'' @ sp) then h (Some [basic_credential enc cu cp])
     else Inl (OtherErr ''Unauthenticated: invalid credentials''))"
proof -
  have "last (basic_credential enc cu cp) = last (enc (cu @ '':'' @ cp))"
    using assms(2) [of "cu @ '':'' @ cp"] by (simp add: basic_credential_def)
  moreover have "\<not> grpc_space (last (enc (cu @ '':'' @ cp)))" using assms by (meson last_in_set)
  moreover have "\<not> grpc_space (CHR ''B'')" by code_simp
  ultimately have "TrimSpace (basic_credential enc cu cp) = basic_credential enc cu cp"
    by (intro TrimSpace_id) (simp_all add: basic_credential_def)
  then show ?thesis
    by (simp add: BasicAuthClientInterceptor_def BasicAuthInterceptor_def) (simp add: basic_credential_def)
qed

theorem grpc_credentials_agree_witness:
  "BasicAuthClientInterceptor (\<lambda>s. CHR ''x'' # hex_encode s) ''admin'' ''pw''
     (BasicAuthInterceptor (\<lambda>s. CHR ''x'' # hex_encode s) ''admin'' ''other'' (\<lambda>_. Inr True)) None
   = Inl (OtherErr ''Unauthenticated: invalid credentials'')"
proof -
  have h: "\<not> grpc_space (hex_digit n)" if "n < 16" for n
    using that by (auto simp: grpc_space_def hex_digit_def)
  have "\<forall>c\<in>set (hex_encode s). \<not> grpc_space c" for s
    by (induction s) (auto intro!: h simp: byte_nibble)
  moreover have "\<not> grpc_space (CHR ''x'')" by code_simp
  ultimately show ?thesis
    using grpc_credentials_agree [of "\<lambda>s. CHR ''x'' # hex_encode s" "''admin''" "''pw''" "''admin''" "''other''" "\<lambda>_. Inr True"]
    by (simp add: hex_encode_inj del: hex_encode.simps)
qed

end
