(* ===== verification/Passwords.thy ===== *)
theory Passwords
  imports GoBytes Prelude
begin

text \<open>
  \<open>internal/auth/password_bcrypt.go\<close> and \<open>password_scrypt.go\<close>: the two implementations of
  \<open>user.PasswordHasher\<close>. The key derivation functions of the libraries are arguments. The
  interface the user service relies on is the locale \<open>password_hasher\<close>; both hashers are
  instances of it.
\<close>

subsection \<open>bcrypt\<close>

definition MinCost :: int where "MinCost = 4"
definition MaxCost :: int where "MaxCost = 31"
definition DefaultCost :: int where "DefaultCost = 10"

record bcrypt_hasher = Cost :: int

definition NewBcryptHasher :: "int \<Rightarrow> bcrypt_hasher" where
  "NewBcryptHasher cost = \<lparr>Cost = (if cost < MinCost \<or> cost > MaxCost then DefaultCost else cost)\<rparr>"

definition bcrypt_Hash :: "(string \<Rightarrow> string \<Rightarrow> int \<Rightarrow> gerr + string) \<Rightarrow> bcrypt_hasher \<Rightarrow> string \<Rightarrow> string \<Rightarrow> gerr + string" where
  "bcrypt_Hash generate h salt password =
     (case generate salt password (Cost h) of Inl e \<Rightarrow> Inl e | Inr hash \<Rightarrow> Inr hash)"

definition bcrypt_Verify :: "(string \<Rightarrow> string \<Rightarrow> gerr option) \<Rightarrow> bcrypt_hasher \<Rightarrow> string \<Rightarrow> string \<Rightarrow> bool" where
  "bcrypt_Verify compare h password hash \<longleftrightarrow> compare hash password = None"

subsection \<open>Splitting and scanning\<close>

text \<open>\<open>strings.Split\<close> at a one-character separator, and the scan of three decimal numbers by
  \<open>Sscanf("%d %d %d")\<close> (spaces are blanks, tabs and carriage returns; input that is left over is
  ignored).\<close>

fun split_all :: "char \<Rightarrow> string \<Rightarrow> string list" where
  "split_all sep [] = [[]]"
| "split_all sep (c # cs) =
     (if c = sep then [] # split_all sep cs
      else case split_all sep cs of [] \<Rightarrow> [[c]] | p # ps \<Rightarrow> (c # p) # ps)"

definition is_blank :: "char \<Rightarrow> bool" where
  "is_blank c \<longleftrightarrow> c = CHR '' '' \<or> c = CHR 0x09 \<or> c = CHR 0x0D"

definition scan_d :: "string \<Rightarrow> (int \<times> string) option" where
  "scan_d s =
     (let s1 = dropWhile is_blank s;
          sg = (case s1 of c # cs \<Rightarrow> if c = CHR ''+'' \<or> c = CHR ''-'' then [c] else [] | [] \<Rightarrow> []);
          s2 = drop (length sg) s1;
          ds = takeWhile is_digit s2
      in if ds = [] then None
         else case parse_int64 (sg @ ds) of Inl e \<Rightarrow> None | Inr n \<Rightarrow> Some (n, dropWhile is_digit s2))"

definition scan_blank :: "string \<Rightarrow> string option" where
  "scan_blank s = (case s of [] \<Rightarrow> Some [] | c # cs \<Rightarrow> if is_blank c then Some (dropWhile is_blank cs) else None)"

definition scan_3d :: "string \<Rightarrow> (int \<times> int \<times> int) option" where
  "scan_3d s =
     (case scan_d s of None \<Rightarrow> None | Some (a, s1) \<Rightarrow>
      case scan_blank s1 of None \<Rightarrow> None | Some s2 \<Rightarrow>
      case scan_d s2 of None \<Rightarrow> None | Some (b, s3) \<Rightarrow>
      case scan_blank s3 of None \<Rightarrow> None | Some s4 \<Rightarrow>
      case scan_d s4 of None \<Rightarrow> None | Some (c, s5) \<Rightarrow> Some (a, b, c))"

lemma split_all_nonempty [simp]: "split_all sep s \<noteq> []"
  by (induction s) (auto split: list.splits)

lemma split_all_join:
  "sep \<notin> set a \<Longrightarrow> split_all sep (a @ sep # b) = a # split_all sep b"
  by (induction a) auto

lemma split_all_last: "sep \<notin> set a \<Longrightarrow> split_all sep a = [a]"
  by (induction a) auto

lemma takeWhile_digits: "takeWhile is_digit (dec n @ s) = dec n @ takeWhile is_digit s"
  "dropWhile is_digit (dec n @ s) = dropWhile is_digit s"
  by (auto simp: takeWhile_append2 dropWhile_append2 dec_digits)

lemma dec_head: "\<exists>c cs. dec n = c # cs \<and> is_digit c"
  using dec_nonempty [of n] dec_digits [of _ n] by (cases "dec n") auto

lemma digit_not_blank: "is_digit c \<Longrightarrow> \<not> is_blank c \<and> c \<noteq> CHR ''+'' \<and> c \<noteq> CHR ''-'' \<and> c \<noteq> CHR ''$''"
  by (auto simp: is_digit_def is_blank_def)

lemma scan_d_dec:
  assumes "n < 2 ^ 63" and "rest = [] \<or> \<not> is_digit (hd rest)"
  shows "scan_d (dec n @ rest) = Some (int n, rest)"
proof -
  obtain c cs where c: "dec n = c # cs" "is_digit c" using dec_head by blast
  have "takeWhile is_digit rest = []" "dropWhile is_digit rest = rest"
    using assms(2) by (cases rest; simp)+
  moreover have "format_int (int n) = dec n" by (simp add: format_int_def)
  then have "parse_int64 (dec n) = Inr (int n)"
    using parse_int64_format_int [of "int n"] assms(1) by (simp add: int64_defs)
  moreover have "dropWhile is_blank (dec n @ rest) = dec n @ rest" using c digit_not_blank by simp
  ultimately show ?thesis
    using c digit_not_blank [of c] takeWhile_digits [of n rest] by (simp add: scan_d_def Let_def)
qed

lemma scan_3d_dec:
  assumes "a < 2 ^ 63" and "b < 2 ^ 63" and "c < 2 ^ 63"
  shows "scan_3d (dec a @ '' '' @ dec b @ '' '' @ dec c) = Some (int a, int b, int c)"
proof -
  have sp: "scan_blank (CHR '' '' # dec k @ s) = Some (dec k @ s)" for k s
    using dec_head [of k] digit_not_blank by (auto simp: scan_blank_def is_blank_def)
  have nd: "\<not> is_digit (CHR '' '')" by (simp add: is_digit_def)
  show ?thesis
    using scan_d_dec [OF assms(1), of "CHR '' '' # dec b @ CHR '' '' # dec c"]
      scan_d_dec [OF assms(2), of "CHR '' '' # dec c"] scan_d_dec [OF assms(3), of "[]"]
      sp [of b "CHR '' '' # dec c"] sp [of c "[]"] nd
    by (simp add: scan_3d_def)
qed

subsection \<open>scrypt\<close>

record scrypt_hasher =
  sN :: int
  sR :: int
  sP :: int
  sKeyLen :: int

definition NewScryptHasher :: scrypt_hasher where
  "NewScryptHasher = \<lparr>sN = 32768, sR = 8, sP = 1, sKeyLen = 32\<rparr>"

type_synonym kdf = "string \<Rightarrow> string \<Rightarrow> int \<Rightarrow> int \<Rightarrow> int \<Rightarrow> int \<Rightarrow> gerr + string"

definition scrypt_Hash :: "kdf \<Rightarrow> scrypt_hasher \<Rightarrow> string \<Rightarrow> string \<Rightarrow> gerr + string" where
  "scrypt_Hash kdf h salt password =
     (case kdf password salt (sN h) (sR h) (sP h) (sKeyLen h) of
        Inl e \<Rightarrow> Inl (Wrapped ''scrypt: derive key'' e)
      | Inr k \<Rightarrow> Inr (''$scrypt$'' @ format_int (sN h) @ ''$'' @ format_int (sR h) @ ''$'' @ format_int (sP h)
          @ ''$'' @ b64_encode std_alphabet salt @ ''$'' @ b64_encode std_alphabet k))"

definition scrypt_Verify :: "kdf \<Rightarrow> string \<Rightarrow> string \<Rightarrow> bool" where
  "scrypt_Verify kdf password encoded =
     (let parts = split_all (CHR ''$'') encoded
      in if length parts \<noteq> 7 \<or> parts ! 1 \<noteq> ''scrypt'' then False
         else case scan_3d (parts ! 2 @ '' '' @ parts ! 3 @ '' '' @ parts ! 4) of
           None \<Rightarrow> False
         | Some (n, r, p) \<Rightarrow>
         (case b64_decode std_alphabet (parts ! 5) of
           None \<Rightarrow> False
         | Some salt \<Rightarrow>
         (case b64_decode std_alphabet (parts ! 6) of
           None \<Rightarrow> False
         | Some want \<Rightarrow>
         (case kdf password salt n r p (int (length want)) of
           Inl e \<Rightarrow> False
         | Inr got \<Rightarrow> ct_compare got want = 1))))"

lemma b64_std_no_dollar: "CHR ''$'' \<notin> set (b64_encode std_alphabet s)"
proof
  assume "CHR ''$'' \<in> set (b64_encode std_alphabet s)"
  then obtain n where n: "n < 64" "CHR ''$'' = b64_char std_alphabet n" using b64_encode_in by blast
  have "(of_char (CHR ''$'') :: nat) = 36" by code_simp
  with n show False using b64_code_range(1) [of std_alphabet n] of_char_b64_char [of std_alphabet n] by simp
qed

lemma dec_no_dollar: "CHR ''$'' \<notin> set (dec n)"
  using dec_digits [of "CHR ''$''" n] digit_not_blank by blast

text \<open>A stored hash splits into its seven parts and scans back to the parameters.\<close>

lemma scrypt_parts:
  "split_all (CHR ''$'') (''$scrypt$'' @ dec n @ ''$'' @ dec r @ ''$'' @ dec p
      @ ''$'' @ b64_encode std_alphabet s @ ''$'' @ b64_encode std_alphabet k)
    = [[], ''scrypt'', dec n, dec r, dec p, b64_encode std_alphabet s, b64_encode std_alphabet k]"
  by (simp add: split_all_join split_all_last dec_no_dollar b64_std_no_dollar)

subsection \<open>The interface\<close>

text \<open>
  \<open>user.PasswordHasher\<close>: what \<open>hash\<close> returns for a password and fresh random bytes is accepted
  by \<open>verify\<close> for that password, on the inputs \<open>good\<close> for which the library keeps its word.
\<close>

locale password_hasher =
  fixes hash :: "string \<Rightarrow> string \<Rightarrow> gerr + string"
    and verify :: "string \<Rightarrow> string \<Rightarrow> bool"
    and good :: "string \<Rightarrow> string \<Rightarrow> bool"
  assumes verify_hash: "good salt pw \<Longrightarrow> hash salt pw = Inr h \<Longrightarrow> verify pw h"

definition bcrypt_good where
  "bcrypt_good generate compare h salt pw \<longleftrightarrow> (\<forall>s. generate salt pw (Cost h) = Inr s \<longrightarrow> compare s pw = (None :: gerr option))"

interpretation bcrypt: password_hasher "bcrypt_Hash generate h" "bcrypt_Verify compare h" "bcrypt_good generate compare h"
  for generate compare h
  by unfold_locales (auto simp: bcrypt_Hash_def bcrypt_Verify_def bcrypt_good_def split: sum.splits)

definition scrypt_params_ok :: "scrypt_hasher \<Rightarrow> bool" where
  "scrypt_params_ok h \<longleftrightarrow> 0 \<le> sN h \<and> sN h < 2 ^ 63 \<and> 0 \<le> sR h \<and> sR h < 2 ^ 63 \<and> 0 \<le> sP h \<and> sP h < 2 ^ 63"

definition scrypt_good :: "kdf \<Rightarrow> scrypt_hasher \<Rightarrow> string \<Rightarrow> string \<Rightarrow> bool" where
  "scrypt_good kdf h salt pw \<longleftrightarrow> scrypt_params_ok h
     \<and> (\<forall>k. kdf pw salt (sN h) (sR h) (sP h) (sKeyLen h) = Inr k \<longrightarrow> int (length k) = sKeyLen h)"

lemma scrypt_verify_hash:
  assumes "scrypt_good kdf h salt pw" and "scrypt_Hash kdf h salt pw = Inr s"
  shows "scrypt_Verify kdf pw s"
proof -
  obtain k where k: "kdf pw salt (sN h) (sR h) (sP h) (sKeyLen h) = Inr k"
    using assms(2) by (auto simp: scrypt_Hash_def split: sum.splits)
  have len: "int (length k) = sKeyLen h" using assms(1) k by (simp add: scrypt_good_def)
  obtain n r p where p: "sN h = int n" "sR h = int r" "sP h = int p" "n < 2 ^ 63" "r < 2 ^ 63" "p < 2 ^ 63"
    using assms(1) unfolding scrypt_good_def scrypt_params_ok_def
    by (auto simp: zless_iff_Suc_zadd elim!: nonneg_eq_int)
  have s: "s = ''$scrypt$'' @ dec n @ ''$'' @ dec r @ ''$'' @ dec p
      @ ''$'' @ b64_encode std_alphabet salt @ ''$'' @ b64_encode std_alphabet k"
    using assms(2) k by (simp add: scrypt_Hash_def p format_int_def)
  show ?thesis
    unfolding scrypt_Verify_def s scrypt_parts
    using scan_3d_dec [OF p(4-6)] k len by (simp add: Let_def b64_decode_encode p)
qed

interpretation scrypt: password_hasher "scrypt_Hash kdf h" "scrypt_Verify kdf" "scrypt_good kdf h" for kdf h
  by unfold_locales (rule scrypt_verify_hash)

end
