(* ===== verification/Users.thy ===== *)
theory Users
  imports Auth Passwords
begin

text \<open>
  \<open>internal/user\<close> and the two halves of "Log in with Google" (\<open>oauth_google.go\<close>, \<open>oidc.go\<close>): the
  repository, registration and login, their HTTP operations, and the OAuth callback that links
  or creates a local user inside a transaction.
\<close>

subsection \<open>Repository\<close>

definition user_ErrNotFound :: gerr where "user_ErrNotFound = Sentinel ''user: not found''"
definition ErrEmailTaken :: gerr where "ErrEmailTaken = Sentinel ''user: email already registered''"

definition RoleRenter :: string where "RoleRenter = ''renter''"
definition RoleOwner :: string where "RoleOwner = ''owner''"
definition RoleAdmin :: string where "RoleAdmin = ''admin''"
definition PasswordAlgoBcrypt :: string where "PasswordAlgoBcrypt = ''bcrypt''"

definition isDuplicateKey :: "gerr \<Rightarrow> bool" where
  "isDuplicateKey e = contains (err_text e) ''Duplicate entry''"

definition user_Create :: "user \<Rightarrow> world \<Rightarrow> (gerr + int) \<times> world" where
  "user_Create u w = map_err (\<lambda>e. if isDuplicateKey e then ErrEmailTaken else Wrapped ''user: create'' e)
     (sql_exec (insert_user (email_key w) u) w)"

definition user_get :: "string \<Rightarrow> (tables \<Rightarrow> user option) \<Rightarrow> world \<Rightarrow> (gerr + user) \<times> world" where
  "user_get column q w = map_err (not_found_or user_ErrNotFound (''user: get by '' @ column)) (sql_get q w)"

definition user_by_email :: "(string \<Rightarrow> string) \<Rightarrow> string \<Rightarrow> tables \<Rightarrow> user option" where
  "user_by_email ck email t = find (\<lambda>u. ck (us_email u) = ck email) (t_users t)"

definition user_by_id :: "int \<Rightarrow> tables \<Rightarrow> user option" where
  "user_by_id i t = find (\<lambda>u. us_id u = i) (t_users t)"

definition user_GetByEmail :: "string \<Rightarrow> world \<Rightarrow> (gerr + user) \<times> world" where
  "user_GetByEmail email w = user_get ''email'' (user_by_email (email_key w) email) w"

definition user_GetByID :: "int \<Rightarrow> world \<Rightarrow> (gerr + user) \<times> world" where
  "user_GetByID i = user_get ''id'' (user_by_id i)"

text \<open>\<open>IN (?)\<close> over no identifiers is never sent.\<close>

definition user_GetByIDs :: "int list \<Rightarrow> world \<Rightarrow> (gerr + (int \<Rightarrow> user option)) \<times> world" where
  "user_GetByIDs ids w =
     (if ids = [] then (Inr Map.empty, w)
      else bind_res (map_err (Wrapped ''user: get by ids'')
             (sql_select (\<lambda>t. filter (\<lambda>u. us_id u \<in> set ids) (t_users t)) w))
           (\<lambda>rows w1. (Inr (foldl (\<lambda>m u. m(us_id u \<mapsto> u)) Map.empty rows), w1)))"

definition oauth_lookup :: "string \<Rightarrow> string \<Rightarrow> tables \<Rightarrow> int option" where
  "oauth_lookup provider subject t = map_option oi_user (find (\<lambda>i. oauth_key i = (provider, subject)) (t_oauth t))"

definition oauth_user :: "string \<Rightarrow> string \<Rightarrow> user" where
  "oauth_user email name = \<lparr>us_id = 0, us_email = email, us_hash = '''', us_algo = ''bcrypt'', us_name = name,
     us_role = RoleRenter, us_created = 0, us_updated = 0\<rparr>"

text \<open>\<open>ck\<close> is the collation of the email column.\<close>

definition UpsertOAuthIdentity :: "(string \<Rightarrow> string) \<Rightarrow> string \<Rightarrow> string \<Rightarrow> string \<Rightarrow> string \<Rightarrow> int txop" where
  "UpsertOAuthIdentity ck provider subject email name s =
     (case tx_get (oauth_lookup provider subject) s of
        (Inr userID, s1) \<Rightarrow> (Inr userID, s1)
      | (Inl e, s1) \<Rightarrow>
          if \<not> errors_is e ErrNoRows then (Inl (Wrapped ''user: lookup oauth identity'' e), s1)
          else bind_res (map_err (Wrapped ''user: create oauth user'')
                 (tx_exec (insert_user ck (oauth_user email name)) s1)) (\<lambda>userID s2.
               bind_res (map_err (Wrapped ''user: link oauth identity'')
                 (tx_exec (insert_oauth \<lparr>oi_user = userID, oi_provider = provider, oi_subject = subject\<rparr>) s2))
               (\<lambda>_ s3. (Inr userID, s3))))"

subsection \<open>Service\<close>

definition ErrInvalidCredentials :: gerr where
  "ErrInvalidCredentials = Sentinel ''user: invalid credentials''"

text \<open>The hasher and the token issuer the service is built with; \<open>hs_salt\<close> is the next random salt.\<close>

record user_service =
  hs_hash :: "string \<Rightarrow> string \<Rightarrow> gerr + string"
  hs_verify :: "string \<Rightarrow> string \<Rightarrow> bool"
  hs_salt :: string
  hs_jwt :: jwt_lib
  hs_issuer :: jwt_issuer

record RegisterInput =
  ri_email :: string
  ri_password :: string
  ri_name :: string
  ri_role :: string

definition Register :: "user_service \<Rightarrow> RegisterInput \<Rightarrow> world \<Rightarrow> (gerr + user \<times> string) \<times> world" where
  "Register s inp w =
     (let role = (if ri_role inp = '''' then RoleRenter else ri_role inp)
      in case hs_hash s (hs_salt s) (ri_password inp) of
           Inl e \<Rightarrow> (Inl (Wrapped ''user: hash password'' e), w)
         | Inr hash \<Rightarrow>
             let u = \<lparr>us_id = 0, us_email = ri_email inp, us_hash = hash, us_algo = PasswordAlgoBcrypt,
                      us_name = ri_name inp, us_role = role, us_created = 0, us_updated = 0\<rparr>
             in bind_res (user_Create u w) (\<lambda>i w1.
                  let u' = u\<lparr>us_id := i\<rparr>
                  in case IssueAccessToken (hs_jwt s) (hs_issuer s) (clock w1) i role of
                       Inl e \<Rightarrow> (Inl (Wrapped ''user: issue token'' e), w1)
                     | Inr token \<Rightarrow> (Inr (u', token), w1)))"

definition Login :: "user_service \<Rightarrow> string \<Rightarrow> string \<Rightarrow> world \<Rightarrow> (gerr + user \<times> string) \<times> world" where
  "Login s email password w =
     (case user_GetByEmail email w of
        (Inl e, w1) \<Rightarrow> (Inl (if errors_is e user_ErrNotFound then ErrInvalidCredentials else e), w1)
      | (Inr u, w1) \<Rightarrow>
          if \<not> hs_verify s password (us_hash u) then (Inl ErrInvalidCredentials, w1)
          else case IssueAccessToken (hs_jwt s) (hs_issuer s) (clock w1) (us_id u) (us_role u) of
                 Inl e \<Rightarrow> (Inl (Wrapped ''user: issue token'' e), w1)
               | Inr token \<Rightarrow> (Inr (u, token), w1))"

subsection \<open>HTTP\<close>

definition toAuthResponse :: "user \<times> string \<Rightarrow> json" where
  "toAuthResponse r = (case r of (u, token) \<Rightarrow> JObj
     [(''access_token'', JStr token),
      (''user'', JObj [(''id'', JNum (us_id u)), (''email'', JStr (us_email u)),
         (''display_name'', JStr (us_name u)), (''role'', JStr (us_role u))])])"

definition Register_handler :: "user_service \<Rightarrow> RegisterInput option \<Rightarrow> world \<Rightarrow> http_resp \<times> world" where
  "Register_handler s body w =
     (case body of
        None \<Rightarrow> (Error 400 ''invalid request body'', w)
      | Some req \<Rightarrow>
          if ri_email req = '''' \<or> length (ri_password req) < 8 \<or> ri_name req = ''''
          then (Error 400 ''email, display_name and a password of at least 8 characters are required'', w)
          else let role = (if ri_role req \<noteq> RoleOwner then RoleRenter else ri_role req)
               in case Register s (req\<lparr>ri_role := role\<rparr>) w of
                    (Inl e, w1) \<Rightarrow>
                      (if errors_is e ErrEmailTaken then (Error 409 ''email already registered'', w1)
                       else (Error 500 ''could not register user'', w1))
                  | (Inr r, w1) \<Rightarrow> (JSON 201 (Some (toAuthResponse r)), w1))"

definition Login_handler :: "user_service \<Rightarrow> (string \<times> string) option \<Rightarrow> world \<Rightarrow> http_resp \<times> world" where
  "Login_handler s body w =
     (case body of
        None \<Rightarrow> (Error 400 ''invalid request body'', w)
      | Some (email, password) \<Rightarrow>
     (case Login s email password w of
        (Inl e, w1) \<Rightarrow>
          (if errors_is e ErrInvalidCredentials then (Error 401 ''invalid email or password'', w1)
           else (Error 500 ''could not log in'', w1))
      | (Inr r, w1) \<Rightarrow> (JSON 200 (Some (toAuthResponse r)), w1)))"

subsection \<open>Log in with Google\<close>

text \<open>
  Google is reached through arguments: the code exchange gives an optional id_token, the
  verifier checks a raw id_token and gives its claims.
\<close>

record identity_claims =
  ic_subject :: string
  ic_email :: string
  ic_verified :: bool
  ic_name :: string

record google_lib =
  gl_auth_url :: "string \<Rightarrow> string"
  gl_exchange :: "string \<Rightarrow> gerr + string option"
  gl_verify :: "string \<Rightarrow> gerr + identity_claims"

definition GenerateState :: "gerr + string \<Rightarrow> gerr + string" where
  "GenerateState rnd = (case rnd of Inl e \<Rightarrow> Inl e | Inr buf \<Rightarrow> Inr (b64_encode url_alphabet buf))"

definition Exchange :: "google_lib \<Rightarrow> string \<Rightarrow> gerr + string option" where
  "Exchange g code = (case gl_exchange g code of Inl e \<Rightarrow> Inl (Wrapped ''oauth: exchange code'' e) | Inr t \<Rightarrow> Inr t)"

definition VerifyIDToken :: "google_lib \<Rightarrow> string \<Rightarrow> gerr + identity_claims" where
  "VerifyIDToken g raw =
     (case gl_verify g raw of
        Inl e \<Rightarrow> Inl (Wrapped ''oidc: verify id_token'' e)
      | Inr cl \<Rightarrow> if \<not> ic_verified cl then Inl (OtherErr ''oidc: email not verified by identity provider'') else Inr cl)"

record oauth_handler =
  oh_google :: google_lib
  oh_jwt :: jwt_lib
  oh_issuer :: jwt_issuer
  oh_secure :: bool
  oh_redirect :: string

definition oauthStateCookie :: string where "oauthStateCookie = ''gearshare_oauth_state''"

definition state_cookie :: "oauth_handler \<Rightarrow> string \<Rightarrow> int \<Rightarrow> cookie" where
  "state_cookie h v maxage = \<lparr>ck_name = oauthStateCookie, ck_value = v, ck_path = ''/'', ck_httponly = True,
     ck_secure = oh_secure h, ck_expires = None, ck_maxage = maxage\<rparr>"

definition oauth_Start :: "oauth_handler \<Rightarrow> gerr + string \<Rightarrow> handler" where
  "oauth_Start h rnd r w =
     (case GenerateState rnd of
        Inl e \<Rightarrow> (Error 500 ''could not start oauth flow'', w)
      | Inr state \<Rightarrow> (set_cookie (state_cookie h state 300) (Redirect 302 (gl_auth_url (oh_google h) state)), w))"

definition oauth_Callback :: "oauth_handler \<Rightarrow> handler" where
  "oauth_Callback h r w =
     (case map_of (rq_cookies r) oauthStateCookie of
        None \<Rightarrow> (Error 400 ''invalid oauth state'', w)
      | Some st \<Rightarrow>
      if field (rq_query r) ''state'' \<noteq> st then (Error 400 ''invalid oauth state'', w)
      else (case Exchange (oh_google h) (field (rq_query r) ''code'') of
        Inl e \<Rightarrow> (Error 502 ''oauth code exchange failed'', w)
      | Inr None \<Rightarrow> (Error 502 ''no id_token in oauth response'', w)
      | Inr (Some raw) \<Rightarrow>
      (case VerifyIDToken (oh_google h) raw of
        Inl e \<Rightarrow> (Error 401 ''id_token verification failed'', w)
      | Inr cl \<Rightarrow>
      (case WithinTransaction (UpsertOAuthIdentity (email_key w) ''google'' (ic_subject cl) (ic_email cl) (ic_name cl)) w of
        (Inl e, w1) \<Rightarrow> (Error 500 ''could not complete oauth login'', w1)
      | (Inr userID, w1) \<Rightarrow>
      (case user_GetByID userID w1 of
        (Inl e, w2) \<Rightarrow> (Error 500 ''could not load oauth user'', w2)
      | (Inr u, w2) \<Rightarrow>
      (case IssueAccessToken (oh_jwt h) (oh_issuer h) (clock w2) (us_id u) (us_role u) of
        Inl e \<Rightarrow> (Error 500 ''could not issue token'', w2)
      | Inr token \<Rightarrow> (set_cookie (state_cookie h '''' (- 1))
          (Redirect 302 (oh_redirect h @ ''?access_token='' @ token)), w2)))))))"

end
