(* ===== verification/UserSpec.thy ===== *)
theory UserSpec
  imports Users Samples
begin

text \<open>
  What the user component promises: a registered user can log in with the same password, a
  registration creates at most one user and never an administrator, a failed login does not
  reveal whether the email is known, and "Log in with Google" links one local user per subject.
\<close>

subsection \<open>Registration\<close>

lemma user_Create_cases:
  assumes "user_Create u w = (r, w')"
  obtains (same) e where "r = Inl e" "primary w' = primary w" "counters_of w' = counters_of w" "same_env w w'"
  | (ran) r0 t' ai' where "insert_user (email_key w) u (clock w) (primary w) (counters_of w) = (r0, t', ai')"
      "primary w' = t'" "counters_of w' = ai'" "same_env w w'" "clock w' = clock w" "\<forall>i. r = Inr i \<longrightarrow> r0 = Inr i"
proof -
  obtain r1 where e: "sql_exec (insert_user (email_key w) u) w = (r1, w')" and r: "\<And>i. r = Inr i \<longleftrightarrow> r1 = Inr i"
    using assms unfolding user_Create_def by (rule map_err_cases) (rule that; simp)
  from e show thesis
  proof (cases rule: sql_exec_cases)
    case (unchanged x)
    then show ?thesis using same r by (cases r) (auto simp: same_db_def)
  next
    case (ran r' t' ai')
    then show ?thesis using that(2) r by (metis sum.distinct(1))
  qed
qed

lemma insert_user_cases:
  assumes "insert_user ck u now t ai = (r, t', ai')"
  shows "t' = t \<and> (\<exists>e. r = Inl e) \<or> (\<exists>row. t' = t\<lparr>t_users := t_users t @ [row]\<rparr> \<and> r = Inr (us_id row)
     \<and> us_id row = ai TUsers \<and> us_role row = us_role u \<and> us_email row = us_email u \<and> us_hash row = us_hash u
     \<and> us_name row = us_name u \<and> ck (us_email u) \<notin> (\<lambda>v. ck (us_email v)) ` set (t_users t))"
  using assms by (auto simp: insert_user_def Let_def split: if_splits)

lemma Register_handler_cases:
  assumes "Register_handler s body w = (resp, w')"
  obtains (nothing) "w' = w"
  | (stores) req u r where "body = Some req" "us_email u = ri_email req"
      "us_role u = (if ri_role req = ''owner'' then ''owner'' else ''renter'')" "user_Create u w = (r, w')"
proof (cases "\<exists>req. body = Some req \<and> \<not> (ri_email req = '''' \<or> length (ri_password req) < 8 \<or> ri_name req = '''')")
  case False
  then have "w' = w" using assms by (cases body) (auto simp: Register_handler_def)
  then show thesis by (rule nothing)
next
  case True
  then obtain req where b: "body = Some req" and
    ok: "\<not> (ri_email req = '''' \<or> length (ri_password req) < 8 \<or> ri_name req = '''')" by blast
  define role where "role = (if ri_role req \<noteq> RoleOwner then RoleRenter else ri_role req)"
  have role: "role = (if ri_role req = ''owner'' then ''owner'' else ''renter'')"
    by (simp add: role_def RoleOwner_def RoleRenter_def)
  obtain r0 w0 where reg: "Register s (req\<lparr>ri_role := role\<rparr>) w = (r0, w0)" by fastforce
  have w': "w' = w0"
    using assms ok reg by (cases r0) (auto simp: Register_handler_def b role_def [symmetric] split: if_splits)
  show thesis
  proof (cases "hs_hash s (hs_salt s) (ri_password req)")
    case (Inl e)
    then have "w' = w" using reg w' by (simp add: Register_def Let_def)
    then show ?thesis by (rule nothing)
  next
    case (Inr hash)
    define u where "u = \<lparr>us_id = 0, us_email = ri_email req, us_hash = hash, us_algo = PasswordAlgoBcrypt,
        us_name = ri_name req, us_role = role, us_created = 0, us_updated = 0\<rparr>"
    obtain r w1 where c: "user_Create u w = (r, w1)" by fastforce
    have ne: "role \<noteq> ''''" by (simp add: role)
    have "w0 = w1" using reg Inr c ne by (cases r) (auto simp: Register_def Let_def u_def split: sum.splits)
    then show ?thesis using stores [OF b _ _ c [folded w' [unfolded \<open>w0 = w1\<close>]]] role by (simp add: u_def)
  qed
qed

text \<open>C20 (safety): however the statements fail, the registration endpoint adds at most one user,
  with the requested email and with the role owner when asked for and renter otherwise (so never
  an administrator), and keeps all constraints, in particular the uniqueness of emails.\<close>

theorem register_adds_no_admin:
  assumes "wf_tables (email_key w) (primary w)" and "fresh_ids (counters_of w) (primary w)"
    and "Register_handler s body w = (resp, w')"
  shows "wf_tables (email_key w) (primary w')
    \<and> (primary w' = primary w \<or> (\<exists>req u. body = Some req
         \<and> primary w' = (primary w)\<lparr>t_users := t_users (primary w) @ [u]\<rparr> \<and> us_email u = ri_email req
         \<and> us_role u = (if ri_role req = ''owner'' then ''owner'' else ''renter'')))"
  using assms(3)
proof (cases rule: Register_handler_cases)
  case (stores req u r)
  from stores(4) show ?thesis
  proof (cases rule: user_Create_cases)
    case (ran r0 t' ai')
    have "wf_tables (email_key w) t'" using keeps_tablesD [OF keeps_insert_user ran(1) assms(1,2)] by blast
    then show ?thesis using insert_user_cases [OF ran(1)] ran(2) stores by auto
  qed (use assms(1) in simp)
qed (use assms(1) in simp)

theorem register_adds_no_admin_witness:
  "''admin'' \<notin> us_role ` set (t_users (primary (snd (Register_handler
       \<lparr>hs_hash = (\<lambda>s p. Inr p), hs_verify = (=), hs_salt = '''', hs_jwt = undefined, hs_issuer = undefined\<rparr>
       (Some \<lparr>ri_email = ''a@x'', ri_password = ''password'', ri_name = ''A'', ri_role = ''admin''\<rparr>) sample_world))))"
proof -
  have w: "wf_tables (email_key sample_world) (primary sample_world)" "fresh_ids (counters_of sample_world) (primary sample_world)"
    using sample_inv by (simp_all add: world_inv_def booking_inv_def db_of_def)
  have "\<forall>u\<in>set (t_users (primary sample_world)). us_role u \<noteq> ''admin''"
    by (simp add: sample_world_def world_of_def sample_tables_def sample_user_def)
  moreover obtain resp w' where e: "Register_handler
       \<lparr>hs_hash = (\<lambda>s p. Inr p), hs_verify = (=), hs_salt = '''', hs_jwt = undefined, hs_issuer = undefined\<rparr>
       (Some \<lparr>ri_email = ''a@x'', ri_password = ''password'', ri_name = ''A'', ri_role = ''admin''\<rparr>) sample_world = (resp, w')"
    by fastforce
  ultimately show ?thesis
    using register_adds_no_admin [OF w e] unfolding e by (auto split: if_splits)
qed

subsection \<open>Registering and logging in\<close>

context password_hasher
begin

lemma login_after_register:
  assumes s: "hs_hash s = hash" "hs_verify s = verify" "good (hs_salt s) (ri_password inp)"
    and w: "faults w = []" "replica w = None"
    and reg: "Register s inp w = (Inr (u, tok), w1)"
  shows "\<exists>row. us_id row = us_id u \<and> us_email row = ri_email inp \<and> us_role row = us_role u
    \<and> fst (Login s (ri_email inp) (ri_password inp) w1) = Inr (row, tok)"
proof -
  define role where "role = (if ri_role inp = '''' then RoleRenter else ri_role inp)"
  obtain h where h: "hash (hs_salt s) (ri_password inp) = Inr h"
    using reg s(1) by (auto simp: Register_def Let_def split: sum.splits)
  define u0 where "u0 = \<lparr>us_id = 0, us_email = ri_email inp, us_hash = h, us_algo = PasswordAlgoBcrypt,
          us_name = ri_name inp, us_role = role, us_created = 0, us_updated = 0\<rparr>"
  obtain i where c: "user_Create u0 w = (Inr i, w1)" and u: "u = u0\<lparr>us_id := i\<rparr>"
      and t: "IssueAccessToken (hs_jwt s) (hs_issuer s) (clock w1) i role = Inr tok"
  proof -
    have "bind_res (user_Create u0 w) (\<lambda>i w1. case IssueAccessToken (hs_jwt s) (hs_issuer s) (clock w1) i role of
        Inl e \<Rightarrow> (Inl (Wrapped ''user: issue token'' e), w1) | Inr token \<Rightarrow> (Inr (u0\<lparr>us_id := i\<rparr>, token), w1)) = (Inr (u, tok), w1)"
      using reg h s(1) unfolding Register_def Let_def u0_def role_def by simp
    then obtain i w2 where c: "user_Create u0 w = (Inr i, w2)"
      "(case IssueAccessToken (hs_jwt s) (hs_issuer s) (clock w2) i role of
        Inl e \<Rightarrow> (Inl (Wrapped ''user: issue token'' e), w2) | Inr token \<Rightarrow> (Inr (u0\<lparr>us_id := i\<rparr>, token), w2)) = (Inr (u, tok), w1)"
      unfolding bind_res_ok by blast
    then show thesis
      using that by (cases "IssueAccessToken (hs_jwt s) (hs_issuer s) (clock w2) i role") auto
  qed
  have e: "sql_exec (insert_user (email_key w) u0) w = (Inr i, w1)" using c unfolding user_Create_def by simp
  obtain r t' ai' where d: "insert_user (email_key w) u0 (clock w) (primary w) (counters_of w) = (r, t', ai')"
    by (metis prod_cases3)
  from sql_exec_works [of w "insert_user (email_key w) u0", OF w(1) d] e have r: "r = Inr i"
    and w1: "w1 = w\<lparr>queries := Suc (queries w), primary := t', counters_of := ai'\<rparr>" by simp_all
  from insert_user_cases [OF d] r obtain row where row: "t' = (primary w)\<lparr>t_users := t_users (primary w) @ [row]\<rparr>"
      "us_id row = i" "us_role row = role" "us_email row = ri_email inp" "us_hash row = h"
      "email_key w (ri_email inp) \<notin> (\<lambda>v. email_key w (us_email v)) ` set (t_users (primary w))"
    by (auto simp: u0_def)
  have "find (\<lambda>v. email_key w (us_email v) = email_key w (ri_email inp)) (t_users (primary w)) = None"
    using row(6) find_None_iff_key [of "\<lambda>v. email_key w (us_email v)"] by blast
  then have "user_by_email (email_key w) (ri_email inp) t' = Some row"
    by (simp add: user_by_email_def row(1,4) find_append)
  moreover have "reader w1 = t'" "faults w1 = []" "email_key w1 = email_key w"
    using w by (simp_all add: w1 reader_def)
  moreover have "verify (ri_password inp) h" using verify_hash [OF s(3) h] .
  ultimately show ?thesis
    using t s(2) row u by (simp add: Login_def user_GetByEmail_def user_get_def or_no_rows_def u0_def)
qed

end


definition sample_users :: user_service where
  "sample_users = \<lparr>hs_hash = bcrypt_Hash (\<lambda>salt p c. Inr (salt @ p)) (NewBcryptHasher 12),
     hs_verify = bcrypt_Verify (\<lambda>h p. if h = ''s'' @ p then None else Some (OtherErr ''mismatch'')) (NewBcryptHasher 12),
     hs_salt = ''s'', hs_jwt = \<lparr>SignedString = (\<lambda>k c. Inr ''t''), ParseWithClaims = (\<lambda>n kf t. Inl (OtherErr ''x''))\<rparr>,
     hs_issuer = \<lparr>ji_secret = ''k'', ji_ttl = 900 * second\<rparr>\<rparr>"


text \<open>Without failures a login answers 200 exactly when a user with that email exists, the
  password verifies and a token can be issued; an unknown email and a wrong password give one and
  the same 401 response, so the answer does not tell them apart.\<close>

theorem login_exact:
  assumes "faults w = []"
  shows "case user_by_email (email_key w) email (reader w) of
      None \<Rightarrow> fst (Login_handler s (Some (email, password)) w) = Error 401 ''invalid email or password''
    | Some u \<Rightarrow>
        if \<not> hs_verify s password (us_hash u)
        then fst (Login_handler s (Some (email, password)) w) = Error 401 ''invalid email or password''
        else rs_status (fst (Login_handler s (Some (email, password)) w)) = 200
           \<longleftrightarrow> is_ok (IssueAccessToken (hs_jwt s) (hs_issuer s) (clock w) (us_id u) (us_role u))"
  using assms
  by (auto simp: Login_handler_def Login_def user_GetByEmail_def user_get_def or_no_rows_def not_found_or_def
      user_ErrNotFound_def ErrInvalidCredentials_def ErrNoRows_def split: option.splits sum.splits)

theorem login_exact_witness:
  "fst (Login_handler sample_users (Some (''nobody@x'', ''password'')) sample_world) = Error 401 ''invalid email or password''"
proof -
  have "faults sample_world = []" by (simp add: sample_world_def world_of_def)
  from login_exact [OF this, where email = "''nobody@x''" and s = sample_users and password = "''password''"] show ?thesis
    by (simp add: user_by_email_def reader_def sample_world_def world_of_def sample_tables_def sample_user_def)
qed

subsection \<open>Log in with Google\<close>

definition oauth_step :: "(string \<Rightarrow> string) \<Rightarrow> string \<Rightarrow> string \<Rightarrow> string \<Rightarrow> string \<Rightarrow> int \<Rightarrow> dbstate \<Rightarrow> dbstate \<Rightarrow> bool" where
  "oauth_step ck provider subject email name uid s s' \<longleftrightarrow>
     oauth_lookup provider subject (fst s) = Some uid \<and> s' = s
     \<or> oauth_lookup provider subject (fst s) = None
       \<and> (\<exists>now1 now2 t1 ai1. insert_user ck (oauth_user email name) now1 (fst s) (snd s) = (Inr uid, t1, ai1)
          \<and> insert_oauth \<lparr>oi_user = uid, oi_provider = provider, oi_subject = subject\<rparr> now2 t1 ai1 = (Inr (), s'))"

lemma oauth_user_new:
  assumes "insert_user ck (oauth_user email name) now t ai = (r, t1, ai1)"
  shows "r = Inr uid \<Longrightarrow> t_oauth t1 = t_oauth t \<and> (\<exists>u. t1 = t\<lparr>t_users := t_users t @ [u]\<rparr> \<and> us_id u = uid
    \<and> us_role u = ''renter'' \<and> us_email u = email)"
  using insert_user_cases [OF assms] by (auto simp: oauth_user_def RoleRenter_def)

lemma link_cases:
  assumes "bind_res (map_err f (tx_exec (insert_oauth oi) (t, w))) (\<lambda>_ s. (Inr uid, s)) = (r, t', w')"
  shows "tx_frame w w'"
    and "r = Inr x \<Longrightarrow> x = uid \<and> insert_oauth oi (clock w) t (counters_of w) = (Inr (), t', counters_of w')"
proof -
  have "tx_frame w w' \<and> (\<forall>x. r = Inr x \<longrightarrow> x = uid \<and> insert_oauth oi (clock w) t (counters_of w) = (Inr (), t', counters_of w'))"
    using assms
  proof (cases rule: bind_res_cases)
    case (err e)
    then obtain r0 where "tx_exec (insert_oauth oi) (t, w) = (r0, t', w')" by (auto elim: map_err_cases)
    then show ?thesis using tx_exec_frame [OF counts_up_dml(5)] err(2) by blast
  next
    case (val x s3)
    then have l: "tx_exec (insert_oauth oi) (t, w) = (Inr x, t', w')" and "r = Inr uid" by simp_all
    then show ?thesis using tx_exec_frame [OF counts_up_dml(5) l] tx_exec_ok [OF l] by auto
  qed
  then show "tx_frame w w'"
    and "r = Inr x \<Longrightarrow> x = uid \<and> insert_oauth oi (clock w) t (counters_of w) = (Inr (), t', counters_of w')" by blast+
qed

text \<open>An identity that can be inserted after the new user was not there before.\<close>

lemma linked_before:
  assumes "insert_user ck (oauth_user email name) now t ai = (Inr uid, t1, ai1)"
    and "insert_oauth \<lparr>oi_user = uid, oi_provider = provider, oi_subject = subject\<rparr> now2 t1 ai1 = (Inr (), s')"
  shows "oauth_lookup provider subject t = None"
  using assms(2) oauth_user_new [OF assms(1)]
  by (fastforce simp: insert_oauth_def oauth_lookup_def oauth_key_def find_None_iff split: if_splits)

lemma Upsert_cases:
  assumes "UpsertOAuthIdentity ck provider subject email name (t, w) = (r, t', w')"
  shows "tx_frame w w'"
    and "r = Inr uid \<Longrightarrow> oauth_step ck provider subject email name uid (t, counters_of w) (t', counters_of w')"
proof -
  obtain r1 t1 w1 where g: "tx_get (oauth_lookup provider subject) (t, w) = (r1, t1, w1)" by (metis prod_cases3)
  have s1: "t1 = t" "tx_frame w w1" "counters_of w1 = counters_of w"
    and q: "\<forall>x. r1 = Inr x \<longrightarrow> oauth_lookup provider subject t = Some x"
    using tx_get_ok [OF g] by blast+
  have "tx_frame w w' \<and> (\<forall>uid. r = Inr uid \<longrightarrow> oauth_step ck provider subject email name uid (t, counters_of w) (t', counters_of w'))"
  proof (cases "\<exists>e. r1 = Inl e \<and> errors_is e ErrNoRows")
    case False
    then show ?thesis using assms g s1 q by (cases r1) (auto simp: UpsertOAuthIdentity_def oauth_step_def)
  next
    case True
    with assms g s1(1) have "bind_res (map_err (Wrapped ''user: create oauth user'')
             (tx_exec (insert_user ck (oauth_user email name)) (t, w1))) (\<lambda>userID s2.
           bind_res (map_err (Wrapped ''user: link oauth identity'')
             (tx_exec (insert_oauth \<lparr>oi_user = userID, oi_provider = provider, oi_subject = subject\<rparr>) s2))
           (\<lambda>_ s3. (Inr userID, s3))) = (r, t', w')"
      by (auto simp: UpsertOAuthIdentity_def)
    then show ?thesis
    proof (cases rule: bind_res_cases)
      case (err e1)
      then obtain r0 where "tx_exec (insert_user ck (oauth_user email name)) (t, w1) = (r0, t', w')"
        by (auto elim: map_err_cases)
      then show ?thesis using tx_exec_frame [OF counts_up_dml(4)] s1(2) tx_frame_trans err(2) by blast
    next
      case (val uid s2)
      obtain t2 w2 where s2: "s2 = (t2, w2)" by fastforce
      have u: "tx_exec (insert_user ck (oauth_user email name)) (t, w1) = (Inr uid, t2, w2)"
        using val(1) s2 by simp
      note l = link_cases [OF val(2) [unfolded s2]]
      have "tx_frame w w'" using tx_exec_frame [OF counts_up_dml(4) u] s1(2) l(1) tx_frame_trans by blast
      then show ?thesis using l(2) tx_exec_ok [OF u] linked_before s1(3)
        unfolding oauth_step_def fst_conv snd_conv by metis
    qed
  qed
  then show "tx_frame w w'"
    and "r = Inr uid \<Longrightarrow> oauth_step ck provider subject email name uid (t, counters_of w) (t', counters_of w')" by blast+
qed

interpretation oauth_tx: tx_body "UpsertOAuthIdentity ck provider subject email name"
    "oauth_step ck provider subject email name" for ck provider subject email name
  by unfold_locales (erule Upsert_cases(1), erule Upsert_cases(2), rule refl)

lemma oauth_step_tables:
  assumes "oauth_step ck provider subject email name uid (t, ai) (t', ai')"
    and "wf_tables ck t" and "fresh_ids ai t"
  shows "wf_tables ck t' \<and> oauth_lookup provider subject t' = Some uid
    \<and> (t' = t \<or> (oauth_lookup provider subject t = None \<and> (\<exists>u. us_role u = ''renter'' \<and> us_id u = uid \<and> us_email u = email
       \<and> t' = t\<lparr>t_users := t_users t @ [u],
                t_oauth := t_oauth t @ [\<lparr>oi_user = uid, oi_provider = provider, oi_subject = subject\<rparr>]\<rparr>)))"
  using assms(1) unfolding oauth_step_def fst_conv snd_conv
proof (elim disjE conjE exE)
  assume "oauth_lookup provider subject t = Some uid" "(t', ai') = (t, ai)"
  then show ?thesis using assms(2) by simp
next
  fix now1 now2 t1 ai1
  assume n: "oauth_lookup provider subject t = None"
    and u: "insert_user ck (oauth_user email name) now1 t ai = (Inr uid, t1, ai1)"
    and l: "insert_oauth \<lparr>oi_user = uid, oi_provider = provider, oi_subject = subject\<rparr> now2 t1 ai1 = (Inr (), t', ai')"
  obtain v where v: "t1 = t\<lparr>t_users := t_users t @ [v]\<rparr>" "us_id v = uid" "us_role v = ''renter''" "us_email v = email"
    using oauth_user_new [OF u] by blast
  have t': "t' = t1\<lparr>t_oauth := t_oauth t1 @ [\<lparr>oi_user = uid, oi_provider = provider, oi_subject = subject\<rparr>]\<rparr>"
    using l by (auto simp: insert_oauth_def split: if_splits)
  have "wf_tables ck t'"
    using keeps_tablesD [OF keeps_insert_user u assms(2,3)] keeps_tablesD [OF keeps_insert_oauth l] by blast
  moreover have "oauth_lookup provider subject t' = Some uid"
    using n by (simp add: t' v(1) oauth_lookup_def find_append oauth_key_def)
  ultimately show ?thesis using v n by (auto simp: t')
qed

lemma oauth_committed:
  assumes "oauth_tx.committed (email_key w) provider subject email name uid w w1"
    and "wf_tables (email_key w) (primary w)" and "fresh_ids (counters_of w) (primary w)"
  shows "wf_tables (email_key w) (primary w1) \<and> oauth_lookup provider subject (primary w1) = Some uid
    \<and> (primary w1 = primary w \<or> (oauth_lookup provider subject (primary w) = None
       \<and> (\<exists>u. us_role u = ''renter'' \<and> us_id u = uid \<and> us_email u = email
         \<and> primary w1 = (primary w)\<lparr>t_users := t_users (primary w) @ [u],
             t_oauth := t_oauth (primary w) @ [\<lparr>oi_user = uid, oi_provider = provider, oi_subject = subject\<rparr>]\<rparr>)))"
proof -
  obtain ai where "counters_of w \<le> ai"
    "oauth_step (email_key w) provider subject email name uid (primary w, ai) (primary w1, counters_of w1)"
    using assms(1) unfolding oauth_tx.committed_def db_of_def by blast
  from oauth_step_tables [OF this(2) assms(2) fresh_mono [OF assms(3) this(1)]] show ?thesis by blast
qed

lemma oauth_Callback_cases:
  assumes "oauth_Callback h r w = (resp, w')"
  obtains (refused) "w' = w" "rs_status resp \<in> {400, 401, 502}"
      "map_of (rq_cookies r) ''gearshare_oauth_state'' = Some (field (rq_query r) ''state'') \<or> rs_status resp = 400"
  | (failed) cl :: identity_claims and e where "map_of (rq_cookies r) ''gearshare_oauth_state'' = Some (field (rq_query r) ''state'')" "rs_status resp = 500"
      "WithinTransaction (UpsertOAuthIdentity (email_key w) ''google'' (ic_subject cl) (ic_email cl) (ic_name cl)) w = (Inl e, w')"
  | (linked) cl :: identity_claims and uid w1 where "map_of (rq_cookies r) ''gearshare_oauth_state'' = Some (field (rq_query r) ''state'')"
      "WithinTransaction (UpsertOAuthIdentity (email_key w) ''google'' (ic_subject cl) (ic_email cl) (ic_name cl)) w = (Inr uid, w1)"
      "primary w' = primary w1"
proof (cases "map_of (rq_cookies r) ''gearshare_oauth_state'' = Some (field (rq_query r) ''state'')
    \<and> (\<exists>raw cl. Exchange (oh_google h) (field (rq_query r) ''code'') = Inr (Some raw) \<and> VerifyIDToken (oh_google h) raw = Inr cl)")
  case False
  then have "w' = w \<and> rs_status resp \<in> {400, 401, 502}
      \<and> (map_of (rq_cookies r) ''gearshare_oauth_state'' \<noteq> Some (field (rq_query r) ''state'') \<longrightarrow> rs_status resp = 400)"
    using assms unfolding oauth_Callback_def oauthStateCookie_def
    by (cases "map_of (rq_cookies r) ''gearshare_oauth_state''"; auto split: sum.splits option.splits if_splits)
  then show thesis using refused by blast
next
  case True
  then obtain raw cl where st: "map_of (rq_cookies r) ''gearshare_oauth_state'' = Some (field (rq_query r) ''state'')"
    and x: "Exchange (oh_google h) (field (rq_query r) ''code'') = Inr (Some raw)" "VerifyIDToken (oh_google h) raw = Inr cl"
    by blast
  obtain res w1 where t: "WithinTransaction (UpsertOAuthIdentity (email_key w) ''google'' (ic_subject cl) (ic_email cl) (ic_name cl)) w = (res, w1)"
    by fastforce
  show thesis
  proof (cases res)
    case (Inl e)
    then show ?thesis using assms st x t failed by (auto simp: oauth_Callback_def oauthStateCookie_def)
  next
    case (Inr uid)
    obtain ru w2 where u: "user_GetByID uid w1 = (ru, w2)" by fastforce
    have "primary w2 = primary w1"
      using sql_get_same [of "user_by_id uid" w1] u unfolding user_GetByID_def user_get_def
      by (auto simp: same_db_def elim!: map_err_cases)
    moreover have "w' = w2"
      using assms st x t u Inr by (cases ru) (auto simp: oauth_Callback_def oauthStateCookie_def split: sum.splits)
    ultimately show ?thesis using linked [OF st t [unfolded Inr]] by simp
  qed
qed


definition sample_oauth :: "string \<Rightarrow> oauth_handler" where
  "sample_oauth email = \<lparr>oh_google = \<lparr>gl_auth_url = id, gl_exchange = (\<lambda>c. Inr (Some c)),
       gl_verify = (\<lambda>raw. Inr \<lparr>ic_subject = raw, ic_email = email, ic_verified = True, ic_name = ''G''\<rparr>)\<rparr>,
     oh_jwt = hs_jwt sample_users, oh_issuer = hs_issuer sample_users, oh_secure = True, oh_redirect = ''/''\<rparr>"

definition sample_callback :: http_req where
  "sample_callback = \<lparr>rq_method = ''GET'', rq_id = '''', rq_query = [(''state'', ''s''), (''code'', ''sub'')], rq_headers = [],
     rq_cookies = [(''gearshare_oauth_state'', ''s'')], rq_form = None, rq_remote = '''', rq_claims = None\<rparr>"


text \<open>A Google account whose verified email already belongs to a password account cannot
  log in: without failures and for a subject not linked yet, the callback answers 500 and the
  database stays as it was, so the account is never linked.\<close>

theorem oauth_email_collision:
  assumes "faults w = []" and "map_of (rq_cookies r) ''gearshare_oauth_state'' = Some (field (rq_query r) ''state'')"
    and "Exchange (oh_google h) (field (rq_query r) ''code'') = Inr (Some raw)"
    and "VerifyIDToken (oh_google h) raw = Inr cl"
    and "oauth_lookup ''google'' (ic_subject cl) (primary w) = None"
    and "\<exists>u\<in>set (t_users (primary w)). email_key w (us_email u) = email_key w (ic_email cl)"
  shows "rs_status (fst (oauth_Callback h r w)) = 500 \<and> primary (snd (oauth_Callback h r w)) = primary w"
proof -
  have dup: "insert_user (email_key w) (oauth_user (ic_email cl) (ic_name cl)) now (primary w) ai
      = (Inl err_dup, primary w, bump TUsers ai)" for now ai
  proof -
    have "email_key w (ic_email cl) \<in> (\<lambda>v. email_key w (us_email v)) ` set (t_users (primary w))"
      using assms(6) by force
    then show ?thesis by (simp add: insert_user_def oauth_user_def user_ok_def RoleRenter_def)
  qed
  have nr: "\<not> isRetryable (Wrapped m err_dup)" for m
    by (simp add: isRetryable_def err_dup_def mysqlErrLockDeadlock_def mysqlErrLockWaitTimeout_def)
  obtain w1 where "WithinTransaction (UpsertOAuthIdentity (email_key w) ''google'' (ic_subject cl) (ic_email cl) (ic_name cl)) w
      = (Inl (Wrapped ''user: create oauth user'' err_dup), w1) \<and> primary w1 = primary w"
    using assms(1,5) dup nr
    by (simp add: WithinTransaction_def maxTxRetries_def numeral_3_eq_3 attemptTx_def io_ok backoff_def
        UpsertOAuthIdentity_def tx_get_def or_no_rows_def)
  then show ?thesis
    using assms(2-4) by (simp add: oauth_Callback_def oauthStateCookie_def)
qed

theorem oauth_email_collision_witness:
  "rs_status (fst (oauth_Callback (sample_oauth ''r@x'') sample_callback sample_world)) = 500"
  by (rule oauth_email_collision [where raw = "''sub''" and
      cl = "\<lparr>ic_subject = ''sub'', ic_email = ''r@x'', ic_verified = True, ic_name = ''G''\<rparr>", THEN conjunct1])
    (simp_all add: sample_world_def world_of_def sample_tables_def sample_user_def sample_oauth_def sample_callback_def
      Exchange_def VerifyIDToken_def field_def oauth_lookup_def)

end
