(* ===== verification/Reviews.thy ===== *)
theory Reviews
  imports Users
begin

text \<open>
  \<open>internal/category\<close> and \<open>internal/review\<close>: the category repository and its listing, creating a
  review, and the two rating summaries, one per listing and one per batch of listings. \<open>avg\<close> is
  MySQL's \<open>AVG\<close> as the driver scans it; \<open>coll\<close> is the collation of the category names.
\<close>

subsection \<open>Categories\<close>

definition category_List :: "(string \<Rightarrow> int) \<Rightarrow> world \<Rightarrow> (gerr + category list) \<times> world" where
  "category_List coll w = map_err (Wrapped ''category: list'')
     (sql_select (\<lambda>t. sort_key (\<lambda>c. coll (ca_name c)) (t_categories t)) w)"

definition category_by_id :: "int \<Rightarrow> tables \<Rightarrow> category option" where
  "category_by_id i t = find (\<lambda>c. ca_id c = i) (t_categories t)"

definition category_GetByID :: "int \<Rightarrow> world \<Rightarrow> (gerr + category) \<times> world" where
  "category_GetByID i w = map_err (Wrapped ''category: get'') (sql_get (category_by_id i) w)"

definition category_GetByIDs :: "int list \<Rightarrow> world \<Rightarrow> (gerr + (int \<Rightarrow> category option)) \<times> world" where
  "category_GetByIDs ids w =
     (if ids = [] then (Inr Map.empty, w)
      else bind_res (map_err (Wrapped ''category: get by ids'')
             (sql_select (\<lambda>t. filter (\<lambda>c. ca_id c \<in> set ids) (t_categories t)) w))
           (\<lambda>rows w1. (Inr (foldl (\<lambda>m c. m(ca_id c \<mapsto> c)) Map.empty rows), w1)))"

definition category_json :: "category \<Rightarrow> json" where
  "category_json c = JObj [(''id'', JNum (ca_id c)), (''name'', JStr (ca_name c)), (''slug'', JStr (ca_slug c))]"

text \<open>A nil slice encodes as \<open>null\<close>.\<close>

definition category_list_handler :: "(string \<Rightarrow> int) \<Rightarrow> handler" where
  "category_list_handler coll r w =
     (case category_List coll w of
        (Inl e, w1) \<Rightarrow> (Error 500 ''could not load categories'', w1)
      | (Inr cats, w1) \<Rightarrow> (JSON 200 (Some (if cats = [] then JNull else JArr (map category_json cats))), w1))"

subsection \<open>Reviews\<close>

definition ErrInvalidRating :: gerr where
  "ErrInvalidRating = Sentinel ''review: rating must be between 1 and 5''"

definition review_repo_Create :: "review \<Rightarrow> world \<Rightarrow> (gerr + int) \<times> world" where
  "review_repo_Create rv w = map_err (Wrapped ''review: create'') (sql_exec (insert_review rv) w)"

text \<open>The zero \<open>time.Time\<close>, which the reply shows as the review's creation time.\<close>

definition zero_time :: time where
  "zero_time = - 62135596800 * second"

definition review_Create :: "int \<Rightarrow> int \<Rightarrow> int \<Rightarrow> string \<Rightarrow> world \<Rightarrow> (gerr + review) \<times> world" where
  "review_Create bookingID reviewerID rating comment w =
     (if rating < 1 \<or> 5 < rating then (Inl ErrInvalidRating, w)
      else let rv = \<lparr>rv_id = 0, rv_booking = bookingID, rv_reviewer = reviewerID, rv_rating = rating,
                     rv_comment = comment, rv_created = zero_time\<rparr>
           in bind_res (review_repo_Create rv w) (\<lambda>i w1. (Inr (rv\<lparr>rv_id := i\<rparr>), w1)))"

record review_request =
  rr_booking :: int
  rr_rating :: int
  rr_comment :: string

definition review_json :: "review \<Rightarrow> json" where
  "review_json rv = JObj [(''id'', JNum (rv_id rv)), (''booking_id'', JNum (rv_booking rv)),
     (''reviewer_id'', JNum (rv_reviewer rv)), (''rating'', JNum (rv_rating rv)),
     (''comment'', JStr (rv_comment rv)), (''created_at'', JTime (rv_created rv))]"

definition review_handler :: "review_request option \<Rightarrow> handler" where
  "review_handler body r w =
     (case rq_claims r of
        None \<Rightarrow> (Error 401 ''authentication required'', w)
      | Some cl \<Rightarrow>
     (case body of
        None \<Rightarrow> (Error 400 ''invalid request body'', w)
      | Some req \<Rightarrow>
     (case review_Create (rr_booking req) (cl_user cl) (rr_rating req) (rr_comment req) w of
        (Inl e, w1) \<Rightarrow>
          (if errors_is e ErrInvalidRating then (Error 400 ''rating must be between 1 and 5'', w1)
           else (Error 500 ''could not create review'', w1))
      | (Inr rv, w1) \<Rightarrow> (JSON 201 (Some (review_json rv)), w1))))"

subsection \<open>Rating summaries\<close>

record rating_summary =
  rs_listing :: int
  rs_count :: int
  rs_avg :: rat

text \<open>The rows of \<open>reviews r JOIN bookings b ON b.id = r.booking_id\<close>.\<close>

definition reviewed :: "tables \<Rightarrow> (int \<times> int) list" where
  "reviewed t = concat (map (\<lambda>r. map (\<lambda>b. (bk_listing b, rv_rating r))
     (filter (\<lambda>b. bk_id b = rv_booking r) (t_bookings t))) (t_reviews t))"

definition ratings_of :: "int \<Rightarrow> tables \<Rightarrow> int list" where
  "ratings_of i t = map snd (filter (\<lambda>p. fst p = i) (reviewed t))"

text \<open>\<open>COALESCE(AVG(r.rating), 0)\<close>\<close>

definition coalesced_avg :: "(int list \<Rightarrow> rat) \<Rightarrow> int list \<Rightarrow> rat" where
  "coalesced_avg avg rs = (if rs = [] then 0 else avg rs)"

definition GetRatingSummary :: "(int list \<Rightarrow> rat) \<Rightarrow> int \<Rightarrow> world \<Rightarrow> (gerr + rating_summary) \<times> world" where
  "GetRatingSummary avg i w = map_err (Wrapped ''review: rating summary'')
     (sql_select (\<lambda>t. \<lparr>rs_listing = i, rs_count = int (length (ratings_of i t)),
        rs_avg = coalesced_avg avg (ratings_of i t)\<rparr>) w)"

text \<open>\<open>GROUP BY b.listing_id\<close>: one row per listing that has a review.\<close>

definition grouped_summaries :: "(int list \<Rightarrow> rat) \<Rightarrow> tables \<Rightarrow> rating_summary list" where
  "grouped_summaries avg t = map (\<lambda>i. \<lparr>rs_listing = i, rs_count = int (length (ratings_of i t)),
     rs_avg = avg (ratings_of i t)\<rparr>) (remdups (map fst (reviewed t)))"

definition GetRatingSummaries :: "(int list \<Rightarrow> rat) \<Rightarrow> int list \<Rightarrow> world \<Rightarrow> (gerr + (int \<Rightarrow> rating_summary option)) \<times> world" where
  "GetRatingSummaries avg ids w =
     (if ids = [] then (Inr Map.empty, w)
      else bind_res (map_err (Wrapped ''review: batched rating summaries'')
             (sql_select (\<lambda>t. filter (\<lambda>s. rs_listing s \<in> set ids) (grouped_summaries avg t)) w))
           (\<lambda>rows w1. (Inr (foldl (\<lambda>m s. m(rs_listing s \<mapsto> s)) Map.empty rows), w1)))"

subsection \<open>Maps built from rows\<close>

lemma foldl_rows_gen:
  "foldl (\<lambda>m x. m(k x \<mapsto> x)) m0 xs i = (case find (\<lambda>x. k x = i) (rev xs) of None \<Rightarrow> m0 i | Some x \<Rightarrow> Some x)"
  by (induction xs arbitrary: m0) (auto simp: find_append split: option.splits)

lemma find_rev_key:
  assumes "distinct (map k xs)"
  shows "find (\<lambda>x. k x = i) (rev xs) = find (\<lambda>x. k x = i) xs"
proof -
  have "distinct (map k (rev xs))" using assms by (simp add: rev_map [symmetric])
  then have "find (\<lambda>x. k x = i) (rev xs) = Some x \<longleftrightarrow> find (\<lambda>x. k x = i) xs = Some x" for x
    using find_distinct_key_iff assms by (metis set_rev)
  then show ?thesis by (metis option.exhaust)
qed

lemma rows_map:
  "distinct (map k xs) \<Longrightarrow> foldl (\<lambda>m x. m(k x \<mapsto> x)) Map.empty xs i = find (\<lambda>x. k x = i) xs"
  by (simp add: foldl_rows_gen find_rev_key split: option.splits)

lemma find_filter_key:
  "i \<in> S \<Longrightarrow> find (\<lambda>x. k x = i) (filter (\<lambda>x. k x \<in> S) xs) = find (\<lambda>x. k x = i) xs"
  by (induction xs) auto

lemma distinct_map_filter_key: "distinct (map k xs) \<Longrightarrow> distinct (map k (filter P xs))"
  by (induction xs) auto

lemma batch_map:
  assumes "distinct (map k xs)" and "i \<in> set ids"
  shows "foldl (\<lambda>m x. m(k x \<mapsto> x)) Map.empty (filter (\<lambda>x. k x \<in> set ids) xs) i = find (\<lambda>x. k x = i) xs"
  using assms by (simp add: rows_map distinct_map_filter_key find_filter_key)

lemma ratings_none: "i \<notin> set (map fst (reviewed t)) \<longleftrightarrow> ratings_of i t = []"
  by (auto simp: ratings_of_def filter_empty_conv)

lemma grouped_find:
  "find (\<lambda>s. rs_listing s = i) (grouped_summaries avg t) =
     (if ratings_of i t = [] then None else Some \<lparr>rs_listing = i,
        rs_count = int (length (ratings_of i t)), rs_avg = avg (ratings_of i t)\<rparr>)"
proof -
  have d: "distinct (map rs_listing (grouped_summaries avg t))"
    by (simp add: grouped_summaries_def comp_def)
  show ?thesis
  proof (cases "ratings_of i t = []")
    case True
    then have "i \<notin> rs_listing ` set (grouped_summaries avg t)"
      unfolding ratings_none [symmetric] by (force simp: grouped_summaries_def)
    with True show ?thesis by (simp add: find_None_iff_key)
  next
    case False
    then have "i \<in> set (map fst (reviewed t))" using ratings_none by blast
    then have "\<lparr>rs_listing = i, rs_count = int (length (ratings_of i t)), rs_avg = avg (ratings_of i t)\<rparr>
        \<in> set (grouped_summaries avg t)" unfolding grouped_summaries_def by force
    with d False show ?thesis by (simp add: find_distinct_key_iff)
  qed
qed

end
