(* ===== verification/Feeds.thy ===== *)
theory Feeds
  imports Reviews Listings
begin

text \<open>
  The three ways \<open>internal/listing\<close> assembles the feed (\<open>query_naive.go\<close>, \<open>loader.go\<close>,
  \<open>query_optimized.go\<close>): a query per row and relation, one batched query per relation, one
  join. They agree on tables that satisfy their constraints, and differ in their queries.
\<close>

record feed_item =
  fi_listing :: int
  fi_title :: string
  fi_price :: int
  fi_deposit :: int
  fi_owner :: int
  fi_owner_name :: string
  fi_category :: int
  fi_category_name :: string
  fi_reviews :: int
  fi_rating :: rat

definition feed_item_of :: "listing \<Rightarrow> int \<Rightarrow> string \<Rightarrow> int \<Rightarrow> string \<Rightarrow> int \<Rightarrow> rat \<Rightarrow> feed_item" where
  "feed_item_of l owner ownerName cat catName reviews rating =
     \<lparr>fi_listing = ls_id l, fi_title = ls_title l, fi_price = ls_price l, fi_deposit = ls_deposit l,
      fi_owner = owner, fi_owner_name = ownerName, fi_category = cat, fi_category_name = catName,
      fi_reviews = reviews, fi_rating = rating\<rparr>"

subsection \<open>Naive\<close>

fun naive_items :: "(int list \<Rightarrow> rat) \<Rightarrow> listing list \<Rightarrow> world \<Rightarrow> (gerr + feed_item list) \<times> world" where
  "naive_items avg [] w = (Inr [], w)"
| "naive_items avg (l # ls) w =
     bind_res (map_err (Wrapped ''listing: naive feed owner lookup'') (user_GetByID (ls_owner l) w)) (\<lambda>owner w1.
     bind_res (map_err (Wrapped ''listing: naive feed category lookup'') (category_GetByID (ls_category l) w1)) (\<lambda>cat w2.
     bind_res (map_err (Wrapped ''listing: naive feed rating lookup'') (GetRatingSummary avg (ls_id l) w2)) (\<lambda>rating w3.
     bind_res (naive_items avg ls w3) (\<lambda>rest w4.
       (Inr (feed_item_of l (us_id owner) (us_name owner) (ca_id cat) (ca_name cat) (rs_count rating) (rs_avg rating) # rest), w4)))))"

definition GetFeed_naive :: "(int list \<Rightarrow> rat) \<Rightarrow> int \<Rightarrow> int \<Rightarrow> world \<Rightarrow> (gerr + feed_item list) \<times> world" where
  "GetFeed_naive avg limit offset w =
     bind_res (map_err (Wrapped ''listing: naive feed'') (ListActivePage limit offset w)) (naive_items avg)"

subsection \<open>Batched\<close>

text \<open>The identifiers in the order of their first occurrence.\<close>

fun seen_once :: "int list \<Rightarrow> int list \<Rightarrow> int list" where
  "seen_once seen [] = []"
| "seen_once seen (i # is) = (if i \<in> set seen then seen_once seen is else i # seen_once (i # seen) is)"

text \<open>A missing map entry reads as the zero value of the struct.\<close>

definition batched_item :: "(int \<Rightarrow> user option) \<Rightarrow> (int \<Rightarrow> category option) \<Rightarrow> (int \<Rightarrow> rating_summary option) \<Rightarrow> listing \<Rightarrow> feed_item" where
  "batched_item owners cats ratings l =
     (let (oid, oname) = (case owners (ls_owner l) of None \<Rightarrow> (0, '''') | Some u \<Rightarrow> (us_id u, us_name u));
          (cid, cname) = (case cats (ls_category l) of None \<Rightarrow> (0, '''') | Some c \<Rightarrow> (ca_id c, ca_name c));
          (n, a) = (case ratings (ls_id l) of None \<Rightarrow> (0, 0) | Some s \<Rightarrow> (rs_count s, rs_avg s))
      in feed_item_of l oid oname cid cname n a)"

definition GetFeed_batched :: "(int list \<Rightarrow> rat) \<Rightarrow> int \<Rightarrow> int \<Rightarrow> world \<Rightarrow> (gerr + feed_item list) \<times> world" where
  "GetFeed_batched avg limit offset w =
     bind_res (map_err (Wrapped ''listing: batched feed'') (ListActivePage limit offset w)) (\<lambda>rows w1.
     bind_res (map_err (Wrapped ''listing: batched feed owners'') (user_GetByIDs (seen_once [] (map ls_owner rows)) w1)) (\<lambda>owners w2.
     bind_res (map_err (Wrapped ''listing: batched feed categories'') (category_GetByIDs (seen_once [] (map ls_category rows)) w2)) (\<lambda>cats w3.
     bind_res (map_err (Wrapped ''listing: batched feed ratings'') (GetRatingSummaries avg (map ls_id rows) w3)) (\<lambda>ratings w4.
       (Inr (map (batched_item owners cats ratings) rows), w4)))))"

subsection \<open>Optimized\<close>

text \<open>One row per listing, owner and category that join, with the left-joined summary.\<close>

definition left_summary :: "(int list \<Rightarrow> rat) \<Rightarrow> tables \<Rightarrow> int \<Rightarrow> int \<times> rat" where
  "left_summary avg t i = (case find (\<lambda>s. rs_listing s = i) (grouped_summaries avg t) of
     None \<Rightarrow> (0, 0) | Some s \<Rightarrow> (rs_count s, rs_avg s))"

definition feed_join :: "(int list \<Rightarrow> rat) \<Rightarrow> tables \<Rightarrow> listing list \<Rightarrow> feed_item list" where
  "feed_join avg t ls = concat (map (\<lambda>l. concat (map (\<lambda>u. map (\<lambda>c.
       case left_summary avg t (ls_id l) of (n, a) \<Rightarrow>
         feed_item_of l (us_id u) (us_name u) (ca_id c) (ca_name c) n a)
     (filter (\<lambda>c. ca_id c = ls_category l) (t_categories t)))
     (filter (\<lambda>u. us_id u = ls_owner l) (t_users t)))) ls)"

definition optimizedFeedQuery :: "(int list \<Rightarrow> rat) \<Rightarrow> (int \<Rightarrow> int) \<Rightarrow> int \<Rightarrow> int \<Rightarrow> tables \<Rightarrow> feed_item list" where
  "optimizedFeedQuery avg rank limit offset t = page limit offset
     (feed_join avg t (newest_first rank (filter (\<lambda>l. ls_status l = StatusActive) (t_listings t))))"

definition optimizedDetailQuery :: "(int list \<Rightarrow> rat) \<Rightarrow> int \<Rightarrow> tables \<Rightarrow> feed_item option" where
  "optimizedDetailQuery avg i t =
     (case feed_join avg t (filter (\<lambda>l. ls_id l = i) (t_listings t)) of [] \<Rightarrow> None | x # _ \<Rightarrow> Some x)"

definition GetFeed_optimized :: "(int list \<Rightarrow> rat) \<Rightarrow> int \<Rightarrow> int \<Rightarrow> world \<Rightarrow> (gerr + feed_item list) \<times> world" where
  "GetFeed_optimized avg limit offset w = map_err (Wrapped ''listing: optimized feed'')
     (sql_select (optimizedFeedQuery avg (row_rank w) limit offset) w)"

definition GetByID_optimized :: "(int list \<Rightarrow> rat) \<Rightarrow> int \<Rightarrow> world \<Rightarrow> (gerr + feed_item) \<times> world" where
  "GetByID_optimized avg i w = map_err (Wrapped ''listing: optimized detail'')
     (sql_get (optimizedDetailQuery avg i) w)"

subsection \<open>One item per listing\<close>

text \<open>What a feed shows of a listing whose owner and category exist.\<close>

definition joined_item :: "(int list \<Rightarrow> rat) \<Rightarrow> tables \<Rightarrow> listing \<Rightarrow> feed_item" where
  "joined_item avg t l = feed_item_of l (ls_owner l)
     (case user_by_id (ls_owner l) t of None \<Rightarrow> '''' | Some u \<Rightarrow> us_name u) (ls_category l)
     (case category_by_id (ls_category l) t of None \<Rightarrow> '''' | Some c \<Rightarrow> ca_name c)
     (int (length (ratings_of (ls_id l) t))) (coalesced_avg avg (ratings_of (ls_id l) t))"

lemma left_summary_eq: "left_summary avg t i = (int (length (ratings_of i t)), coalesced_avg avg (ratings_of i t))"
  by (simp add: left_summary_def grouped_find coalesced_avg_def)

lemma filter_key_singleton:
  "distinct (map k xs) \<Longrightarrow> i \<in> k ` set xs \<Longrightarrow> \<exists>x. find (\<lambda>x. k x = i) xs = Some x \<and> filter (\<lambda>x. k x = i) xs = [x] \<and> k x = i"
proof (induction xs)
  case (Cons a xs)
  show ?case
  proof (cases "k a = i")
    case True
    with Cons.prems have "\<forall>x\<in>set xs. k x \<noteq> i" by (metis distinct.simps(2) image_eqI list.set_map list.simps(9))
    with True show ?thesis by (simp add: filter_False)
  next
    case False
    with Cons.prems have "distinct (map k xs)" "i \<in> k ` set xs" by auto
    from Cons.IH [OF this] False show ?thesis by simp
  qed
qed simp

definition refs_ok :: "tables \<Rightarrow> listing \<Rightarrow> bool" where
  "refs_ok t l \<longleftrightarrow> (\<exists>u. user_by_id (ls_owner l) t = Some u \<and> us_id u = ls_owner l \<and> filter (\<lambda>u. us_id u = ls_owner l) (t_users t) = [u])
     \<and> (\<exists>c. category_by_id (ls_category l) t = Some c \<and> ca_id c = ls_category l \<and> filter (\<lambda>c. ca_id c = ls_category l) (t_categories t) = [c])"

lemma wf_refs_ok: "wf_tables ck t \<Longrightarrow> l \<in> set (t_listings t) \<Longrightarrow> refs_ok t l"
  using filter_key_singleton [of us_id "t_users t" "ls_owner l"] filter_key_singleton [of ca_id "t_categories t" "ls_category l"]
  by (auto simp: refs_ok_def wf_defs listing_ok_def user_by_id_def category_by_id_def)

lemma feed_join_map: "\<forall>l\<in>set ls. refs_ok t l \<Longrightarrow> feed_join avg t ls = map (joined_item avg t) ls"
  by (induction ls) (auto simp: feed_join_def refs_ok_def left_summary_eq joined_item_def)

lemma optimized_page:
  assumes "wf_tables ck t"
  shows "optimizedFeedQuery avg rank m n t = map (joined_item avg t) (active_page rank m n t)"
proof -
  have "\<forall>l\<in>set (newest_first rank (filter (\<lambda>l. ls_status l = StatusActive) (t_listings t))). refs_ok t l"
    using wf_refs_ok [OF assms] by (auto simp: newest_first_def)
  then show ?thesis
    by (simp add: optimizedFeedQuery_def active_page_def feed_join_map page_def take_map drop_map)
qed

lemma optimized_detail:
  assumes "wf_tables ck t"
  shows "optimizedDetailQuery avg i t = map_option (joined_item avg t) (listing_by_id i t)"
proof (cases "listing_by_id i t")
  case None
  then have "filter (\<lambda>l. ls_id l = i) (t_listings t) = []"
    by (auto simp: listing_by_id_def find_None_iff filter_empty_conv)
  with None show ?thesis by (simp add: optimizedDetailQuery_def feed_join_def)
next
  case (Some l)
  then have l: "l \<in> set (t_listings t)" "ls_id l = i" using listing_by_id_Some by auto
  have "distinct (map ls_id (t_listings t))" using assms by (simp add: wf_defs)
  then have "filter (\<lambda>l. ls_id l = i) (t_listings t) = [l]"
    using filter_key_singleton [of ls_id "t_listings t" i] l Some by (auto simp: listing_by_id_def)
  then show ?thesis using Some wf_refs_ok [OF assms l(1)] by (simp add: optimizedDetailQuery_def feed_join_map)
qed

end
