(* ===== verification/Catalog.thy ===== *)
theory Catalog
  imports Feeds Cache
begin

text \<open>
  \<open>internal/listing\<close>'s service and HTTP operations: creating a listing with its event, and the
  feed and detail endpoints with the cache in front of the optimized queries.
\<close>

subsection \<open>Service\<close>

record listing_input =
  li_owner :: int
  li_category :: int
  li_title :: string
  li_desc :: string
  li_price :: int
  li_deposit :: int

definition new_listing :: "listing_input \<Rightarrow> listing" where
  "new_listing inp = \<lparr>ls_id = 0, ls_owner = li_owner inp, ls_category = li_category inp, ls_title = li_title inp,
     ls_desc = li_desc inp, ls_price = li_price inp, ls_deposit = li_deposit inp, ls_status = StatusActive,
     ls_created = zero_time, ls_updated = zero_time\<rparr>"

definition created_event :: "listing \<Rightarrow> string \<Rightarrow> listing_event" where
  "created_event l categoryName = \<lparr>le_type = EventListingCreated, le_listing = ls_id l, le_title = ls_title l,
     le_desc = ls_desc l, le_price = ls_price l, le_category = categoryName, le_status = lstatus_str (ls_status l)\<rparr>"

text \<open>A failing category lookup leaves the name empty; a failing publisher is only logged.\<close>

definition listing_service_Create :: "bool \<Rightarrow> listing_input \<Rightarrow> world \<Rightarrow> (gerr + listing) \<times> world" where
  "listing_service_Create has_publisher inp w =
     (if li_title inp = '''' \<or> li_price inp \<le> 0 then (Inl ErrInvalidInput, w)
      else bind_res (listing_Create (new_listing inp) w) (\<lambda>i w1.
           bind_res (listing_GetByID i w1) (\<lambda>created w2.
             case category_GetByID (ls_category created) w2 of (rc, w3) \<Rightarrow>
               let categoryName = (case rc of Inl e \<Rightarrow> '''' | Inr c \<Rightarrow> ca_name c)
               in (Inr created, snd (listing_publishEvent has_publisher (created_event created categoryName) w3)))))"

subsection \<open>HTTP\<close>

record listing_handler =
  lh_publisher :: bool
  lh_cache :: "time option"
  lh_etag :: etag_lib
  lh_avg :: "int list \<Rightarrow> rat"

text \<open>\<open>lh_cache\<close> is the time to live of the cache, \<open>None\<close> without a cache.\<close>

definition feed_limit :: "http_req \<Rightarrow> int" where
  "feed_limit r = (let v = field (rq_query r) ''limit'' in if v = '''' then 20
     else case parse_int64 v of Inl e \<Rightarrow> 20 | Inr n \<Rightarrow> if 0 < n \<and> n \<le> 100 then n else 20)"

definition feed_offset :: "http_req \<Rightarrow> int" where
  "feed_offset r = (let v = field (rq_query r) ''offset'' in if v = '''' then 0
     else case parse_int64 v of Inl e \<Rightarrow> 0 | Inr n \<Rightarrow> if 0 \<le> n then n else 0)"

definition feed_item_json :: "feed_item \<Rightarrow> json" where
  "feed_item_json f = JObj
     [(''listing_id'', JNum (fi_listing f)), (''title'', JStr (fi_title f)),
      (''price_per_day_cents'', JNum (fi_price f)), (''deposit_cents'', JNum (fi_deposit f)),
      (''owner_id'', JNum (fi_owner f)), (''owner_name'', JStr (fi_owner_name f)),
      (''category_id'', JNum (fi_category f)), (''category_name'', JStr (fi_category_name f)),
      (''review_count'', JNum (fi_reviews f)), (''avg_rating'', JFloat (fi_rating f))]"

definition Feed :: "listing_handler \<Rightarrow> handler" where
  "Feed h r w =
     (let limit = feed_limit r; offset = feed_offset r;
          (cached, w1) = (case lh_cache h of None \<Rightarrow> (None, w) | Some ttl \<Rightarrow> GetFeed limit offset w)
      in case cached of
           Some body \<Rightarrow> (WriteCacheableJSON (lh_etag h) r 200 (clock w1) body, w1)
         | None \<Rightarrow>
        (case GetFeed_optimized (lh_avg h) limit offset w1 of
           (Inl e, w2) \<Rightarrow> (Error 500 ''could not load listings'', w2)
         | (Inr items, w2) \<Rightarrow>
             let body = JArr (map feed_item_json items);
                 w3 = (case lh_cache h of None \<Rightarrow> w2 | Some ttl \<Rightarrow> SetFeed ttl limit offset body w2)
             in (WriteCacheableJSON (lh_etag h) r 200 (clock w3) body, w3)))"

definition listing_GetDetail :: "listing_handler \<Rightarrow> handler" where
  "listing_GetDetail h r w =
     (case parse_int64 (rq_id r) of
        Inl e \<Rightarrow> (Error 400 ''invalid listing id'', w)
      | Inr i \<Rightarrow>
        (let (cached, w1) = (case lh_cache h of None \<Rightarrow> (None, w) | Some ttl \<Rightarrow> GetDetail i w)
         in case cached of
              Some body \<Rightarrow> (WriteCacheableJSON (lh_etag h) r 200 (clock w1) body, w1)
            | None \<Rightarrow>
           (case GetByID_optimized (lh_avg h) i w1 of
              (Inl e, w2) \<Rightarrow> (Error 404 ''listing not found'', w2)
            | (Inr item, w2) \<Rightarrow>
                let body = feed_item_json item;
                    w3 = (case lh_cache h of None \<Rightarrow> w2 | Some ttl \<Rightarrow> SetDetail ttl i body w2)
                in (WriteCacheableJSON (lh_etag h) r 200 (clock w3) body, w3))))"

record listing_request =
  lq_category :: int
  lq_title :: string
  lq_desc :: string
  lq_price :: int
  lq_deposit :: int

definition listing_json :: "listing \<Rightarrow> json" where
  "listing_json l = JObj
     [(''id'', JNum (ls_id l)), (''owner_id'', JNum (ls_owner l)), (''category_id'', JNum (ls_category l)),
      (''title'', JStr (ls_title l)), (''description'', JStr (ls_desc l)),
      (''price_per_day_cents'', JNum (ls_price l)), (''deposit_cents'', JNum (ls_deposit l)),
      (''status'', JStr (lstatus_str (ls_status l))), (''created_at'', JTime (ls_created l)),
      (''updated_at'', JTime (ls_updated l))]"

definition listing_create_handler :: "listing_handler \<Rightarrow> listing_request option \<Rightarrow> handler" where
  "listing_create_handler h body r w =
     (case rq_claims r of
        None \<Rightarrow> (Error 401 ''authentication required'', w)
      | Some cl \<Rightarrow>
     (case body of
        None \<Rightarrow> (Error 400 ''invalid request body'', w)
      | Some req \<Rightarrow>
     (case listing_service_Create (lh_publisher h)
             \<lparr>li_owner = cl_user cl, li_category = lq_category req, li_title = lq_title req,
              li_desc = lq_desc req, li_price = lq_price req, li_deposit = lq_deposit req\<rparr> w of
        (Inl e, w1) \<Rightarrow>
          (if errors_is e ErrInvalidInput then (Error 400 ''title and a positive price_per_day_cents are required'', w1)
           else (Error 500 ''could not create listing'', w1))
      | (Inr l, w1) \<Rightarrow> (JSON 201 (Some (listing_json l)), w1))))"

subsection \<open>Limits\<close>

lemma feed_limit_range: "1 \<le> feed_limit r \<and> feed_limit r \<le> 100"
  by (simp add: feed_limit_def Let_def split: sum.splits)

lemma feed_offset_range: "0 \<le> feed_offset r"
  by (simp add: feed_offset_def Let_def split: sum.splits)

subsection \<open>The cache in front of a query\<close>

lemma cache_get_works:
  "faults w = [] \<Longrightarrow> cache_get k w = ((case r_live w k of Some (RBody b) \<Rightarrow> Some b | Some (RInt n) \<Rightarrow> Some (JNum n) | None \<Rightarrow> None), w)"
  by (simp add: cache_get_def redis_get_def io_ok split: option.splits rval.splits)

lemma r_live_update [simp]:
  "r_live (w\<lparr>faults := fs\<rparr>) k = r_live w k" "r_live (w\<lparr>queries := n\<rparr>) k = r_live w k"
  by (simp_all add: r_live_def split: option.splits prod.splits)

lemma cache_get_miss:
  assumes "r_live w k = None" and "cache_get k w = (r, w')"
  shows "r = None \<and> w' = w\<lparr>faults := tl (faults w)\<rparr>"
proof -
  obtain f where f: "io w = (f, w\<lparr>faults := tl (faults w)\<rparr>)" by (rule io_cases)
  then show ?thesis using assms by (cases f) (simp_all add: cache_get_def redis_get_def)
qed

lemma cache_set_same:
  "reader (cache_set ttl k b w) = reader w" "clock (cache_set ttl k b w) = clock w"
  "queries (cache_set ttl k b w) = queries w" "primary (cache_set ttl k b w) = primary w"
proof -
  obtain f where f: "io w = (f, w\<lparr>faults := tl (faults w)\<rparr>)" by (rule io_cases)
  show "reader (cache_set ttl k b w) = reader w" "clock (cache_set ttl k b w) = clock w"
    "queries (cache_set ttl k b w) = queries w" "primary (cache_set ttl k b w) = primary w"
    by (cases f; simp add: cache_set_def redis_write_def f r_put_def)+
qed

lemma cache_set_works:
  "faults w = [] \<Longrightarrow> cache_set ttl k b w = r_put k (Some (RBody b, Some (clock w + ttl))) w"
  by (simp add: cache_set_def redis_write_def io_ok)

lemma optimized_read:
  assumes "GetFeed_optimized avg m n w = (Inr xs, w')"
  shows "xs = optimizedFeedQuery avg (row_rank w) m n (reader w)"
  using assms sql_select_ok [of _ w xs w'] by (simp add: GetFeed_optimized_def)

end
