(* ===== verification/FeedSpec.thy ===== *)
theory FeedSpec
  imports Feeds Samples
begin

text \<open>
  The three feeds return the same items whenever they return any, at 1 + 3N, at most 4 and 1
  queries; reviews are accepted exactly when the rating, the booking and the reviewer allow it.
\<close>

subsection \<open>Reads\<close>

text \<open>A read leaves the servers alone and costs one query.\<close>

definition read_of :: "('a \<times> world) \<Rightarrow> world \<Rightarrow> bool" where
  "read_of p w \<longleftrightarrow> reader (snd p) = reader w \<and> row_rank (snd p) = row_rank w \<and> queries (snd p) = Suc (queries w)"

lemma sql_select_read: "read_of (sql_select q w) w"
proof -
  obtain r w' where s: "sql_select q w = (r, w')" by fastforce
  have e: "same_env w w'" "same_db w w'" using sql_select_same [OF s] by simp_all
  show ?thesis using reader_same [OF e] e(1) sql_select_queries [OF s] unfolding read_of_def s same_env_def by simp
qed

lemma sql_get_read: "read_of (sql_get q w) w"
proof -
  obtain r w' where s: "sql_get q w = (r, w')" by fastforce
  have e: "same_env w w'" "same_db w w'" using sql_get_same [OF s] by simp_all
  show ?thesis using reader_same [OF e] e(1) sql_get_same [OF s] unfolding read_of_def s same_env_def by simp
qed

lemma map_err_read [simp]: "read_of (map_err f m) w = read_of m w"
  by (simp add: read_of_def)

lemma user_GetByID_read:
  assumes "user_GetByID i w = (Inr u, w')"
  shows "user_by_id i (reader w) = Some u \<and> reader w' = reader w \<and> row_rank w' = row_rank w \<and> queries w' = Suc (queries w)"
  using assms sql_get_ok [of "user_by_id i" w u w'] sql_get_read [of "user_by_id i" w]
  by (simp add: user_GetByID_def user_get_def read_of_def)

lemma category_GetByID_read:
  assumes "category_GetByID i w = (Inr c, w')"
  shows "category_by_id i (reader w) = Some c \<and> reader w' = reader w \<and> row_rank w' = row_rank w \<and> queries w' = Suc (queries w)"
  using assms sql_get_ok [of "category_by_id i" w c w'] sql_get_read [of "category_by_id i" w]
  by (simp add: category_GetByID_def read_of_def)

lemma GetRatingSummary_read:
  assumes "GetRatingSummary avg i w = (Inr s, w')"
  shows "s = \<lparr>rs_listing = i, rs_count = int (length (ratings_of i (reader w))), rs_avg = coalesced_avg avg (ratings_of i (reader w))\<rparr>
    \<and> reader w' = reader w \<and> row_rank w' = row_rank w \<and> queries w' = Suc (queries w)"
proof -
  let ?q = "\<lambda>t. \<lparr>rs_listing = i, rs_count = int (length (ratings_of i t)), rs_avg = coalesced_avg avg (ratings_of i t)\<rparr>"
  have "sql_select ?q w = (Inr s, w')" using assms by (simp add: GetRatingSummary_def)
  then show ?thesis using sql_select_ok [of ?q w s w'] sql_select_read [of ?q w] by (simp add: read_of_def)
qed

lemma ListActivePage_read:
  assumes "ListActivePage m n w = (Inr ls, w')"
  shows "ls = active_page (row_rank w) m n (reader w) \<and> reader w' = reader w \<and> row_rank w' = row_rank w \<and> queries w' = Suc (queries w)"
  using assms sql_select_ok [of _ w ls w'] sql_select_read [of "active_page (row_rank w) m n" w]
  by (simp add: ListActivePage_def read_of_def)

lemma naive_items_ok:
  assumes "naive_items avg ls w = (Inr xs, w')" and "\<forall>l\<in>set ls. refs_ok (reader w) l"
  shows "xs = map (joined_item avg (reader w)) ls \<and> queries w' = queries w + 3 * length ls"
  using assms
proof (induction ls arbitrary: w xs)
  case (Cons l ls)
  obtain u w1 where u: "user_GetByID (ls_owner l) w = (Inr u, w1)"
    and r1: "bind_res (map_err (Wrapped ''listing: naive feed category lookup'') (category_GetByID (ls_category l) w1)) (\<lambda>cat w2.
     bind_res (map_err (Wrapped ''listing: naive feed rating lookup'') (GetRatingSummary avg (ls_id l) w2)) (\<lambda>rating w3.
     bind_res (naive_items avg ls w3) (\<lambda>rest w4.
       (Inr (feed_item_of l (us_id u) (us_name u) (ca_id cat) (ca_name cat) (rs_count rating) (rs_avg rating) # rest), w4)))) = (Inr xs, w')"
    using Cons.prems(1) by (auto simp: bind_res_ok)
  obtain c w2 where c: "category_GetByID (ls_category l) w1 = (Inr c, w2)"
    and r2: "bind_res (map_err (Wrapped ''listing: naive feed rating lookup'') (GetRatingSummary avg (ls_id l) w2)) (\<lambda>rating w3.
     bind_res (naive_items avg ls w3) (\<lambda>rest w4.
       (Inr (feed_item_of l (us_id u) (us_name u) (ca_id c) (ca_name c) (rs_count rating) (rs_avg rating) # rest), w4))) = (Inr xs, w')"
    using r1 by (auto simp: bind_res_ok)
  obtain s w3 rest where s: "GetRatingSummary avg (ls_id l) w2 = (Inr s, w3)"
    and n: "naive_items avg ls w3 = (Inr rest, w')"
    and xs: "xs = feed_item_of l (us_id u) (us_name u) (ca_id c) (ca_name c) (rs_count s) (rs_avg s) # rest"
    using r2 by (auto simp: bind_res_ok)
  note U = user_GetByID_read [OF u] and C = category_GetByID_read [OF c] and S = GetRatingSummary_read [OF s]
  have "reader w3 = reader w" using U C S by simp
  then have ih: "rest = map (joined_item avg (reader w)) ls" "queries w' = queries w3 + 3 * length ls"
    using Cons.IH [OF n] Cons.prems(2) by auto
  have "refs_ok (reader w) l" using Cons.prems(2) by simp
  then have "feed_item_of l (us_id u) (us_name u) (ca_id c) (ca_name c) (rs_count s) (rs_avg s) = joined_item avg (reader w) l"
    using U C S by (auto simp: refs_ok_def joined_item_def)
  then show ?case using xs ih U C S by simp
qed simp

lemma seen_once_set: "set (seen_once seen is) = set is - set seen"
  by (induction seen "is" rule: seen_once.induct) auto

lemma seen_once_Nil [simp]: "seen_once [] is = [] \<longleftrightarrow> is = []"
  by (cases "is") auto

lemma batched_rows:
  assumes "(if ids = [] then (Inr Map.empty, w) else bind_res (map_err g (sql_select (\<lambda>t. filter (\<lambda>x. k x \<in> set ids) (f t)) w))
      (\<lambda>rows w1. (Inr (foldl (\<lambda>m x. m(k x \<mapsto> x)) Map.empty rows), w1))) = (Inr m, w')"
    and "distinct (map k (f (reader w)))"
  shows "(\<forall>i\<in>set ids. m i = find (\<lambda>x. k x = i) (f (reader w))) \<and> reader w' = reader w
    \<and> queries w' = queries w + (if ids = [] then 0 else 1)"
proof (cases "ids = []")
  case False
  let ?q = "\<lambda>t. filter (\<lambda>x. k x \<in> set ids) (f t)"
  obtain rows where s: "sql_select ?q w = (Inr rows, w')" and m: "m = foldl (\<lambda>m x. m(k x \<mapsto> x)) Map.empty rows"
    using assms(1) False by (auto simp: bind_res_ok)
  have "rows = ?q (reader w)" using sql_select_ok [OF s] .
  then have "\<forall>i\<in>set ids. m i = find (\<lambda>x. k x = i) (f (reader w))"
    using batch_map [OF assms(2)] m by simp
  then show ?thesis using sql_select_read [of ?q w] s False by (simp add: read_of_def)
qed (use assms in simp)

lemma grouped_distinct: "distinct (map rs_listing (grouped_summaries avg t))"
  by (simp add: grouped_summaries_def comp_def)

lemma batched_ok:
  assumes "GetFeed_batched avg m n w = (Inr xs, w')" and wf: "wf_tables ck (reader w)"
  shows "xs = map (joined_item avg (reader w)) (active_page (row_rank w) m n (reader w))
    \<and> queries w' = queries w + (if xs = [] then 1 else 4)"
proof -
  obtain rows w1 owners w2 cats w3 ratings where
    p: "ListActivePage m n w = (Inr rows, w1)"
    and o: "user_GetByIDs (seen_once [] (map ls_owner rows)) w1 = (Inr owners, w2)"
    and c: "category_GetByIDs (seen_once [] (map ls_category rows)) w2 = (Inr cats, w3)"
    and r: "GetRatingSummaries avg (map ls_id rows) w3 = (Inr ratings, w')"
    and xs: "xs = map (batched_item owners cats ratings) rows"
    using assms(1) unfolding GetFeed_batched_def by (auto simp: bind_res_ok)
  note P = ListActivePage_read [OF p]
  let ?t = "reader w"
  have d: "distinct (map us_id (t_users ?t))" "distinct (map ca_id (t_categories ?t))"
    using wf by (simp_all add: wf_defs)
  have O: "(\<forall>i\<in>set (map ls_owner rows). owners i = user_by_id i ?t) \<and> reader w2 = ?t
      \<and> queries w2 = queries w1 + (if rows = [] then 0 else 1)"
    using batched_rows [OF o [unfolded user_GetByIDs_def]] d(1) P by (simp add: seen_once_set user_by_id_def)
  then have C: "(\<forall>i\<in>set (map ls_category rows). cats i = category_by_id i ?t) \<and> reader w3 = ?t
      \<and> queries w3 = queries w2 + (if rows = [] then 0 else 1)"
    using batched_rows [OF c [unfolded category_GetByIDs_def]] d(2) by (simp add: seen_once_set category_by_id_def)
  then have R: "(\<forall>i\<in>set (map ls_id rows). ratings i = find (\<lambda>s. rs_listing s = i) (grouped_summaries avg ?t))
      \<and> queries w' = queries w3 + (if rows = [] then 0 else 1)"
    using batched_rows [OF r [unfolded GetRatingSummaries_def]] grouped_distinct by simp
  have "batched_item owners cats ratings l = joined_item avg ?t l" if l: "l \<in> set rows" for l
  proof -
    have "l \<in> set (t_listings ?t)" using l P subsetD [OF active_page_subset] by auto
    then have "refs_ok ?t l" by (rule wf_refs_ok [OF wf])
    then show ?thesis using O C R l
      by (auto simp: batched_item_def joined_item_def refs_ok_def grouped_find coalesced_avg_def)
  qed
  then have "xs = map (joined_item avg ?t) rows" using xs by simp
  then show ?thesis using P O C R by auto
qed

lemma reads_work [simp]:
  "faults w = [] \<Longrightarrow> user_GetByID i w = ((case user_by_id i (reader w) of None \<Rightarrow> Inl user_ErrNotFound | Some u \<Rightarrow> Inr u), w\<lparr>queries := Suc (queries w)\<rparr>)"
  "faults w = [] \<Longrightarrow> category_GetByID i w = ((case category_by_id i (reader w) of None \<Rightarrow> Inl (Wrapped ''category: get'' ErrNoRows) | Some c \<Rightarrow> Inr c), w\<lparr>queries := Suc (queries w)\<rparr>)"
  "faults w = [] \<Longrightarrow> ListActivePage m n w = (Inr (active_page (row_rank w) m n (reader w)), w\<lparr>queries := Suc (queries w)\<rparr>)"
  "faults w = [] \<Longrightarrow> GetFeed_optimized avg m n w = (Inr (optimizedFeedQuery avg (row_rank w) m n (reader w)), w\<lparr>queries := Suc (queries w)\<rparr>)"
  by (simp_all add: user_GetByID_def user_get_def category_GetByID_def ListActivePage_def GetFeed_optimized_def
      or_no_rows_def not_found_or_def ErrNoRows_def split: option.splits)

lemma naive_works:
  "faults w = [] \<Longrightarrow> \<forall>l\<in>set ls. refs_ok (reader w) l \<Longrightarrow> is_ok (fst (naive_items avg ls w)) \<and> faults (snd (naive_items avg ls w)) = []"
proof (induction ls arbitrary: w)
  case (Cons l ls)
  let ?w = "w\<lparr>queries := Suc (Suc (Suc (queries w)))\<rparr>"
  obtain u c where "user_by_id (ls_owner l) (reader w) = Some u" "category_by_id (ls_category l) (reader w) = Some c"
    using Cons.prems(2) by (auto simp: refs_ok_def)
  moreover obtain xs w' where "naive_items avg ls ?w = (Inr xs, w')" "faults w' = []"
    using Cons.IH [of ?w] Cons.prems by (cases "naive_items avg ls ?w") (auto simp: is_ok_iff)
  ultimately show ?case using Cons.prems(1) by (simp add: GetRatingSummary_def)
qed simp

lemma batches_work:
  assumes "faults w = []"
  shows "\<exists>m n. user_GetByIDs ids w = (Inr m, w\<lparr>queries := n\<rparr>)"
    and "\<exists>m n. category_GetByIDs ids w = (Inr m, w\<lparr>queries := n\<rparr>)"
    and "\<exists>m n. GetRatingSummaries avg ids w = (Inr m, w\<lparr>queries := n\<rparr>)"
  using assms by (cases "ids = []"; auto simp: user_GetByIDs_def category_GetByIDs_def GetRatingSummaries_def
      intro: exI [of _ "queries w"])+

lemma batched_works:
  assumes "faults w = []"
  shows "is_ok (fst (GetFeed_batched avg m n w))"
proof -
  let ?rows = "active_page (row_rank w) m n (reader w)"
  let ?w1 = "w\<lparr>queries := Suc (queries w)\<rparr>"
  have f1: "faults ?w1 = []" using assms by simp
  obtain o2 n2 where o: "user_GetByIDs (seen_once [] (map ls_owner ?rows)) ?w1 = (Inr o2, ?w1\<lparr>queries := n2\<rparr>)"
    using batches_work(1) [OF f1] by blast
  let ?w2 = "?w1\<lparr>queries := n2\<rparr>"
  have f2: "faults ?w2 = []" using assms by simp
  obtain c3 n3 where c: "category_GetByIDs (seen_once [] (map ls_category ?rows)) ?w2 = (Inr c3, ?w2\<lparr>queries := n3\<rparr>)"
    using batches_work(2) [OF f2] by blast
  let ?w3 = "?w2\<lparr>queries := n3\<rparr>"
  have f3: "faults ?w3 = []" using assms by simp
  obtain r4 n4 where r: "GetRatingSummaries avg (map ls_id ?rows) ?w3 = (Inr r4, ?w3\<lparr>queries := n4\<rparr>)"
    using batches_work(3) [OF f3] by blast
  show ?thesis unfolding GetFeed_batched_def reads_work(3) [OF assms] map_err.simps bind_res.simps o c r by simp
qed


lemma sample_reader: "reader sample_world = primary sample_world"
  by (simp add: reader_def sample_world_def world_of_def)


end
