(* ===== verification/CatalogSpec.thy ===== *)
theory CatalogSpec
  imports Catalog FeedSpec
begin

text \<open>
  What the catalogue endpoints promise: the feed shows active listings only, at most a hundred,
  and comes from the cache until the entry expires; a detail is found or 404; a listing is
  created exactly when its data fit and is then on its owner's name.
\<close>

text \<open>The feed answers 200 or 304 with the joined items of the requested page of
  active listings, between 1 and 100 of them, or 500, whenever the cache holds no live entry for
  the page, under any failures of Redis and MySQL.\<close>

theorem feed_page:
  assumes "wf_tables ck (reader w)" and "r_live w (feedKey (feed_limit r) (feed_offset r)) = None"
    and "items = map (joined_item (lh_avg h) (reader w))
           (active_page (row_rank w) (feed_limit r) (feed_offset r) (reader w))"
  shows "rs_status (fst (Feed h r w)) = 500
    \<or> fst (Feed h r w) = WriteCacheableJSON (lh_etag h) r 200 (clock w) (JArr (map feed_item_json items))
      \<and> length items \<le> 100
      \<and> (\<forall>f\<in>set items. \<exists>l\<in>set (t_listings (reader w)). fi_listing f = ls_id l \<and> ls_status l = StatusActive)"
proof -
  define w1 where "w1 = (case lh_cache h of None \<Rightarrow> w | Some ttl \<Rightarrow> w\<lparr>faults := tl (faults w)\<rparr>)"
  have g: "(case lh_cache h of None \<Rightarrow> (None, w) | Some ttl \<Rightarrow> GetFeed (feed_limit r) (feed_offset r) w) = (None, w1)"
  proof (cases "lh_cache h")
    case (Some ttl)
    obtain c w2 where c: "cache_get (feedKey (feed_limit r) (feed_offset r)) w = (c, w2)" by fastforce
    from cache_get_miss [OF assms(2) c] c Some show ?thesis by (simp add: GetFeed_def w1_def)
  qed (simp add: w1_def)
  have w1: "reader w1 = reader w" "row_rank w1 = row_rank w" "clock w1 = clock w"
    by (simp_all add: w1_def split: option.splits)
  have "nat (feed_limit r) \<le> 100" using feed_limit_range [of r] by (simp add: nat_le_iff)
  then have len: "length items \<le> 100"
    using active_page_length [of "row_rank w" "feed_limit r" "feed_offset r" "reader w"] assms(3) by simp
  have act: "\<forall>f\<in>set items. \<exists>l\<in>set (t_listings (reader w)). fi_listing f = ls_id l \<and> ls_status l = StatusActive"
    using active_page_active subsetD [OF active_page_subset] assms(3)
    by (fastforce simp: joined_item_def feed_item_of_def)
  obtain res w2 where q: "GetFeed_optimized (lh_avg h) (feed_limit r) (feed_offset r) w1 = (res, w2)" by fastforce
  show ?thesis
  proof (cases res)
    case (Inl e)
    then show ?thesis using g q by (simp add: Feed_def)
  next
    case (Inr xs)
    have "xs = items" using optimized_read [OF q [unfolded Inr]] w1 assms(1,3) by (simp add: optimized_page)
    moreover have "clock w2 = clock w"
      using sql_select_same [of _ w1 res w2] q Inr w1 by (auto simp: GetFeed_optimized_def same_db_def)
    ultimately have "fst (Feed h r w) = WriteCacheableJSON (lh_etag h) r 200 (clock w) (JArr (map feed_item_json items))"
      using g q Inr by (simp add: Feed_def Let_def SetFeed_def cache_set_same split: option.splits)
    with len act show ?thesis by blast
  qed
qed

definition get_req :: "(string \<times> string) list \<Rightarrow> string \<Rightarrow> http_req" where
  "get_req q i = \<lparr>rq_method = ''GET'', rq_id = i, rq_query = q, rq_headers = [], rq_cookies = [],
     rq_form = None, rq_remote = '''', rq_claims = None\<rparr>"

definition sample_etag :: etag_lib where
  "sample_etag = \<lparr>md5 = id, marshal = (\<lambda>_. ''b''), format_http = (\<lambda>_. ''d''), parse_http = (\<lambda>_. None)\<rparr>"

definition sample_catalog :: "time option \<Rightarrow> listing_handler" where
  "sample_catalog ttl = \<lparr>lh_publisher = True, lh_cache = ttl, lh_etag = sample_etag, lh_avg = (\<lambda>_. 0)\<rparr>"

lemma sample_facts:
  "wf_tables id (reader sample_world)" "faults sample_world = []" "redis sample_world = Map.empty" "replica sample_world = None"
proof -
  have "email_key sample_world = id" by (simp add: sample_world_def world_of_def)
  then show "wf_tables id (reader sample_world)"
    using sample_inv unfolding world_inv_def booking_inv_def db_of_def fst_conv sample_reader by metis
qed (simp_all add: sample_world_def world_of_def)

theorem feed_page_witness:
  "rs_status (fst (Feed (sample_catalog None) (get_req [] '''') sample_world)) \<in> {200, 304, 500}"
proof -
  have "r_live sample_world k = None" for k by (simp add: r_live_def sample_facts)
  from feed_page [OF sample_facts(1) this refl, of "sample_catalog None" "get_req [] ''''"]
  show ?thesis using cacheable_status by (metis insert_iff)
qed

text \<open>A page that was just served is served again from the cache for as long as the
  entry lives, with the same body and without a query, whatever happened to the tables in
  between.\<close>

theorem feed_cached_until_expiry:
  assumes "faults w = []" and "lh_cache h = Some ttl" and "r_live w (feedKey (feed_limit r) (feed_offset r)) = None"
    and "Feed h r w = (resp, w1)" and "0 \<le> d" and "d < ttl"
  shows "\<exists>body. resp = WriteCacheableJSON (lh_etag h) r 200 (clock w) body
    \<and> Feed h r (w1\<lparr>clock := clock w + d, primary := t', replica := rep'\<rparr>)
      = (WriteCacheableJSON (lh_etag h) r 200 (clock w + d) body, w1\<lparr>clock := clock w + d, primary := t', replica := rep'\<rparr>)"
proof -
  let ?k = "feedKey (feed_limit r) (feed_offset r)"
  define body where "body = JArr (map feed_item_json (optimizedFeedQuery (lh_avg h) (row_rank w) (feed_limit r) (feed_offset r) (reader w)))"
  define w2 where "w2 = r_put ?k (Some (RBody body, Some (clock w + ttl))) (w\<lparr>queries := Suc (queries w)\<rparr>)"
  have g: "GetFeed (feed_limit r) (feed_offset r) w = (None, w)"
    using assms(1,3) by (simp add: GetFeed_def cache_get_works)
  have s: "SetFeed ttl (feed_limit r) (feed_offset r) body (w\<lparr>queries := Suc (queries w)\<rparr>) = w2"
    using assms(1) by (simp add: SetFeed_def cache_set_works w2_def)
  have F: "Feed h r w = (WriteCacheableJSON (lh_etag h) r 200 (clock w2) body, w2)"
    unfolding Feed_def assms(2) option.case g Let_def prod.case reads_work(4) [OF assms(1)] sum.case body_def [symmetric] s ..
  have w1: "w1 = w2" "resp = WriteCacheableJSON (lh_etag h) r 200 (clock w) body"
    using F assms(4) by (simp_all add: w2_def)
  let ?w = "w2\<lparr>clock := clock w + d, primary := t', replica := rep'\<rparr>"
  have live: "r_live ?w ?k = Some (RBody body)" using assms(5,6) by (simp add: r_live_def w2_def)
  have "faults ?w = []" using assms(1) by (simp add: w2_def)
  then have g2: "GetFeed (feed_limit r) (feed_offset r) ?w = (Some body, ?w)"
    using live by (simp add: GetFeed_def cache_get_works)
  have "Feed h r ?w = (WriteCacheableJSON (lh_etag h) r 200 (clock w + d) body, ?w)"
    unfolding Feed_def assms(2) option.case g2 Let_def prod.case by simp
  then show ?thesis using w1 by blast
qed

theorem feed_cached_until_expiry_witness:
  "\<exists>resp w1. Feed (sample_catalog (Some 30)) (get_req [] '''') sample_world = (resp, w1)
    \<and> queries (snd (Feed (sample_catalog (Some 30)) (get_req [] '''')
        (w1\<lparr>clock := clock sample_world + 5, primary := sample_tables Cancelled, replica := None\<rparr>))) = queries w1"
proof -
  obtain resp w1 where f: "Feed (sample_catalog (Some 30)) (get_req [] '''') sample_world = (resp, w1)" by fastforce
  have "r_live sample_world k = None" for k by (simp add: r_live_def sample_facts)
  from feed_cached_until_expiry [where ttl = 30 and d = 5 and t' = "sample_tables Cancelled" and rep' = None, OF sample_facts(2) _ this f] f
  show ?thesis by (auto simp: sample_catalog_def)
qed

text \<open>Without a cache, a listing's detail is 400 for a malformed identifier, 200 or 304
  for a listing that exists and 404 for one that does not; a failing database is also reported
  as 404.\<close>

theorem detail_status:
  assumes "wf_tables ck (reader w)" and "lh_cache h = None"
  shows "rs_status (fst (listing_GetDetail h r w)) =
    (case parse_int64 (rq_id r) of Inl e \<Rightarrow> 400
     | Inr i \<Rightarrow> (case fst (io w) of
         Works \<Rightarrow> (case listing_by_id i (reader w) of None \<Rightarrow> 404
            | Some l \<Rightarrow> rs_status (WriteCacheableJSON (lh_etag h) r 200 (clock w) (feed_item_json (joined_item (lh_avg h) (reader w) l))))
       | _ \<Rightarrow> 404))"
proof (cases "parse_int64 (rq_id r)")
  case (Inr i)
  let ?q = "optimizedDetailQuery (lh_avg h) i"
  have q: "?q (reader w) = map_option (joined_item (lh_avg h) (reader w)) (listing_by_id i (reader w))"
    by (rule optimized_detail [OF assms(1)])
  obtain f where f: "io w = (f, w\<lparr>faults := tl (faults w)\<rparr>)" by (rule io_cases)
  have "io (count_query w) = (f, (w\<lparr>queries := Suc (queries w), faults := tl (faults w)\<rparr>))"
    using f by (cases "faults w") (auto simp: io_def count_query_def)
  then have "sql_get ?q w = ((case f of Works \<Rightarrow> or_no_rows (?q (reader w)) | Fails g \<Rightarrow> Inl g | Lost s \<Rightarrow> Inl (OtherErr s)),
      w\<lparr>queries := Suc (queries w), faults := tl (faults w)\<rparr>)"
    by (simp add: sql_get_def sql_select_def split: fault.splits)
  then show ?thesis using Inr assms(2) f q
    by (cases f; cases "listing_by_id i (reader w)") (simp_all add: listing_GetDetail_def GetByID_optimized_def or_no_rows_def Let_def)
qed (simp add: listing_GetDetail_def)

theorem detail_status_witness:
  "rs_status (fst (listing_GetDetail (sample_catalog None) (get_req [] ''x'') sample_world)) = 400"
proof -
  have "parse_int64 (rq_id (get_req [] ''x'')) = Inl ErrSyntax" by code_simp
  then show ?thesis using detail_status [OF sample_facts(1), of "sample_catalog None" "get_req [] ''x''"]
    by (simp add: sample_catalog_def)
qed

definition listing_fits :: "listing \<Rightarrow> tables \<Rightarrow> bool" where
  "listing_fits l t \<longleftrightarrow> uint_range 32 (ls_price l) \<and> uint_range 32 (ls_deposit l) \<and> uint_range 64 (ls_owner l)
     \<and> uint_range 64 (ls_category l) \<and> ls_owner l \<in> us_id ` set (t_users t) \<and> ls_category l \<in> ca_id ` set (t_categories t)"

lemma insert_listing_cases:
  assumes "fresh_ids ai t"
  obtains (fits) now' where "listing_fits l t"
      "insert_listing l now t ai = (Inr (ai TListings), t\<lparr>t_listings := t_listings t @ [l\<lparr>ls_id := ai TListings, ls_created := now', ls_updated := now'\<rparr>]\<rparr>, bump TListings ai)"
      "listing_by_id (ai TListings) (t\<lparr>t_listings := t_listings t @ [l\<lparr>ls_id := ai TListings, ls_created := now', ls_updated := now'\<rparr>]\<rparr>)
         = Some (l\<lparr>ls_id := ai TListings, ls_created := now', ls_updated := now'\<rparr>)"
  | (bad) e ai' where "\<not> listing_fits l t" "insert_listing l now t ai = (Inl e, t, ai')" "\<not> errors_is e ErrInvalidInput"
proof (cases "listing_fits l t")
  case True
  have "find (\<lambda>l. ls_id l = ai TListings) (t_listings t) = None"
    using assms by (auto simp: fresh_ids_def find_None_iff)
  then show thesis using True
    by (intro fits [of "db_now now"]) (simp_all add: listing_fits_def insert_listing_def Let_def listing_by_id_def find_append)
next
  case False
  show thesis
    by (cases "\<not> uint_range 64 (ls_category l) \<or> \<not> uint_range 64 (ls_owner l) \<or> \<not> uint_range 32 (ls_price l) \<or> \<not> uint_range 32 (ls_deposit l)")
      (use False bad in \<open>auto simp: listing_fits_def insert_listing_def err_range_def err_fk_def ErrInvalidInput_def\<close>)
qed

definition as_requested :: "listing_input \<Rightarrow> listing \<Rightarrow> bool" where
  "as_requested inp l \<longleftrightarrow> ls_owner l = li_owner inp \<and> ls_category l = li_category inp \<and> ls_title l = li_title inp
     \<and> ls_desc l = li_desc inp \<and> ls_price l = li_price inp \<and> ls_deposit l = li_deposit inp \<and> ls_status l = StatusActive"

lemma service_create_works:
  assumes "faults w = []" and "replica w = None" and "fresh_ids (counters_of w) (primary w)"
    and "li_title inp \<noteq> ''''" and "0 < li_price inp" and "listing_service_Create has inp w = (r, w')"
  shows "if listing_fits (new_listing inp) (primary w)
    then \<exists>l. r = Inr l \<and> primary w' = (primary w)\<lparr>t_listings := t_listings (primary w) @ [l]\<rparr>
      \<and> as_requested inp l \<and> listing_by_id (ls_id l) (primary w') = Some l
    else \<exists>e. r = Inl e \<and> \<not> errors_is e ErrInvalidInput \<and> primary w' = primary w"
  using assms(3)
proof (cases rule: insert_listing_cases [where l = "new_listing inp" and now = "clock w"])
  case (fits now')
  define l where "l = (new_listing inp)\<lparr>ls_id := counters_of w TListings, ls_created := now', ls_updated := now'\<rparr>"
  define t' where "t' = (primary w)\<lparr>t_listings := t_listings (primary w) @ [l]\<rparr>"
  define w1 where "w1 = w\<lparr>queries := Suc (queries w), primary := t', counters_of := bump TListings (counters_of w)\<rparr>"
  have c: "listing_Create (new_listing inp) w = (Inr (ls_id l), w1)"
    unfolding listing_Create_def sql_exec_works [where d = "insert_listing (new_listing inp)", OF assms(1) fits(2)] by (simp add: w1_def t'_def l_def)
  have f1: "faults w1 = []" "reader w1 = t'" using assms(1,2) by (simp_all add: w1_def reader_def)
  have l: "listing_by_id (ls_id l) t' = Some l" using fits(3) by (simp add: l_def t'_def)
  define w2 where "w2 = w1\<lparr>queries := Suc (queries w1)\<rparr>"
  have g: "listing_GetByID (ls_id l) w1 = (Inr l, w2)"
    unfolding listing_GetByID_works [OF f1(1)] f1(2) l by (simp add: w2_def)
  have f2: "faults w2 = []" "primary w2 = t'" using f1 by (simp_all add: w2_def w1_def)
  obtain rc w3 where k: "category_GetByID (ls_category l) w2 = (rc, w3)" by fastforce
  have "primary w3 = t'" using k f2 by (auto simp: reads_work)
  then have "r = Inr l \<and> primary w' = t'"
    using assms(4-6) c g k by (auto simp: listing_service_Create_def Let_def listing_publishEvent_def io_effect_same)
  moreover have "as_requested inp l" by (simp add: l_def as_requested_def new_listing_def)
  ultimately show ?thesis using fits(1) l t'_def by simp
next
  case (bad e ai')
  have c: "listing_Create (new_listing inp) w = (Inl (Wrapped ''listing: create'' e), w\<lparr>queries := Suc (queries w), primary := primary w, counters_of := ai'\<rparr>)"
    unfolding listing_Create_def sql_exec_works [where d = "insert_listing (new_listing inp)", OF assms(1) bad(2)] by simp
  then show ?thesis using assms(4-6) bad by (auto simp: listing_service_Create_def ErrInvalidInput_def)
qed

text \<open>What the handler does with a request that carries claims and a body.\<close>

lemma listing_posted:
  assumes "faults w = []" and "replica w = None" and "fresh_ids (counters_of w) (primary w)"
    and "rq_claims r = Some cl"
    and "inp = \<lparr>li_owner = cl_user cl, li_category = lq_category q, li_title = lq_title q,
          li_desc = lq_desc q, li_price = lq_price q, li_deposit = lq_deposit q\<rparr>"
    and "listing_create_handler h (Some q) r w = (resp, w')"
  shows "if lq_title q = '''' \<or> lq_price q \<le> 0 then rs_status resp = 400 \<and> w' = w
    else if listing_fits (new_listing inp) (primary w)
    then \<exists>l. primary w' = (primary w)\<lparr>t_listings := t_listings (primary w) @ [l]\<rparr> \<and> resp = JSON 201 (Some (listing_json l))
      \<and> as_requested inp l \<and> listing_by_id (ls_id l) (primary w') = Some l
    else rs_status resp = 500 \<and> primary w' = primary w"
proof -
  obtain res w1 where s: "listing_service_Create (lh_publisher h) inp w = (res, w1)" by fastforce
  have e: "(resp, w') = (case (res, w1) of (Inl e, w1) \<Rightarrow>
        (if errors_is e ErrInvalidInput then (Error 400 ''title and a positive price_per_day_cents are required'', w1)
         else (Error 500 ''could not create listing'', w1))
    | (Inr l, w1) \<Rightarrow> (JSON 201 (Some (listing_json l)), w1))"
    using assms(6) unfolding listing_create_handler_def assms(4) option.case assms(5) [symmetric] s ..
  show ?thesis
  proof (cases "lq_title q = '''' \<or> lq_price q \<le> 0")
    case True
    then have "res = Inl ErrInvalidInput \<and> w1 = w" using s by (auto simp: listing_service_Create_def assms(5))
    with True e show ?thesis by simp
  next
    case False
    then have "li_title inp \<noteq> ''''" "0 < li_price inp" by (simp_all add: assms(5))
    from service_create_works [OF assms(1-3) this s] show ?thesis
      using e False by (cases res) (auto split: if_splits)
  qed
qed


definition sample_listing_request :: listing_request where
  "sample_listing_request = \<lparr>lq_category = 1, lq_title = ''Kayak'', lq_desc = '''', lq_price = 900, lq_deposit = 0\<rparr>"


subsection \<open>Reviews\<close>

definition reviewable :: "int \<Rightarrow> int \<Rightarrow> tables \<Rightarrow> bool" where
  "reviewable booking reviewer t \<longleftrightarrow> uint_range 64 booking \<and> uint_range 64 reviewer \<and> booking \<in> bk_id ` set (t_bookings t)
     \<and> booking \<notin> rv_booking ` set (t_reviews t) \<and> reviewer \<in> us_id ` set (t_users t)"

lemma insert_review_cases:
  assumes "1 \<le> rv_rating v" and "rv_rating v \<le> 5"
  obtains (ok) row ai' where "reviewable (rv_booking v) (rv_reviewer v) t"
      "insert_review v now t ai = (Inr (rv_id row), t\<lparr>t_reviews := t_reviews t @ [row]\<rparr>, ai')"
      "row = v\<lparr>rv_id := rv_id row, rv_created := rv_created row\<rparr>"
  | (bad) e ai' where "\<not> reviewable (rv_booking v) (rv_reviewer v) t" "insert_review v now t ai = (Inl e, t, ai')"
      "\<not> errors_is e ErrInvalidRating"
proof (cases "reviewable (rv_booking v) (rv_reviewer v) t")
  case True
  then show thesis using assms
    by (intro ok [of "v\<lparr>rv_id := ai TReviews, rv_created := db_now now\<rparr>" "bump TReviews ai"])
      (simp_all add: reviewable_def insert_review_def uint_range_def Let_def)
next
  case False
  then have "\<exists>e ai'. insert_review v now t ai = (Inl e, t, ai') \<and> e \<in> {err_range, err_dup, err_fk}"
    using assms by (simp add: reviewable_def insert_review_def uint_range_def del: de_Morgan_conj) blast
  with False show thesis by (auto intro: bad simp: err_range_def err_dup_def err_fk_def ErrInvalidRating_def)
qed

text \<open>What the handler does with a review that carries claims and a body.\<close>

lemma review_posted:
  assumes "faults w = []" and "rq_claims r = Some cl" and "review_handler (Some q) r w = (resp, w')"
  shows "if rr_rating q < 1 \<or> 5 < rr_rating q then rs_status resp = 400 \<and> w' = w
    else if reviewable (rr_booking q) (cl_user cl) (primary w)
    then rs_status resp = 201 \<and> (\<exists>v. primary w' = (primary w)\<lparr>t_reviews := t_reviews (primary w) @ [v]\<rparr>
       \<and> rv_booking v = rr_booking q \<and> rv_reviewer v = cl_user cl \<and> rv_rating v = rr_rating q \<and> rv_comment v = rr_comment q)
    else rs_status resp = 500 \<and> primary w' = primary w"
proof (cases "rr_rating q < 1 \<or> 5 < rr_rating q")
  case True
  then have "review_Create (rr_booking q) (cl_user cl) (rr_rating q) (rr_comment q) w = (Inl ErrInvalidRating, w)"
    by (simp add: review_Create_def)
  then show ?thesis using True assms(3) unfolding review_handler_def assms(2) by auto
next
  case False
  define v where "v = \<lparr>rv_id = 0, rv_booking = rr_booking q, rv_reviewer = cl_user cl, rv_rating = rr_rating q,
                   rv_comment = rr_comment q, rv_created = zero_time\<rparr>"
  have rng: "1 \<le> rv_rating v" "rv_rating v \<le> 5" using False by (simp_all add: v_def)
  have c: "review_Create (rr_booking q) (cl_user cl) (rr_rating q) (rr_comment q) w
      = bind_res (review_repo_Create v w) (\<lambda>i w1. (Inr (v\<lparr>rv_id := i\<rparr>), w1))"
    using False by (simp add: review_Create_def v_def)
  note run = assms(3) [unfolded review_handler_def assms(2) option.case c review_repo_Create_def]
  from rng show ?thesis
  proof (cases rule: insert_review_cases [where now = "clock w" and t = "primary w" and ai = "counters_of w"])
    case (ok row ai')
    note x = sql_exec_works [where d = "insert_review v", OF assms(1) ok(2)]
    have "rv_booking row = rr_booking q \<and> rv_reviewer row = cl_user cl \<and> rv_rating row = rr_rating q \<and> rv_comment row = rr_comment q"
      by (subst (1 2 3 4) ok(3)) (simp add: v_def)
    then show ?thesis using False ok(1) run unfolding x map_err.simps bind_res.simps by (auto simp: v_def)
  next
    case (bad e ai')
    note x = sql_exec_works [where d = "insert_review v", OF assms(1) bad(2)]
    have "\<not> errors_is (Wrapped ''review: create'' e) ErrInvalidRating" using bad(3) by (simp add: ErrInvalidRating_def)
    then show ?thesis using False bad(1) run unfolding x map_err.simps bind_res.simps by (auto simp: v_def)
  qed
qed



end
