(* ===== verification/Polling.thy ===== *)
theory Polling
  imports BookingApi
begin

text \<open>
  \<open>internal/realtime/polling.go\<close>: the long poll. The handler checks the booking, waits for the
  next tick of a 500 ms ticker and checks again, until the booking is newer than \<open>since\<close> or 25
  seconds have passed. Between two checks other requests run; a check takes time itself.
\<close>

definition poll_timeout :: nat where "poll_timeout = 25000000000"
definition poll_interval :: nat where "poll_interval = 500000000"

text \<open>
  What the handler does not control: the work of others before each check, the duration of each
  check, and which case \<open>select\<close> takes when a tick and the deadline come together.
\<close>

record poll_env =
  pe_others :: "nat \<Rightarrow> world \<Rightarrow> world"
  pe_delay :: "nat \<Rightarrow> nat"
  pe_tick_wins :: bool

definition pollResponse :: "booking option \<Rightarrow> time \<Rightarrow> json" where
  "pollResponse b now = JObj ((''changed'', JBool (b \<noteq> None))
     # (case b of None \<Rightarrow> [] | Some x \<Rightarrow> [(''booking'', toResponse x)])
     @ [(''server_time'', JNum (unix_milli now))])"

definition pass :: "nat \<Rightarrow> world \<Rightarrow> world" where
  "pass d w = w\<lparr>clock := clock w + int d\<rparr>"

text \<open>
  A tick that came during a slow check is waiting in the ticker's channel; later ones of the same
  check were dropped.
\<close>

definition next_tick :: "nat \<Rightarrow> nat \<Rightarrow> nat \<times> nat" where
  "next_tick c e = (if Suc c * poll_interval \<le> e then (e, e div poll_interval) else (Suc c * poll_interval, Suc c))"

lemma next_tick_step: "next_tick c e = (t, c') \<Longrightarrow> c < c' \<and> c' * poll_interval \<le> t \<and> e \<le> t"
proof (cases "Suc c * poll_interval \<le> e")
  case True
  then have "Suc c \<le> e div poll_interval" by (simp add: less_eq_div_iff_mult_less_eq poll_interval_def)
  with True show "next_tick c e = (t, c') \<Longrightarrow> c < c' \<and> c' * poll_interval \<le> t \<and> e \<le> t"
    by (auto simp: next_tick_def)
qed (auto simp: next_tick_def)

lemma ticks_before_timeout: "c * poll_interval \<le> t \<Longrightarrow> t \<le> poll_timeout \<Longrightarrow> c \<le> 50"
  by (simp add: poll_interval_def poll_timeout_def)

lemma next_tick_measure:
  "next_tick c e = (t, c') \<Longrightarrow> t < poll_timeout \<or> t = poll_timeout \<and> b \<Longrightarrow> 50 - c' < 50 - c"
  using next_tick_step [of c e t c'] ticks_before_timeout [of c' t] by fastforce

text \<open>
  The loop: \<open>c\<close> ticks are consumed, \<open>e\<close> is the time since the request came, \<open>n\<close> the number of
  the check. The result carries the time of the answer and the number of checks. A check that
  outlives the deadline fails with the context's error.
\<close>

function poll_loop :: "poll_env \<Rightarrow> int \<Rightarrow> int \<Rightarrow> nat \<Rightarrow> nat \<Rightarrow> nat \<Rightarrow> world \<Rightarrow> http_resp \<times> nat \<times> nat \<times> world" where
  "poll_loop env since i c e n w =
     (let e1 = e + pe_delay env n; w0 = pass (pe_delay env n) (pe_others env n w)
      in if poll_timeout \<le> e1 then (Error 500 ''could not check booking status'', e1, Suc n, w0)
         else case GetByID i w0 of
           (Inl err, w1) \<Rightarrow>
             ((if errors_is err ErrNotFound then Error 404 ''booking not found''
               else Error 500 ''could not check booking status''), e1, Suc n, w1)
         | (Inr b, w1) \<Rightarrow>
             if since < unix_milli (bk_updated b)
             then (JSON 200 (Some (pollResponse (Some b) (clock w1))), e1, Suc n, w1)
             else case next_tick c e1 of (t, c') \<Rightarrow>
               if t < poll_timeout \<or> t = poll_timeout \<and> pe_tick_wins env
               then poll_loop env since i c' t (Suc n) (pass (t - e1) w1)
               else (JSON 200 (Some (pollResponse None (clock (pass (poll_timeout - e1) w1)))),
                     poll_timeout, Suc n, pass (poll_timeout - e1) w1))"
  by pat_completeness auto

termination
  by (relation "measure (\<lambda>(env, since, i, c, e, n, w). 50 - c)") (simp, auto intro: next_tick_measure [OF sym])

declare poll_loop.simps [simp del]

definition Poll :: "poll_env \<Rightarrow> http_req \<Rightarrow> world \<Rightarrow> http_resp \<times> nat \<times> nat \<times> world" where
  "Poll env r w =
     (case parse_int64 (rq_id r) of
        Inl e \<Rightarrow> (Error 400 ''invalid booking id'', 0, 0, w)
      | Inr i \<Rightarrow>
        let since = (if field (rq_query r) ''since'' = '''' then 0 else fst (parse_int (field (rq_query r) ''since'')))
        in poll_loop env since i 0 0 0 w)"

lemma poll_checks:
  assumes "poll_loop env since i c e n w = (resp, t, m, w')" and "c * poll_interval \<le> e" and "c \<le> 50"
  shows "n < m \<and> m \<le> Suc n + (50 - c) \<and> e \<le> t \<and> t \<le> max poll_timeout e + pe_delay env (m - 1)
    \<and> rs_status resp \<in> {200, 404, 500}"
  using assms
proof (induction env since i c e n w arbitrary: resp t m w' rule: poll_loop.induct)
  case (1 env since i c e n w)
  let ?e1 = "e + pe_delay env n"
  let ?w0 = "pass (pe_delay env n) (pe_others env n w)"
  show ?case
  proof (cases "poll_timeout \<le> ?e1")
    case True
    then have "resp = Error 500 ''could not check booking status''" "t = ?e1" "m = Suc n"
      using 1(2) by (simp_all add: poll_loop.simps [of env] Let_def)
    then show ?thesis by simp
  next
    case False
    obtain rb w1 where g: "GetByID i ?w0 = (rb, w1)" by fastforce
    show ?thesis
    proof (cases rb)
      case (Inl err)
      then have "t = ?e1" "m = Suc n" "rs_status resp \<in> {404, 500}"
        using 1(2) False g by (auto simp: poll_loop.simps [of env] Let_def split: if_splits)
      then show ?thesis by auto
    next
      case (Inr b)
      show ?thesis
      proof (cases "since < unix_milli (bk_updated b)")
        case True
        then have "t = ?e1" "m = Suc n" "rs_status resp = 200"
          using 1(2) False g Inr by (auto simp: poll_loop.simps [of env] Let_def)
        then show ?thesis by auto
      next
        case old: False
        obtain s c' where nt: "next_tick c ?e1 = (s, c')" by fastforce
        note st = next_tick_step [OF nt]
        show ?thesis
        proof (cases "s < poll_timeout \<or> s = poll_timeout \<and> pe_tick_wins env")
          case True
          have eq: "poll_loop env since i c' s (Suc n) (pass (s - ?e1) w1) = (resp, t, m, w')"
            using 1(2) False g Inr old nt True by (simp add: poll_loop.simps [of env since i c] Let_def)
          have "c' * poll_interval \<le> s" "c' \<le> 50" "s \<le> poll_timeout"
            using st ticks_before_timeout [of c' s] True by auto
          from 1(1) [OF refl refl False g [symmetric] Inr old nt [symmetric] True eq this(1,2)]
          show ?thesis using st \<open>c' \<le> 50\<close> \<open>s \<le> poll_timeout\<close> by (auto simp: max_def)
        next
          case stop: False
          then have "t = poll_timeout" "m = Suc n" "rs_status resp = 200"
            using 1(2) False g Inr old nt by (auto simp: poll_loop.simps [of env since i c] Let_def)
          then show ?thesis using False by auto
        qed
      qed
    qed
  qed
qed

subsection \<open>What a poll sees\<close>

text \<open>The world of check \<open>n\<close> when checks take no time.\<close>

primrec poll_at :: "poll_env \<Rightarrow> int \<Rightarrow> world \<Rightarrow> nat \<Rightarrow> world" where
  "poll_at env i w 0 = pe_others env 0 w"
| "poll_at env i w (Suc n) = pe_others env (Suc n) (pass poll_interval (snd (GetByID i (poll_at env i w n))))"

definition unchanged_at :: "poll_env \<Rightarrow> int \<Rightarrow> int \<Rightarrow> world \<Rightarrow> nat \<Rightarrow> bool" where
  "unchanged_at env since i w n \<longleftrightarrow> (\<exists>b. fst (GetByID i (poll_at env i w n)) = Inr b \<and> unix_milli (bk_updated b) \<le> since)"

lemma pass_0 [simp]: "pass 0 w = w"
  by (simp add: pass_def)

lemma next_tick_on_time: "next_tick n (n * poll_interval) = (Suc n * poll_interval, Suc n)"
  by (simp add: next_tick_def poll_interval_def)

lemma poll_step:
  assumes "pe_delay env = (\<lambda>_. 0)" and "pe_others env n W = poll_at env i w n" and "n < 50" and "unchanged_at env since i w n"
  shows "poll_loop env since i n (n * poll_interval) n W =
    (if Suc n < 50 \<or> Suc n = 50 \<and> pe_tick_wins env
     then poll_loop env since i (Suc n) (Suc n * poll_interval) (Suc n) (pass poll_interval (snd (GetByID i (poll_at env i w n))))
     else (JSON 200 (Some (pollResponse None (clock (pass poll_interval (snd (GetByID i (poll_at env i w n))))))),
       poll_timeout, Suc n, pass poll_interval (snd (GetByID i (poll_at env i w n)))))"
proof -
  obtain b w1 where g: "GetByID i (poll_at env i w n) = (Inr b, w1)" and old: "\<not> since < unix_milli (bk_updated b)"
    using assms(4) unfolding unchanged_at_def by (metis not_le prod.collapse)
  have e: "\<not> poll_timeout \<le> n * poll_interval" using assms(3) by (simp add: poll_timeout_def poll_interval_def)
  have lt: "Suc n * poll_interval < poll_timeout \<longleftrightarrow> Suc n < 50" "Suc n * poll_interval = poll_timeout \<longleftrightarrow> Suc n = 50"
    by (auto simp: poll_timeout_def poll_interval_def)
  have d: "Suc n * poll_interval - n * poll_interval = poll_interval" by simp
  have d50: "poll_timeout - n * poll_interval = poll_interval" if "\<not> (Suc n < 50)"
    using that assms(3) by (simp add: poll_timeout_def poll_interval_def)
  show ?thesis
    unfolding poll_loop.simps [of env since i n] assms(1,2) add_0_right pass_0 Let_def if_not_P [OF e] g prod.case sum.case
      if_not_P [OF old] next_tick_on_time lt d snd_conv
    using d50 by auto
qed

lemma poll_reaches:
  assumes "pe_delay env = (\<lambda>_. 0)" and "k < 50" and "\<forall>m<k. unchanged_at env since i w m"
  shows "n \<le> k \<Longrightarrow> pe_others env n W = poll_at env i w n \<Longrightarrow>
    \<exists>W'. pe_others env k W' = poll_at env i w k
      \<and> poll_loop env since i n (n * poll_interval) n W = poll_loop env since i k (k * poll_interval) k W'"
proof (induction "k - n" arbitrary: n W)
  case 0
  then have "n = k" by simp
  with 0 show ?case by blast
next
  case (Suc d)
  then have n: "n < k" by simp
  let ?W = "pass poll_interval (snd (GetByID i (poll_at env i w n)))"
  have "poll_loop env since i n (n * poll_interval) n W = poll_loop env since i (Suc n) (Suc n * poll_interval) (Suc n) ?W"
    using poll_step [OF assms(1) Suc.prems(2)] n assms(2,3) by simp
  moreover have "\<exists>W'. pe_others env k W' = poll_at env i w k
      \<and> poll_loop env since i (Suc n) (Suc n * poll_interval) (Suc n) ?W = poll_loop env since i k (k * poll_interval) k W'"
    by (rule Suc.hyps(1)) (use Suc.hyps(2) n in auto)
  ultimately show ?case by simp
qed

lemma poll_hit:
  assumes "pe_delay env = (\<lambda>_. 0)" and "pe_others env k W = poll_at env i w k" and "k < 50"
    and "GetByID i (poll_at env i w k) = (Inr b, w1)" and "since < unix_milli (bk_updated b)"
  shows "poll_loop env since i k (k * poll_interval) k W =
    (JSON 200 (Some (pollResponse (Some b) (clock w1))), k * poll_interval, Suc k, w1)"
proof -
  have e: "\<not> poll_timeout \<le> k * poll_interval" using assms(3) by (simp add: poll_timeout_def poll_interval_def)
  show ?thesis
    unfolding poll_loop.simps [of env since i k] assms(1,2) add_0_right pass_0 Let_def if_not_P [OF e] assms(4) prod.case sum.case
      if_P [OF assms(5)] ..
qed

text \<open>C27 (termination): whatever others do and however long its checks take, a long poll answers
  200, 400, 404 or 500 after at most 51 checks, 25 seconds and the duration of its last check.\<close>

theorem poll_bounded:
  "\<exists>resp t m w'. Poll env r w = (resp, t, m, w') \<and> m \<le> 51 \<and> t \<le> poll_timeout + pe_delay env (m - 1)
    \<and> rs_status resp \<in> {200, 400, 404, 500}"
proof (cases "parse_int64 (rq_id r)")
  case (Inr i)
  obtain resp t m w' where p: "Poll env r w = (resp, t, m, w')" by (metis prod_cases4)
  then have "poll_loop env (if field (rq_query r) ''since'' = '''' then 0 else fst (parse_int (field (rq_query r) ''since''))) i 0 0 0 w
      = (resp, t, m, w')" using Inr by (simp add: Poll_def Let_def)
  from poll_checks [OF this] p show ?thesis by (auto simp: poll_timeout_def)
qed (simp add: Poll_def)


definition poll_sample_env :: poll_env where
  "poll_sample_env = \<lparr>pe_others = (\<lambda>n w. if n = 1 then w\<lparr>primary := (sample_tables Approved)
       \<lparr>t_bookings := [(sample_booking Approved)\<lparr>bk_updated := second\<rparr>]\<rparr>\<rparr> else w),
     pe_delay = (\<lambda>_. 0), pe_tick_wins = False\<rparr>"


end
