(* ===== verification/Hub.thy ===== *)
theory Hub
  imports BookingApi Auth
begin

text \<open>
  \<open>internal/realtime\<close>: the in-process hub, the owners' event stream over it (\<open>sse.go\<close>) and the
  listing availability socket (\<open>websocket.go\<close>). A subscription is a channel with room for eight
  payloads; publishing never waits. The two maps of the hub are one map over tagged keys.
\<close>

subsection \<open>The hub\<close>

datatype topic = OwnerTopic int | ListingTopic int

record channel =
  ch_buf :: "json list"
  ch_open :: bool

record hub =
  subs :: "topic \<Rightarrow> nat list option"
  chans :: "nat \<Rightarrow> channel"
  next_chan :: nat

definition subscriberBufferSize :: nat where "subscriberBufferSize = 8"

definition NewHub :: hub where
  "NewHub = \<lparr>subs = Map.empty, chans = (\<lambda>_. \<lparr>ch_buf = [], ch_open = False\<rparr>), next_chan = 0\<rparr>"

definition subscribers_of :: "hub \<Rightarrow> topic \<Rightarrow> nat list" where
  "subscribers_of h k = (case subs h k of None \<Rightarrow> [] | Some cs \<Rightarrow> cs)"

definition subscribe :: "topic \<Rightarrow> hub \<Rightarrow> nat \<times> hub" where
  "subscribe k h = (let c = next_chan h in
     (c, h\<lparr>subs := (subs h)(k \<mapsto> c # subscribers_of h k),
           chans := (chans h)(c := \<lparr>ch_buf = [], ch_open = True\<rparr>), next_chan := Suc c\<rparr>))"

text \<open>Closing a closed channel and sending on one panic, which is \<open>None\<close>.\<close>

definition cancel :: "topic \<Rightarrow> nat \<Rightarrow> hub \<Rightarrow> hub option" where
  "cancel k c h =
     (let rest = removeAll c (subscribers_of h k);
          h1 = h\<lparr>subs := (if rest = [] then (subs h)(k := None) else (subs h)(k \<mapsto> rest))\<rparr>
      in if \<not> ch_open (chans h c) then None
         else Some (h1\<lparr>chans := (chans h)(c := (chans h c)\<lparr>ch_open := False\<rparr>)\<rparr>))"

definition try_send :: "json \<Rightarrow> nat \<Rightarrow> hub \<Rightarrow> hub option" where
  "try_send p c h =
     (if \<not> ch_open (chans h c) then None
      else if length (ch_buf (chans h c)) < subscriberBufferSize
      then Some (h\<lparr>chans := (chans h)(c := (chans h c)\<lparr>ch_buf := ch_buf (chans h c) @ [p]\<rparr>)\<rparr>)
      else Some h)"

fun send_all :: "json \<Rightarrow> nat list \<Rightarrow> hub \<Rightarrow> hub option" where
  "send_all p [] h = Some h"
| "send_all p (c # cs) h = (case try_send p c h of None \<Rightarrow> None | Some h' \<Rightarrow> send_all p cs h')"

definition publish :: "topic \<Rightarrow> json \<Rightarrow> hub \<Rightarrow> hub option" where
  "publish k p h = send_all p (subscribers_of h k) h"

definition SubscribeOwner :: "int \<Rightarrow> hub \<Rightarrow> nat \<times> hub" where "SubscribeOwner i = subscribe (OwnerTopic i)"
definition PublishOwner :: "int \<Rightarrow> json \<Rightarrow> hub \<Rightarrow> hub option" where "PublishOwner i = publish (OwnerTopic i)"
definition SubscribeListing :: "int \<Rightarrow> hub \<Rightarrow> nat \<times> hub" where "SubscribeListing i = subscribe (ListingTopic i)"
definition PublishListing :: "int \<Rightarrow> json \<Rightarrow> hub \<Rightarrow> hub option" where "PublishListing i = publish (ListingTopic i)"

text \<open>The next payload of a channel, if one is there.\<close>

definition receive :: "nat \<Rightarrow> hub \<Rightarrow> (json \<times> hub) option" where
  "receive c h = (case ch_buf (chans h c) of [] \<Rightarrow> None
     | p # ps \<Rightarrow> Some (p, h\<lparr>chans := (chans h)(c := (chans h c)\<lparr>ch_buf := ps\<rparr>)\<rparr>))"

subsection \<open>Runs of the hub\<close>

text \<open>
  Handlers subscribe, receive and cancel their own subscription once; publishers publish. The
  history keeps each channel's key, what was published to the key while it was subscribed and
  what it received.
\<close>

record history =
  hi_key :: "nat \<Rightarrow> topic option"
  hi_sent :: "nat \<Rightarrow> json list"
  hi_got :: "nat \<Rightarrow> json list"

definition no_history :: history where
  "no_history = \<lparr>hi_key = Map.empty, hi_sent = (\<lambda>_. []), hi_got = (\<lambda>_. [])\<rparr>"

inductive hub_step :: "hub \<times> history \<Rightarrow> hub \<times> history \<Rightarrow> bool" where
  step_subscribe: "subscribe k h = (c, h') \<Longrightarrow>
     hub_step (h, y) (h', y\<lparr>hi_key := (hi_key y)(c \<mapsto> k)\<rparr>)"
| step_cancel: "hi_key y c = Some k \<Longrightarrow> cancel k c h = Some h' \<Longrightarrow>
     hub_step (h, y) (h', y\<lparr>hi_key := (hi_key y)(c := None)\<rparr>)"
| step_publish: "publish k p h = Some h' \<Longrightarrow>
     hub_step (h, y) (h', y\<lparr>hi_sent := (\<lambda>c. if hi_key y c = Some k then hi_sent y c @ [p] else hi_sent y c)\<rparr>)"
| step_receive: "receive c h = Some (p, h') \<Longrightarrow>
     hub_step (h, y) (h', y\<lparr>hi_got := (hi_got y)(c := hi_got y c @ [p])\<rparr>)"

definition hub_reachable :: "hub \<times> history \<Rightarrow> bool" where
  "hub_reachable s \<longleftrightarrow> hub_step\<^sup>*\<^sup>* (NewHub, no_history) s"

text \<open>
  Every registered channel is open, registered once under its own key and below the next number;
  buffers are bounded; and what was received followed by what is buffered is part of what was
  sent, in order.
\<close>

definition hub_inv :: "hub \<times> history \<Rightarrow> bool" where
  "hub_inv s \<longleftrightarrow> (case s of (h, y) \<Rightarrow>
     (\<forall>k. distinct (subscribers_of h k)) \<and> (\<forall>k. subs h k \<noteq> Some [])
     \<and> (\<forall>k c. c \<in> set (subscribers_of h k) \<longleftrightarrow> hi_key y c = Some k)
     \<and> (\<forall>c. ch_open (chans h c) \<longleftrightarrow> hi_key y c \<noteq> None) \<and> (\<forall>c. hi_key y c \<noteq> None \<longrightarrow> c < next_chan h)
     \<and> (\<forall>c. length (ch_buf (chans h c)) \<le> subscriberBufferSize)
     \<and> (\<forall>c. subseq (hi_got y c @ ch_buf (chans h c)) (hi_sent y c))
     \<and> (\<forall>c. next_chan h \<le> c \<longrightarrow> ch_buf (chans h c) = [] \<and> hi_got y c = [] \<and> hi_sent y c = []))"

subsection \<open>The invariant\<close>

definition push :: "json \<Rightarrow> channel \<Rightarrow> channel" where
  "push p ch = (if length (ch_buf ch) < subscriberBufferSize then ch\<lparr>ch_buf := ch_buf ch @ [p]\<rparr> else ch)"

lemma push_simps [simp]:
  "ch_open (push p ch) = ch_open ch"
  "length (ch_buf ch) \<le> subscriberBufferSize \<Longrightarrow> length (ch_buf (push p ch)) \<le> subscriberBufferSize"
  by (simp_all add: push_def)

lemma send_all_open:
  "distinct cs \<Longrightarrow> \<forall>c\<in>set cs. ch_open (chans h c) \<Longrightarrow>
   send_all p cs h = Some (h\<lparr>chans := (\<lambda>c. if c \<in> set cs then push p (chans h c) else chans h c)\<rparr>)"
proof (induction cs arbitrary: h)
  case (Cons c cs)
  let ?h = "h\<lparr>chans := (chans h)(c := push p (chans h c))\<rparr>"
  have s: "try_send p c h = Some ?h"
    using Cons.prems by (cases h) (simp add: try_send_def push_def fun_upd_idem)
  have "send_all p cs ?h = Some (?h\<lparr>chans := (\<lambda>d. if d \<in> set cs then push p (chans ?h d) else chans ?h d)\<rparr>)"
    by (rule Cons.IH) (use Cons.prems in auto)
  also have "(\<lambda>d. if d \<in> set cs then push p (chans ?h d) else chans ?h d)
      = (\<lambda>d. if d \<in> set (c # cs) then push p (chans h d) else chans h d)"
    using Cons.prems(1) by (auto simp: fun_eq_iff)
  finally have "send_all p cs ?h = Some (?h\<lparr>chans := (\<lambda>d. if d \<in> set (c # cs) then push p (chans h d) else chans h d)\<rparr>)" .
  then show ?case unfolding send_all.simps s option.case by (cases h) (simp only: hub.simps option.inject)
qed simp

lemma publish_inv:
  assumes "hub_inv (h, y)"
  shows "publish k p h = Some (h\<lparr>chans := (\<lambda>c. if hi_key y c = Some k then push p (chans h c) else chans h c)\<rparr>)"
proof -
  have "distinct (subscribers_of h k)" "\<forall>c\<in>set (subscribers_of h k). ch_open (chans h c)"
    and m: "\<And>c. c \<in> set (subscribers_of h k) \<longleftrightarrow> hi_key y c = Some k"
    using assms by (auto simp: hub_inv_def)
  from send_all_open [OF this(1,2)] show ?thesis unfolding publish_def m .
qed

lemma subseq_push:
  assumes "subseq (g @ ch_buf ch) s"
  shows "subseq (g @ ch_buf (push p ch)) (s @ [p])"
proof (cases "length (ch_buf ch) < subscriberBufferSize")
  case True
  have "subseq ((g @ ch_buf ch) @ [p]) (s @ [p])" using assms by (simp only: subseq_append)
  with True show ?thesis by (simp add: push_def)
next
  case False
  have "subseq (g @ ch_buf ch) (s @ [p])" using assms by (rule list_emb_prefix)
  with False show ?thesis by (simp add: push_def)
qed

lemma hub_inv_init: "hub_inv (NewHub, no_history)"
  by (simp add: hub_inv_def NewHub_def no_history_def subscribers_of_def)

lemma hub_inv_step: "hub_step s s' \<Longrightarrow> hub_inv s \<Longrightarrow> hub_inv s'"
proof (induction rule: hub_step.induct)
  case (step_subscribe k h c h' y)
  then have c: "c = next_chan h" and h': "h' = h\<lparr>subs := (subs h)(k \<mapsto> c # subscribers_of h k),
           chans := (chans h)(c := \<lparr>ch_buf = [], ch_open = True\<rparr>), next_chan := Suc c\<rparr>"
    by (auto simp: subscribe_def Let_def)
  have new: "hi_key y c = None" "\<And>k. c \<notin> set (subscribers_of h k)" "hi_got y c = []" "hi_sent y c = []"
    using step_subscribe.prems c by (auto simp: hub_inv_def)
  have sub: "subscribers_of h' j = (if j = k then c # subscribers_of h k else subscribers_of h j)" for j
    by (simp add: h' subscribers_of_def)
  show ?case using step_subscribe.prems new sub unfolding hub_inv_def
    by (auto simp: h' c less_Suc_eq subscriberBufferSize_def)
next
  case (step_cancel y c k h h')
  let ?rest = "removeAll c (subscribers_of h k)"
  have h': "h' = h\<lparr>subs := (if ?rest = [] then (subs h)(k := None) else (subs h)(k \<mapsto> ?rest)),
      chans := (chans h)(c := (chans h c)\<lparr>ch_open := False\<rparr>)\<rparr>"
    using step_cancel.hyps(2) by (auto simp: cancel_def Let_def split: if_splits)
  have sub: "subscribers_of h' j = (if j = k then ?rest else subscribers_of h j)" for j
    by (simp add: h' subscribers_of_def)
  show ?case using step_cancel.prems step_cancel.hyps(1) sub unfolding hub_inv_def
    by (auto simp: h' distinct_removeAll)
next
  case (step_publish k p h h' y)
  have h': "h' = h\<lparr>chans := (\<lambda>c. if hi_key y c = Some k then push p (chans h c) else chans h c)\<rparr>"
    using publish_inv [OF step_publish.prems] step_publish.hyps by simp
  have sub: "subscribers_of h' = subscribers_of h" by (simp add: h' subscribers_of_def fun_eq_iff)
  have "subseq (hi_got y c @ ch_buf (chans h' c)) (if hi_key y c = Some k then hi_sent y c @ [p] else hi_sent y c)" for c
    using step_publish.prems subseq_push [of "hi_got y c" "chans h c"] by (simp add: hub_inv_def h')
  with step_publish.prems sub show ?case unfolding hub_inv_def
    by (auto simp: h')
next
  case (step_receive c h p h' y)
  then obtain ps where ps: "ch_buf (chans h c) = p # ps" and h': "h' = h\<lparr>chans := (chans h)(c := (chans h c)\<lparr>ch_buf := ps\<rparr>)\<rparr>"
    by (auto simp: receive_def split: list.splits)
  have sub: "subscribers_of h' = subscribers_of h" by (simp add: h' subscribers_of_def fun_eq_iff)
  have "c < next_chan h" using step_receive.prems ps by (auto simp: hub_inv_def not_le [symmetric])
  moreover have "length ps \<le> subscriberBufferSize" using step_receive.prems ps by (auto simp: hub_inv_def dest: spec [of _ c])
  moreover have "subseq (hi_got y c @ p # ps) (hi_sent y c)" using step_receive.prems ps by (auto simp: hub_inv_def dest: spec [of _ c])
  ultimately show ?case using step_receive.prems sub unfolding hub_inv_def by (auto simp: h')
qed

lemma hub_reachable_inv: "hub_reachable s \<Longrightarrow> hub_inv s"
  unfolding hub_reachable_def by (induction rule: rtranclp_induct) (auto intro: hub_inv_init hub_inv_step)

subsection \<open>Streams\<close>

text \<open>
  \<open>BookingEvents\<close>: the claims of the context or of the query's access token, then a
  subscription to the caller's own feed. The answer is an error or the channel to stream from.
\<close>

definition BookingEvents :: "jwt_lib \<Rightarrow> jwt_issuer \<Rightarrow> time \<Rightarrow> bool \<Rightarrow> http_req \<Rightarrow> hub \<Rightarrow> (http_resp + nat \<times> int) \<times> hub" where
  "BookingEvents L j now can_flush r h =
     (case (case rq_claims r of Some cl \<Rightarrow> Inr (cl_user cl)
            | None \<Rightarrow> (case jwt_Verify L j now (field (rq_query r) ''access_token'') of Inl e \<Rightarrow> Inl e | Inr cl \<Rightarrow> Inr (jc_user cl))) of
        Inl e \<Rightarrow> (Inl (Error 401 ''invalid or missing access token''), h)
      | Inr user \<Rightarrow>
          if \<not> can_flush then (Inl (Error 500 ''streaming not supported''), h)
          else case SubscribeOwner user h of (c, h') \<Rightarrow> (Inr (c, user), h'))"

text \<open>The frames written to the client until a write fails; \<open>ok\<close> tells which writes succeed.\<close>

datatype frame = Connected | BookingUpdate json

fun sse_frames :: "json list \<Rightarrow> bool list \<Rightarrow> frame list" where
  "sse_frames (p # ps) (True # ok) = BookingUpdate p # sse_frames ps ok"
| "sse_frames ps ok = []"

definition sse_stream :: "json list \<Rightarrow> bool list \<Rightarrow> frame list" where
  "sse_stream ps ok = (case ok of True # ok' \<Rightarrow> Connected # sse_frames ps ok' | _ \<Rightarrow> [])"

definition CheckOrigin :: "string list \<Rightarrow> http_req \<Rightarrow> bool" where
  "CheckOrigin allowedOrigins r \<longleftrightarrow> field (rq_headers r) ''Origin'' \<in> set allowedOrigins"

definition reason_str :: "reason \<Rightarrow> string" where
  "reason_str rs = (case rs of ReasonBooked \<Rightarrow> ''booked'' | ReasonMaintenance \<Rightarrow> ''maintenance'' | ReasonBlocked \<Rightarrow> ''blocked'')"

definition block_json :: "block \<Rightarrow> json" where
  "block_json k = JObj ([(''id'', JNum (bl_id k)), (''listing_id'', JNum (bl_listing k))]
     @ (case bl_booking k of None \<Rightarrow> [] | Some i \<Rightarrow> [(''booking_id'', JNum i)]) @
     [(''start_date'', JTime (bl_start k)), (''end_date'', JTime (bl_end k)), (''reason'', JStr (reason_str (bl_reason k))),
     (''created_at'', JTime (bl_created k))])"

text \<open>
  \<open>ListingAvailability\<close> up to its message loop: the snapshot written to the socket, if the blocks
  could be read, and the subscription, which is made after the snapshot. \<open>upgrade\<close> is the
  socket library's handshake: given the origin check and the request it fails with a status or
  succeeds.
\<close>

definition ListingAvailability :: "((http_req \<Rightarrow> bool) \<Rightarrow> http_req \<Rightarrow> int option) \<Rightarrow> string list \<Rightarrow> http_req \<Rightarrow> world \<Rightarrow> hub \<Rightarrow> (int + json list \<times> nat) \<times> world \<times> hub" where
  "ListingAvailability upgrade allowedOrigins r w h =
     (case parse_int64 (rq_id r) of
        Inl e \<Rightarrow> (Inl 400, w, h)
      | Inr listingID \<Rightarrow>
     (case upgrade (CheckOrigin allowedOrigins) r of
        Some status \<Rightarrow> (Inl status, w, h)
      | None \<Rightarrow>
          case ListForListing listingID w of (rb, w1) \<Rightarrow>
            let snapshot = (case rb of Inl e \<Rightarrow> []
                  | Inr blocks \<Rightarrow> [JObj [(''listing_id'', JNum listingID),
                      (''blocks'', if blocks = [] then JNull else JArr (map block_json blocks))]])
            in case SubscribeListing listingID h of (c, h') \<Rightarrow> (Inr (snapshot, c), w1, h')))"

text \<open>C29 (invariant): in every reachable state of the hub publishing cannot panic and reaches exactly
  the subscribers of its key: each of them with fewer than eight payloads waiting gets it at the
  end of its buffer, and no other buffer changes. What a subscriber received, followed by what
  waits for it, is part of what was published to its key since it subscribed, in that order; and
  cancelling a subscription that was not cancelled yet cannot panic.\<close>

theorem hub_delivers:
  assumes "hub_reachable (h, y)"
  shows "(\<exists>h'. publish k p h = Some h' \<and> subs h' = subs h \<and> (\<forall>c. ch_buf (chans h' c) =
      (if hi_key y c = Some k \<and> length (ch_buf (chans h c)) < 8 then ch_buf (chans h c) @ [p] else ch_buf (chans h c))))
    \<and> length (ch_buf (chans h c)) \<le> 8 \<and> subseq (hi_got y c @ ch_buf (chans h c)) (hi_sent y c)
    \<and> (\<forall>j. hi_key y c = Some j \<longrightarrow> c \<in> set (subscribers_of h j) \<and> cancel j c h \<noteq> None)"
proof -
  have i: "hub_inv (h, y)" by (rule hub_reachable_inv [OF assms])
  have "\<exists>h'. publish k p h = Some h' \<and> subs h' = subs h \<and> (\<forall>c. ch_buf (chans h' c) =
      (if hi_key y c = Some k \<and> length (ch_buf (chans h c)) < 8 then ch_buf (chans h c) @ [p] else ch_buf (chans h c)))"
    unfolding publish_inv [OF i] by (simp add: push_def subscriberBufferSize_def)
  moreover have "cancel j c h \<noteq> None" if "hi_key y c = Some j" for j
    using i that by (simp add: hub_inv_def cancel_def Let_def)
  ultimately show ?thesis using i by (auto simp: hub_inv_def subscriberBufferSize_def)
qed

theorem hub_delivers_witness:
  "\<exists>h' h y. hub_reachable (h, y) \<and> subs h \<noteq> Map.empty \<and> publish (OwnerTopic 1) JNull h = Some h'"
proof -
  obtain c h where s: "subscribe (OwnerTopic 1) NewHub = (c, h)" by fastforce
  let ?y = "no_history\<lparr>hi_key := (hi_key no_history)(c \<mapsto> OwnerTopic 1)\<rparr>"
  have "hub_reachable (h, ?y)" unfolding hub_reachable_def by (rule r_into_rtranclp) (rule step_subscribe [OF s])
  moreover have "subs h \<noteq> Map.empty" using s by (auto simp: subscribe_def Let_def)
  ultimately show ?thesis using hub_delivers [of h ?y "OwnerTopic 1" JNull] by blast
qed

end
