(* ===== verification/GoJson.thy ===== *)
theory GoJson
  imports Schema GoBytes
begin

text \<open>
  The parts of \<open>encoding/json\<close> and \<open>unicode/utf8\<close> the program relies on: what \<open>Marshal\<close> writes,
  what a \<open>Decoder\<close> takes as the first value of its input, \<open>Unmarshal\<close>, and how an object reaches
  the fields of a struct. Reading what was written gives the value back. Nothing here is code of
  the repository, so nothing here is in the map.
\<close>

subsection \<open>UTF-8\<close>

abbreviation byte :: "char \<Rightarrow> nat" where
  "byte c \<equiv> of_char c"

text \<open>What a first byte announces: the size and the range of the second byte.\<close>

definition first_byte :: "nat \<Rightarrow> nat \<times> nat \<times> nat" where
  "first_byte b =
     (if b < 0x80 then (1, 0, 0)
      else if b < 0xC2 then (0, 0, 0)
      else if b < 0xE0 then (2, 0x80, 0xBF)
      else if b < 0xF0 then (3, if b = 0xE0 then 0xA0 else 0x80, if b = 0xED then 0x9F else 0xBF)
      else if b < 0xF5 then (4, if b = 0xF0 then 0x90 else 0x80, if b = 0xF4 then 0x8F else 0xBF)
      else (0, 0, 0))"

definition continues :: "nat \<Rightarrow> nat \<times> nat \<Rightarrow> string \<Rightarrow> bool" where
  "continues k r cs \<longleftrightarrow> k \<le> length cs \<and> fst r \<le> byte (hd cs) \<and> byte (hd cs) \<le> snd r
     \<and> list_all (\<lambda>d. 0x80 \<le> byte d \<and> byte d \<le> 0xBF) (take (k - 1) (tl cs))"

text \<open>The size of the valid encoding in front, 0 when there is none.\<close>

fun rune_size :: "string \<Rightarrow> nat" where
  "rune_size [] = 0"
| "rune_size (c # cs) = (case first_byte (byte c) of (n, r) \<Rightarrow> if n \<le> 1 \<or> continues (n - 1) r cs then n else 0)"

declare rune_size.simps(2) [simp del]

lemma rune_size_length: "rune_size s \<le> length s"
  by (cases s) (auto simp: rune_size.simps(2) continues_def split: prod.splits)

text \<open>The encoding in front does not depend on what follows.\<close>

lemma continues_append: "0 < k \<Longrightarrow> continues k r cs \<Longrightarrow> continues k r (take k cs @ t)"
  by (cases cs; cases k) (simp_all add: continues_def)

lemma rune_size_take: "rune_size s \<noteq> 0 \<Longrightarrow> rune_size (take (rune_size s) s @ t) = rune_size s"
  by (cases s) (auto simp: rune_size.simps(2) continues_append take_Cons' split: prod.splits if_splits)

lemma rune_size_ascii: "rune_size (c # cs) = 1 \<longleftrightarrow> byte c < 0x80"
  by (auto simp: rune_size.simps(2) first_byte_def split: if_splits)

function valid_utf8 :: "string \<Rightarrow> bool" where
  "valid_utf8 s = (if s = [] then True else if rune_size s = 0 then False else valid_utf8 (drop (rune_size s) s))"
  by auto
termination
  by (relation "measure length") auto

declare valid_utf8.simps [simp del]

definition replacement :: string where
  "replacement = [CHR 0xEF, CHR 0xBF, CHR 0xBD]"

definition rune_bytes :: "nat \<Rightarrow> string" where
  "rune_bytes n =
     (if n < 0x80 then [char_of n]
      else if n < 0x800 then [char_of (0xC0 + n div 64), char_of (0x80 + n mod 64)]
      else if n < 0x10000 then [char_of (0xE0 + n div 4096), char_of (0x80 + n div 64 mod 64), char_of (0x80 + n mod 64)]
      else [char_of (0xF0 + n div 262144), char_of (0x80 + n div 4096 mod 64), char_of (0x80 + n div 64 mod 64),
            char_of (0x80 + n mod 64)])"

subsection \<open>Strings\<close>

text \<open>Markup characters are escaped too, and the two line separators U+2028 and U+2029.\<close>

definition plain :: "char \<Rightarrow> bool" where
  "plain c \<longleftrightarrow> 0x20 \<le> byte c \<and> byte c < 0x80 \<and> c \<notin> {CHR 0x22, CHR 0x5C, CHR ''<'', CHR ''>'', CHR ''&''}"

definition esc_ascii :: "char \<Rightarrow> string" where
  "esc_ascii c =
     (if plain c then [c]
      else if c = CHR 0x22 \<or> c = CHR 0x5C then [CHR 0x5C, c]
      else if byte c = 8 then [CHR 0x5C, CHR ''b'']
      else if byte c = 12 then [CHR 0x5C, CHR ''f'']
      else if byte c = 10 then [CHR 0x5C, CHR ''n'']
      else if byte c = 13 then [CHR 0x5C, CHR ''r'']
      else if byte c = 9 then [CHR 0x5C, CHR ''t'']
      else [CHR 0x5C, CHR ''u'', CHR ''0'', CHR ''0'', hex_digit (byte c div 16), hex_digit (byte c mod 16)])"

function esc :: "string \<Rightarrow> string" where
  "esc s =
     (if s = [] then []
      else let n = rune_size s in
      if n = 0 then CHR 0x5C # ''ufffd'' @ esc (tl s)
      else if n = 1 then esc_ascii (hd s) @ esc (tl s)
      else if take n s = [CHR 0xE2, CHR 0x80, CHR 0xA8] then CHR 0x5C # ''u2028'' @ esc (drop n s)
      else if take n s = [CHR 0xE2, CHR 0x80, CHR 0xA9] then CHR 0x5C # ''u2029'' @ esc (drop n s)
      else take n s @ esc (drop n s))"
  by auto
termination
  by (relation "measure length") auto

declare esc.simps [simp del]

definition hex_val :: "char \<Rightarrow> nat option" where
  "hex_val c = (if is_digit c then Some (digit_val c)
     else if 97 \<le> byte c \<and> byte c \<le> 102 then Some (byte c - 87)
     else if 65 \<le> byte c \<and> byte c \<le> 70 then Some (byte c - 55) else None)"

fun hex4 :: "string \<Rightarrow> (nat \<times> string) option" where
  "hex4 (a # b # c # d # r) =
     (case (hex_val a, hex_val b, hex_val c, hex_val d) of
        (Some i, Some j, Some k, Some l) \<Rightarrow> Some (((i * 16 + j) * 16 + k) * 16 + l, r)
      | _ \<Rightarrow> None)"
| "hex4 _ = None"

definition surrogate :: "nat \<Rightarrow> bool" where
  "surrogate n \<longleftrightarrow> 0xD800 \<le> n \<and> n < 0xE000"

text \<open>A high surrogate is joined with a low one that follows; any other is replaced.\<close>

definition unescape_u :: "string \<Rightarrow> (string \<times> string) option" where
  "unescape_u s =
     (case hex4 s of None \<Rightarrow> None
      | Some (n, r) \<Rightarrow>
          if \<not> surrogate n then Some (rune_bytes n, r)
          else (case cut_prefix [CHR 0x5C, CHR ''u''] r of
              None \<Rightarrow> Some (replacement, r)
            | Some r1 \<Rightarrow> (case hex4 r1 of None \<Rightarrow> Some (replacement, r)
                | Some (m, r2) \<Rightarrow> if n < 0xDC00 \<and> 0xDC00 \<le> m \<and> m < 0xE000
                    then Some (rune_bytes ((n - 0xD800) * 1024 + (m - 0xDC00) + 0x10000), r2)
                    else Some (replacement, r))))"

definition unescape :: "string \<Rightarrow> (string \<times> string) option" where
  "unescape s = (case s of [] \<Rightarrow> None
     | c # r \<Rightarrow>
         if c = CHR ''u'' then unescape_u r
         else if c \<in> {CHR 0x22, CHR 0x5C, CHR ''/''} then Some ([c], r)
         else if c = CHR ''b'' then Some ([CHR 8], r)
         else if c = CHR ''f'' then Some ([CHR 12], r)
         else if c = CHR ''n'' then Some ([CHR 10], r)
         else if c = CHR ''r'' then Some ([CHR 13], r)
         else if c = CHR ''t'' then Some ([CHR 9], r)
         else None)"

lemma hex4_length: "hex4 s = Some (n, r) \<Longrightarrow> length s = length r + 4"
  by (induction s rule: hex4.induct) (auto split: option.splits)

lemma unescape_length: "unescape s = Some (t, r) \<Longrightarrow> length r < length s"
  by (auto simp: unescape_def unescape_u_def cut_prefix_Some split: list.splits option.splits if_splits prod.splits dest!: hex4_length)

text \<open>What follows the opening quote, up to and with the closing one.\<close>

function lex_string :: "string \<Rightarrow> (string \<times> string) option" where
  "lex_string [] = None"
| "lex_string (c # cs) =
     (if c = CHR 0x22 then Some ([], cs)
      else if c = CHR 0x5C then
        (case unescape cs of None \<Rightarrow> None | Some (t, r) \<Rightarrow> map_option (apfst ((@) t)) (lex_string r))
      else if byte c < 0x20 then None
      else let n = rune_size (c # cs) in
        if n = 0 then map_option (apfst ((@) replacement)) (lex_string cs)
        else map_option (apfst ((@) (take n (c # cs)))) (lex_string (drop n (c # cs))))"
  by pat_completeness auto
termination
  by (relation "measure length") (auto dest: unescape_length)

declare lex_string.simps(2) [simp del]

text \<open>An escaped character, a plain encoding and an escaped line separator are read back.\<close>

lemma hex_val_digit [simp]: "n < 16 \<Longrightarrow> hex_val (hex_digit n) = Some n"
  by (auto simp: hex_val_def hex_digit_def is_digit_def digit_val_def)

lemma hex_val_zero: "hex_val (CHR ''0'') = Some 0"
  by (simp add: hex_val_def is_digit_def digit_val_def)

lemma lex_unescape:
  "lex_string (CHR 0x5C # cs) = (case unescape cs of None \<Rightarrow> None | Some (t, r) \<Rightarrow> map_option (apfst ((@) t)) (lex_string r))"
  by (simp add: lex_string.simps(2))

lemma lex_rune:
  assumes "rune_size s \<noteq> 0" and "\<not> (\<exists>c cs. s = c # cs \<and> byte c < 0x80 \<and> \<not> plain c)"
  shows "lex_string (take (rune_size s) s @ t) = map_option (apfst ((@) (take (rune_size s) s))) (lex_string t)"
proof -
  obtain c cs where c: "s = c # cs" using assms(1) by (cases s) auto
  let ?n = "rune_size s"
  have n: "take ?n s @ t = c # take (?n - 1) cs @ t" using assms(1) by (cases ?n) (simp_all add: c)
  have "rune_size (c # take (?n - 1) cs @ t) = ?n" using rune_size_take [OF assms(1), of t] by (simp add: n)
  moreover have "take ?n (c # take (?n - 1) cs @ t) = take ?n s" "drop ?n (c # take (?n - 1) cs @ t) = t"
    using rune_size_length [of s] unfolding n [symmetric] by simp_all
  moreover have "c \<noteq> CHR 0x22" "c \<noteq> CHR 0x5C" "\<not> byte c < 0x20" using assms(2) by (auto simp: c plain_def)
  ultimately show ?thesis using assms(1) by (simp add: n lex_string.simps(2) Let_def)
qed

lemma lex_plain: "plain c \<Longrightarrow> lex_string (c # t) = map_option (apfst ((#) c)) (lex_string t)"
proof -
  assume p: "plain c"
  have "(@) [c] = (#) c" by (simp add: fun_eq_iff)
  then show ?thesis using p lex_rune [of "[c]" t] rune_size_ascii [of c "[]"] by (simp add: plain_def)
qed

lemma control_chars: "byte c = 8 \<Longrightarrow> c = CHR 0x08" "byte c = 9 \<Longrightarrow> c = CHR 0x09" "byte c = 10 \<Longrightarrow> c = CHR 0x0A"
  "byte c = 12 \<Longrightarrow> c = CHR 0x0C" "byte c = 13 \<Longrightarrow> c = CHR 0x0D"
  using of_char_eq_iff [of c "CHR 0x08", where 'a = nat] of_char_eq_iff [of c "CHR 0x09", where 'a = nat]
    of_char_eq_iff [of c "CHR 0x0A", where 'a = nat] of_char_eq_iff [of c "CHR 0x0C", where 'a = nat]
    of_char_eq_iff [of c "CHR 0x0D", where 'a = nat] by simp_all

lemma lex_esc_ascii:
  assumes "byte c < 0x80"
  shows "lex_string (esc_ascii c @ t) = map_option (apfst ((#) c)) (lex_string t)"
proof (cases "plain c")
  case False
  have "unescape (tl (esc_ascii c @ t)) = Some ([c], t)"
  proof (cases "byte c \<in> {8, 9, 10, 12, 13} \<or> c = CHR 0x22 \<or> c = CHR 0x5C")
    case True
    then show ?thesis using False by (auto simp: esc_ascii_def unescape_def dest: control_chars)
  next
    case other: False
    have "hex4 (CHR ''0'' # CHR ''0'' # hex_digit (byte c div 16) # hex_digit (byte c mod 16) # t) = Some (byte c, t)"
      using byte_nibble [of c] hex_val_zero by simp
    then show ?thesis using False other assms
      by (simp add: esc_ascii_def unescape_def unescape_u_def rune_bytes_def surrogate_def)
  qed
  moreover have "esc_ascii c @ t = CHR 0x5C # tl (esc_ascii c @ t)" using False by (simp add: esc_ascii_def)
  ultimately show ?thesis by (metis (no_types, lifting) append_Cons append_Nil case_prod_conv lex_unescape option.simps(5) ext)
qed (simp add: esc_ascii_def lex_plain)

lemma lex_separators:
  "lex_string (CHR 0x5C # ''u2028'' @ t) = map_option (apfst ((@) [CHR 0xE2, CHR 0x80, CHR 0xA8])) (lex_string t)"
  "lex_string (CHR 0x5C # ''u2029'' @ t) = map_option (apfst ((@) [CHR 0xE2, CHR 0x80, CHR 0xA9])) (lex_string t)"
proof -
  have "char_of (226 :: nat) = CHR 0xE2" "char_of (128 :: nat) = CHR 0x80" "char_of (168 :: nat) = CHR 0xA8"
    "char_of (169 :: nat) = CHR 0xA9" by code_simp+
  then show "lex_string (CHR 0x5C # ''u2028'' @ t) = map_option (apfst ((@) [CHR 0xE2, CHR 0x80, CHR 0xA8])) (lex_string t)"
    "lex_string (CHR 0x5C # ''u2029'' @ t) = map_option (apfst ((@) [CHR 0xE2, CHR 0x80, CHR 0xA9])) (lex_string t)"
    by (simp_all add: lex_unescape unescape_def unescape_u_def surrogate_def rune_bytes_def hex_val_def is_digit_def digit_val_def)
qed

lemma lex_esc: "valid_utf8 s \<Longrightarrow> lex_string (esc s @ CHR 0x22 # r) = Some (s, r)"
proof (induction s rule: valid_utf8.induct)
  case (1 s)
  show ?case
  proof (cases "s = []")
    case False
    let ?n = "rune_size s"
    have n: "?n \<noteq> 0" and v: "valid_utf8 (drop ?n s)" using 1(2) False by (auto simp: valid_utf8.simps [of s] split: if_splits)
    note IH = 1(1) [OF False n v]
    obtain c cs where c: "s = c # cs" using False by (cases s) auto
    consider (ascii) "?n = 1" | (sep) "?n \<noteq> 1" "take ?n s = [CHR 0xE2, CHR 0x80, CHR 0xA8]"
      | (sep2) "?n \<noteq> 1" "take ?n s = [CHR 0xE2, CHR 0x80, CHR 0xA9]"
      | (rune) "?n \<noteq> 1" "take ?n s \<notin> {[CHR 0xE2, CHR 0x80, CHR 0xA8], [CHR 0xE2, CHR 0x80, CHR 0xA9]}" by blast
    then show ?thesis
    proof cases
      case ascii
      then have "byte c < 0x80" using rune_size_ascii c by simp
      then show ?thesis using IH ascii by (simp add: esc.simps [of "c # cs"] c lex_esc_ascii)
    next
      case sep
      then show ?thesis using IH False n append_take_drop_id [of ?n s]
        by (simp add: esc.simps [of s] Let_def lex_separators [simplified])
    next
      case sep2
      then show ?thesis using IH False n append_take_drop_id [of ?n s]
        by (simp add: esc.simps [of s] Let_def lex_separators [simplified])
    next
      case rune
      have "\<not> byte c < 0x80" using rune(1) rune_size_ascii c by simp
      then have "lex_string (take ?n s @ esc (drop ?n s) @ CHR 0x22 # r) = Some (s, r)"
        using IH lex_rune [OF n, of "esc (drop ?n s) @ CHR 0x22 # r"] by (simp add: c)
      then show ?thesis using False n rune by (simp add: esc.simps [of s] Let_def)
    qed
  qed (simp add: esc.simps lex_string.simps(2))
qed

subsection \<open>Numbers\<close>

text \<open>
  A literal that is an integer an \<open>int64\<close> holds is a \<open>JNum\<close>; any other, which an integer field
  refuses, a \<open>JFloat\<close> with its exact value.
\<close>

definition digits_val :: "string \<Rightarrow> nat" where
  "digits_val ds = foldl (\<lambda>n c. 10 * n + digit_val c) 0 ds"

definition lex_integer :: "string \<Rightarrow> (string \<times> string) option" where
  "lex_integer s = (case s of [] \<Rightarrow> None
     | c # r \<Rightarrow> if c = CHR ''0'' then Some ([c], r)
         else if is_digit c then Some (takeWhile is_digit s, dropWhile is_digit s) else None)"

definition lex_digits :: "string \<Rightarrow> (string \<times> string) option" where
  "lex_digits s = (if takeWhile is_digit s = [] then None else Some (takeWhile is_digit s, dropWhile is_digit s))"

definition lex_fraction :: "string \<Rightarrow> (string \<times> string) option" where
  "lex_fraction s = (case s of c # r \<Rightarrow> if c = CHR ''.'' then lex_digits r else Some ([], s) | [] \<Rightarrow> Some ([], s))"

definition lex_exponent :: "string \<Rightarrow> (int option \<times> string) option" where
  "lex_exponent s = (case s of [] \<Rightarrow> Some (None, s)
     | c # r \<Rightarrow> if c \<noteq> CHR ''e'' \<and> c \<noteq> CHR ''E'' then Some (None, s)
         else (case strip_sign r of (neg, r1) \<Rightarrow>
           map_option (apfst (\<lambda>ds. Some (if neg then - int (digits_val ds) else int (digits_val ds)))) (lex_digits r1)))"

definition number_of :: "bool \<Rightarrow> string \<Rightarrow> string \<Rightarrow> int option \<Rightarrow> json" where
  "number_of neg ds fs ex =
     (let n = (if neg then - int (digits_val ds) else int (digits_val ds));
          m = (if neg then - int (digits_val (ds @ fs)) else int (digits_val (ds @ fs)));
          e = (case ex of None \<Rightarrow> 0 | Some e \<Rightarrow> e) - int (length fs)
      in if fs = [] \<and> ex = None \<and> in_int64 n then JNum n
         else JFloat (if 0 \<le> e then of_int m * 10 ^ nat e else of_int m / 10 ^ nat (- e)))"

definition lex_number :: "string \<Rightarrow> (json \<times> string) option" where
  "lex_number s =
     (let neg = (s \<noteq> [] \<and> hd s = CHR ''-'') in
      case lex_integer (if neg then tl s else s) of None \<Rightarrow> None
      | Some (ds, r) \<Rightarrow> (case lex_fraction r of None \<Rightarrow> None
        | Some (fs, r1) \<Rightarrow> map_option (apfst (number_of neg ds fs)) (lex_exponent r1)))"

subsection \<open>Values\<close>

datatype jtoken = TOpenObj | TCloseObj | TOpenArr | TCloseArr | TColon | TComma | TVal json

definition json_space :: "char \<Rightarrow> bool" where
  "json_space c \<longleftrightarrow> byte c \<in> {0x20, 0x09, 0x0A, 0x0D}"

definition lex_literal :: "string \<Rightarrow> (json \<times> string) option" where
  "lex_literal s = (case cut_prefix ''true'' s of Some r \<Rightarrow> Some (JBool True, r)
     | None \<Rightarrow> (case cut_prefix ''false'' s of Some r \<Rightarrow> Some (JBool False, r)
       | None \<Rightarrow> map_option (Pair JNull) (cut_prefix ''null'' s)))"

definition lex_value :: "string \<Rightarrow> (json \<times> string) option" where
  "lex_value s =
     (if hd s = CHR 0x22 then map_option (apfst JStr) (lex_string (tl s))
      else if hd s = CHR ''-'' \<or> is_digit (hd s) then lex_number s else lex_literal s)"

definition punctuation :: "char \<Rightarrow> jtoken option" where
  "punctuation c = map_of (zip ''{}[]:,'' [TOpenObj, TCloseObj, TOpenArr, TCloseArr, TColon, TComma]) c"

definition next_token :: "string \<Rightarrow> (jtoken \<times> string) option" where
  "next_token s = (case dropWhile json_space s of [] \<Rightarrow> None
     | c # r \<Rightarrow> (case punctuation c of Some t \<Rightarrow> Some (t, r) | None \<Rightarrow> map_option (apfst TVal) (lex_value (c # r))))"

text \<open>
  The scanner keeps a stack of open arrays and objects, at most 10000 deep, and what may come next.
\<close>

datatype jframe = FArr "json list" | FObj "(string \<times> json) list" | FKey "(string \<times> json) list" string
datatype jexpect = EValue | EItem | EKey | EMember | EColon | EEnd
datatype jstep = Done json | More jexpect "jframe list"

definition maxNestingDepth :: nat where "maxNestingDepth = 10000"

fun complete_value :: "json \<Rightarrow> jframe list \<Rightarrow> jstep option" where
  "complete_value v [] = Some (Done v)"
| "complete_value v (FArr vs # st) = Some (More EEnd (FArr (vs @ [v]) # st))"
| "complete_value v (FKey fs k # st) = Some (More EEnd (FObj (fs @ [(k, v)]) # st))"
| "complete_value v (FObj fs # st) = None"

fun feed :: "jexpect \<Rightarrow> jframe list \<Rightarrow> jtoken \<Rightarrow> jstep option" where
  "feed e st TOpenArr = (if e \<in> {EValue, EItem} \<and> length st < maxNestingDepth then Some (More EItem (FArr [] # st)) else None)"
| "feed e st TOpenObj = (if e \<in> {EValue, EItem} \<and> length st < maxNestingDepth then Some (More EMember (FObj [] # st)) else None)"
| "feed e st (TVal v) =
     (if e \<in> {EValue, EItem} then complete_value v st
      else case (v, st) of (JStr k, FObj fs # st') \<Rightarrow> if e \<in> {EKey, EMember} then Some (More EColon (FKey fs k # st')) else None
        | _ \<Rightarrow> None)"
| "feed e st TColon = (if e = EColon then Some (More EValue st) else None)"
| "feed e st TComma = (if e \<noteq> EEnd then None else case st of FArr vs # st' \<Rightarrow> Some (More EValue st)
      | FObj fs # st' \<Rightarrow> Some (More EKey st) | _ \<Rightarrow> None)"
| "feed e st TCloseArr = (case st of FArr vs # st' \<Rightarrow> if e \<in> {EItem, EEnd} then complete_value (JArr vs) st' else None | _ \<Rightarrow> None)"
| "feed e st TCloseObj = (case st of FObj fs # st' \<Rightarrow> if e \<in> {EMember, EEnd} then complete_value (JObj fs) st' else None | _ \<Rightarrow> None)"

lemma lex_string_length: "lex_string s = Some (t, r) \<Longrightarrow> length r < length s"
proof (induction s arbitrary: t r rule: lex_string.induct)
  case (2 c cs)
  consider "c = CHR 0x22 \<or> byte c < 0x20 \<and> c \<noteq> CHR 0x5C" | (esc) "c = CHR 0x5C" | (rune) "c \<noteq> CHR 0x22" "c \<noteq> CHR 0x5C" "\<not> byte c < 0x20"
    by blast
  then show ?case
  proof cases
    case esc
    then obtain u r1 t1 where "unescape cs = Some (u, r1)" "lex_string r1 = Some (t1, r)"
      using 2(4) by (auto simp: lex_unescape split: option.splits)
    then show ?thesis using 2(1) esc unescape_length [of cs u r1] by fastforce
  next
    case rune
    let ?n = "rune_size (c # cs)"
    from rune obtain t1 where "lex_string (if ?n = 0 then cs else drop ?n (c # cs)) = Some (t1, r)"
      using 2(4) by (auto simp: lex_string.simps(2) Let_def split: if_splits)
    moreover have "length r < length cs" if "?n = 0" "lex_string cs = Some (t1, r)" using that rune by (intro 2(2)) simp_all
    moreover have "length r < length (drop ?n (c # cs))" if "?n \<noteq> 0" "lex_string (drop ?n (c # cs)) = Some (t1, r)"
      using that rune by (intro 2(3)) simp_all
    ultimately show ?thesis by (auto split: if_splits)
  qed (use 2(4) in \<open>auto simp: lex_string.simps(2) split: if_splits\<close>)
qed simp

lemma lex_digits_length: "lex_digits s = Some (t, r) \<Longrightarrow> length r < length s"
  using length_append [of "takeWhile is_digit s" "dropWhile is_digit s"] by (auto simp: lex_digits_def split: if_splits)

lemma lex_integer_length: "lex_integer s = Some (t, r) \<Longrightarrow> length r < length s"
  using length_dropWhile_le [of is_digit "tl s"] by (auto simp: lex_integer_def split: list.splits if_splits)

lemma lex_fraction_length: "lex_fraction s = Some (t, r) \<Longrightarrow> length r \<le> length s"
  by (auto simp: lex_fraction_def split: list.splits if_splits dest: lex_digits_length)

lemma strip_sign_length: "strip_sign s = (b, r) \<Longrightarrow> length r \<le> length s"
  by (cases s) (auto split: if_splits)

lemma lex_exponent_length: "lex_exponent s = Some (t, r) \<Longrightarrow> length r \<le> length s"
  by (auto simp: lex_exponent_def split: list.splits if_splits prod.splits dest!: lex_digits_length strip_sign_length)

lemma lex_number_length: "lex_number s = Some (t, r) \<Longrightarrow> length r < length s"
proof -
  assume n: "lex_number s = Some (t, r)"
  let ?s = "if s \<noteq> [] \<and> hd s = CHR ''-'' then tl s else s"
  obtain ds r1 fs r2 ex where "lex_integer ?s = Some (ds, r1)" "lex_fraction r1 = Some (fs, r2)" "lex_exponent r2 = Some (ex, r)"
    using n by (auto simp: lex_number_def Let_def split: option.splits prod.splits)
  then have "length r < length ?s" using lex_integer_length lex_fraction_length lex_exponent_length by fastforce
  also have "length ?s \<le> length s" by simp
  finally show ?thesis .
qed

lemma lex_literal_length: "lex_literal s = Some (t, r) \<Longrightarrow> length r < length s"
  by (auto simp: lex_literal_def cut_prefix_Some split: option.splits)

lemma lex_value_length: "s \<noteq> [] \<Longrightarrow> lex_value s = Some (v, r) \<Longrightarrow> length r < length s"
  by (cases s) (auto simp: lex_value_def split: if_splits dest!: lex_string_length lex_number_length lex_literal_length)

lemma next_token_length: "next_token s = Some (t, r) \<Longrightarrow> length r < length s"
  using length_dropWhile_le [of json_space s]
  by (auto simp: next_token_def split: list.splits option.splits dest!: lex_value_length [rotated])

function decode_run :: "jexpect \<Rightarrow> jframe list \<Rightarrow> string \<Rightarrow> (json \<times> string) option" where
  "decode_run e st s = (case next_token s of None \<Rightarrow> None
     | Some (t, r) \<Rightarrow> (case feed e st t of None \<Rightarrow> None
         | Some (Done v) \<Rightarrow> Some (v, r)
         | Some (More e' st') \<Rightarrow> decode_run e' st' r))"
  by auto
termination
  by (relation "measure (\<lambda>(e, st, s). length s)") (auto dest: next_token_length)

declare decode_run.simps [simp del]

text \<open>A decoder takes the first value and looks no further; \<open>Unmarshal\<close> wants nothing but spaces after it.\<close>

definition json_Decode :: "string \<Rightarrow> (json \<times> string) option" where
  "json_Decode s = decode_run EValue [] s"

definition Unmarshal :: "string \<Rightarrow> json option" where
  "Unmarshal s = (case json_Decode s of None \<Rightarrow> None | Some (v, r) \<Rightarrow> if list_all json_space r then Some v else None)"

subsection \<open>Writing\<close>

fun commas :: "string list \<Rightarrow> string" where
  "commas [] = []"
| "commas [x] = x"
| "commas (x # xs) = x @ '','' @ commas xs"

definition json_quoted :: "string \<Rightarrow> string" where
  "json_quoted s = CHR 0x22 # esc s @ [CHR 0x22]"

text \<open>The texts of times, which depend on their zone, and of floats are arguments.\<close>

record json_texts =
  jt_time :: "time \<Rightarrow> string"
  jt_float :: "rat \<Rightarrow> string"

fun Marshal :: "json_texts \<Rightarrow> json \<Rightarrow> string" where
  "Marshal T JNull = ''null''"
| "Marshal T (JBool b) = (if b then ''true'' else ''false'')"
| "Marshal T (JNum n) = format_int n"
| "Marshal T (JFloat x) = jt_float T x"
| "Marshal T (JStr s) = json_quoted s"
| "Marshal T (JTime t) = CHR 0x22 # jt_time T t @ [CHR 0x22]"
| "Marshal T (JArr vs) = ''['' @ commas (map (Marshal T) vs) @ '']''"
| "Marshal T (JObj fs) = ''{'' @ commas (map (\<lambda>(k, v). json_quoted k @ '':'' @ Marshal T v) fs) @ ''}''"

text \<open>What a reader finds: a time is a string.\<close>

fun as_read :: "json_texts \<Rightarrow> json \<Rightarrow> json" where
  "as_read T (JTime t) = JStr (jt_time T t)"
| "as_read T (JArr vs) = JArr (map (as_read T) vs)"
| "as_read T (JObj fs) = JObj (map (\<lambda>(k, v). (k, as_read T v)) fs)"
| "as_read T j = j"

text \<open>Strings are UTF-8, integers fit and no number is a float.\<close>

fun sendable :: "json_texts \<Rightarrow> json \<Rightarrow> bool" where
  "sendable T (JNum n) \<longleftrightarrow> in_int64 n"
| "sendable T (JFloat x) \<longleftrightarrow> False"
| "sendable T (JStr s) \<longleftrightarrow> valid_utf8 s"
| "sendable T (JTime t) \<longleftrightarrow> list_all plain (jt_time T t)"
| "sendable T (JArr vs) \<longleftrightarrow> list_all (sendable T) vs"
| "sendable T (JObj fs) \<longleftrightarrow> list_all (\<lambda>(k, v). valid_utf8 k \<and> sendable T v) fs"
| "sendable T j \<longleftrightarrow> True"

fun nesting :: "json \<Rightarrow> nat" where
  "nesting (JArr vs) = Suc (Max (set (0 # map nesting vs)))"
| "nesting (JObj fs) = Suc (Max (set (0 # map (\<lambda>(k, v). nesting v) fs)))"
| "nesting j = 0"

subsection \<open>Reading back\<close>

definition resume :: "jstep option \<Rightarrow> string \<Rightarrow> (json \<times> string) option" where
  "resume p r = (case p of None \<Rightarrow> None | Some (Done v) \<Rightarrow> Some (v, r) | Some (More e st) \<Rightarrow> decode_run e st r)"

lemma decode_run_token: "next_token s = Some (t, r) \<Longrightarrow> decode_run e st s = resume (feed e st t) r"
  by (simp add: decode_run.simps [of e st s] resume_def)

lemma resume_simps [simp]:
  "resume None r = None" "resume (Some (Done v)) r = Some (v, r)" "resume (Some (More e st)) r = decode_run e st r"
  by (simp_all add: resume_def)

text \<open>What may follow a number without becoming part of it.\<close>

definition stops :: "string \<Rightarrow> bool" where
  "stops r \<longleftrightarrow> (case r of [] \<Rightarrow> True | c # cs \<Rightarrow> \<not> is_digit c \<and> c \<notin> {CHR ''.'', CHR ''e'', CHR ''E''})"

lemma punctuation_simps [simp]:
  "punctuation (CHR ''{'') = Some TOpenObj" "punctuation (CHR ''}'') = Some TCloseObj"
  "punctuation (CHR ''['') = Some TOpenArr" "punctuation (CHR '']'') = Some TCloseArr"
  "punctuation (CHR '':'') = Some TColon" "punctuation (CHR '','') = Some TComma"
  by (simp_all add: punctuation_def)

lemma next_token_punctuation: "punctuation c = Some t \<Longrightarrow> next_token (c # r) = Some (t, r)"
  by (auto simp: next_token_def punctuation_def json_space_def split: if_splits)

lemmas next_tokens [simp] = next_token_punctuation [OF punctuation_simps(1)] next_token_punctuation [OF punctuation_simps(2)]
  next_token_punctuation [OF punctuation_simps(3)] next_token_punctuation [OF punctuation_simps(4)]
  next_token_punctuation [OF punctuation_simps(5)] next_token_punctuation [OF punctuation_simps(6)]

lemma next_token_string: "lex_string s = Some (t, r) \<Longrightarrow> next_token (CHR 0x22 # s) = Some (TVal (JStr t), r)"
  by (simp add: next_token_def punctuation_def json_space_def lex_value_def)

lemma next_token_quoted: "valid_utf8 k \<Longrightarrow> next_token (json_quoted k @ r) = Some (TVal (JStr k), r)"
  by (simp add: json_quoted_def next_token_string lex_esc)

lemma lex_plains: "list_all plain t \<Longrightarrow> lex_string (t @ CHR 0x22 # r) = Some (t, r)"
proof (induction t)
  case Nil
  then show ?case by (simp add: lex_string.simps(2))
qed (simp add: lex_plain)

lemma next_token_literals:
  "next_token (''null'' @ r) = Some (TVal JNull, r)" "next_token (''true'' @ r) = Some (TVal (JBool True), r)"
  "next_token (''false'' @ r) = Some (TVal (JBool False), r)"
  by (simp_all add: next_token_def punctuation_def json_space_def lex_value_def is_digit_def lex_literal_def)

lemma digits_val_dec: "digits_val (dec n) = n"
proof (induction n rule: dec.induct)
  case (1 n)
  then show ?case by (cases "n < 10") (simp_all add: dec.simps [of n] digits_val_def)
qed

lemma dec_nonzero_head: "0 < n \<Longrightarrow> hd (dec n) \<noteq> CHR ''0''"
proof (induction n rule: dec.induct)
  case (1 n)
  have "byte (digit_char n) = 48 + n" if "n < 10" using that by (simp add: digit_char_def)
  then show ?case using 1 by (cases "n < 10") (auto simp: dec.simps [of n] hd_append)
qed

lemma lex_integer_dec:
  assumes "stops r"
  shows "lex_integer (dec n @ r) = Some (dec n, r)"
proof -
  have d: "\<forall>c\<in>set (dec n). is_digit c" using dec_digits by blast
  have r: "takeWhile is_digit r = []" "dropWhile is_digit r = r" using assms by (cases r; simp add: stops_def)+
  have "takeWhile is_digit (dec n @ r) = dec n" "dropWhile is_digit (dec n @ r) = r" using d r by simp_all
  moreover obtain c cs where c: "dec n = c # cs" by (cases "dec n") simp_all
  moreover have "c = CHR ''0'' \<Longrightarrow> n = 0" using dec_nonzero_head [of n] c by auto
  moreover have "dec 0 = ''0''" by code_simp
  ultimately show ?thesis using d unfolding lex_integer_def by auto
qed

lemma lex_number_int:
  assumes "in_int64 n" and "stops r"
  shows "lex_number (format_int n @ r) = Some (JNum n, r)"
proof -
  have tails: "lex_fraction r = Some ([], r)" "lex_exponent r = Some (None, r)"
    using assms(2) by (auto simp: stops_def lex_fraction_def lex_exponent_def split: list.splits)
  have d: "hd (dec m @ r) \<noteq> CHR ''-''" for m
    using dec_digits [of "hd (dec m)" m] by (auto simp: is_digit_def hd_append)
  show ?thesis
    using assms(1) lex_integer_dec [OF assms(2)] d
    by (auto simp: lex_number_def format_int_def tails number_of_def digits_val_dec Let_def)
qed

lemma next_token_int: "in_int64 n \<Longrightarrow> stops r \<Longrightarrow> next_token (format_int n @ r) = Some (TVal (JNum n), r)"
proof -
  assume n: "in_int64 n" "stops r"
  obtain c cs where c: "format_int n = c # cs" by (cases "format_int n") (auto simp: format_int_def split: if_splits)
  then have "is_digit c \<or> c = CHR ''-''" using format_int_chars [of c n] by simp
  then have "\<not> json_space c" "punctuation c = None" "lex_value (c # cs @ r) = lex_number (c # cs @ r)"
    by (auto simp: json_space_def punctuation_def lex_value_def is_digit_def)
  then show ?thesis using lex_number_int [OF n] by (simp add: next_token_def c)
qed

lemma stops_simps [simp]: "stops (CHR '','' # r)" "stops (CHR '']'' # r)" "stops (CHR ''}'' # r)" "stops []"
  by (simp_all add: stops_def is_digit_def)

definition reads_back :: "json_texts \<Rightarrow> json \<Rightarrow> bool" where
  "reads_back T j \<longleftrightarrow> (\<forall>e st r. e \<in> {EValue, EItem} \<longrightarrow> length st + nesting j \<le> maxNestingDepth \<longrightarrow> stops r \<longrightarrow>
     decode_run e st (Marshal T j @ r) = resume (complete_value (as_read T j) st) r)"

lemma reads_backD:
  "reads_back T j \<Longrightarrow> e \<in> {EValue, EItem} \<Longrightarrow> length st + nesting j \<le> maxNestingDepth \<Longrightarrow> stops r \<Longrightarrow>
     decode_run e st (Marshal T j @ r) = resume (complete_value (as_read T j) st) r"
  unfolding reads_back_def by blast

lemma nesting_below:
  "v \<in> set vs \<Longrightarrow> nesting v < nesting (JArr vs)" "(k, v) \<in> set fs \<Longrightarrow> nesting v < nesting (JObj fs)"
  by (auto simp: less_Suc_eq_le intro!: Max_ge rev_image_eqI [of "(k, v)"])

lemma reads_back_items:
  assumes "xs \<noteq> []" and "\<And>x. x \<in> set xs \<Longrightarrow> reads_back T x \<and> Suc (length st) + nesting x \<le> maxNestingDepth" and "e \<in> {EValue, EItem}"
  shows "decode_run e (FArr us # st) (commas (map (Marshal T) xs) @ CHR '']'' # r)
    = resume (complete_value (JArr (us @ map (as_read T) xs)) st) r"
  using assms
proof (induction xs arbitrary: us e)
  case (Cons x xs)
  have x: "decode_run e (FArr us # st) (Marshal T x @ s) = decode_run EEnd (FArr (us @ [as_read T x]) # st) s" if "stops s" for s
    using Cons.prems(2) [of x] Cons.prems(3) that reads_backD [of T x e "FArr us # st" s] by simp
  show ?case
  proof (cases xs)
    case Nil
    then show ?thesis using x [of "CHR '']'' # r"] by (simp add: decode_run_token)
  next
    case (Cons y ys)
    have "decode_run EValue (FArr (us @ [as_read T x]) # st) (commas (map (Marshal T) xs) @ CHR '']'' # r)
        = resume (complete_value (JArr ((us @ [as_read T x]) @ map (as_read T) xs)) st) r"
      using Cons.prems(2) by (intro Cons.IH) (simp_all add: \<open>xs = y # ys\<close>)
    then show ?thesis using x by (simp add: \<open>xs = y # ys\<close> decode_run_token)
  qed
qed simp

lemma reads_back_fields:
  assumes "fs \<noteq> []" and "\<And>k v. (k, v) \<in> set fs \<Longrightarrow> valid_utf8 k \<and> reads_back T v \<and> Suc (length st) + nesting v \<le> maxNestingDepth"
    and "e \<in> {EKey, EMember}"
  shows "decode_run e (FObj us # st) (commas (map (\<lambda>(k, v). json_quoted k @ '':'' @ Marshal T v) fs) @ CHR ''}'' # r)
    = resume (complete_value (JObj (us @ map (\<lambda>(k, v). (k, as_read T v)) fs)) st) r"
  using assms
proof (induction fs arbitrary: us e)
  case (Cons f fs)
  obtain k v where f: "f = (k, v)" by force
  have x: "decode_run e (FObj us # st) (json_quoted k @ CHR '':'' # Marshal T v @ s)
      = decode_run EEnd (FObj (us @ [(k, as_read T v)]) # st) s" if "stops s" for s
    using Cons.prems(2) [of k v] Cons.prems(3) that reads_backD [of T v EValue "FKey us k # st" s]
    by (auto simp: f decode_run_token [OF next_token_quoted] decode_run_token)
  show ?case
  proof (cases fs)
    case Nil
    then show ?thesis using x [of "CHR ''}'' # r"] by (simp add: f decode_run_token)
  next
    case (Cons g gs)
    have "decode_run EKey (FObj (us @ [(k, as_read T v)]) # st) (commas (map (\<lambda>(k, v). json_quoted k @ '':'' @ Marshal T v) fs) @ CHR ''}'' # r)
        = resume (complete_value (JObj ((us @ [(k, as_read T v)]) @ map (\<lambda>(k, v). (k, as_read T v)) fs)) st) r"
      using Cons.prems(2) by (intro Cons.IH) (simp add: \<open>fs = g # gs\<close>, fastforce, simp)
    then show ?thesis using x by (simp add: f \<open>fs = g # gs\<close> decode_run_token)
  qed
qed simp

lemma Marshal_reads_back: "sendable T j \<Longrightarrow> reads_back T j"
proof (induction j rule: json.induct)
  case (JArr vs)
  have "decode_run e st (Marshal T (JArr vs) @ r) = resume (complete_value (as_read T (JArr vs)) st) r"
    if "e \<in> {EValue, EItem}" "length st + nesting (JArr vs) \<le> maxNestingDepth" for e st r
  proof -
    have "Suc (length st) + nesting v \<le> maxNestingDepth" if "v \<in> set vs" for v
      using nesting_below(1) [OF that] \<open>length st + _ \<le> _\<close> by linarith
    then show ?thesis
      using that JArr reads_back_items [of vs T st EItem "[]" r]
      by (cases "vs = []") (auto simp: list_all_iff decode_run_token)
  qed
  then show ?case by (simp add: reads_back_def)
next
  case (JObj fs)
  have "decode_run e st (Marshal T (JObj fs) @ r) = resume (complete_value (as_read T (JObj fs)) st) r"
    if "e \<in> {EValue, EItem}" "length st + nesting (JObj fs) \<le> maxNestingDepth" for e st r
  proof -
    have "Suc (length st) + nesting v \<le> maxNestingDepth" if "(k, v) \<in> set fs" for k v
      using nesting_below(2) [OF that] \<open>length st + _ \<le> _\<close> by linarith
    moreover have "valid_utf8 k \<and> reads_back T v" if "(k, v) \<in> set fs" for k v
      using that JObj.IH [of "(k, v)" v] JObj.prems by (auto simp: list_all_iff)
    ultimately show ?thesis
      using that reads_back_fields [of fs T st EMember "[]" r] by (cases "fs = []") (auto simp: decode_run_token)
  qed
  then show ?case by (simp add: reads_back_def)
qed (auto simp: reads_back_def decode_run_token next_token_literals [simplified] next_token_int next_token_quoted
    next_token_string lex_plains)

lemma Decode_Marshal:
  "sendable T j \<Longrightarrow> nesting j \<le> maxNestingDepth \<Longrightarrow> stops r \<Longrightarrow> json_Decode (Marshal T j @ r) = Some (as_read T j, r)"
  using Marshal_reads_back [of T j] by (simp add: reads_back_def json_Decode_def)

lemma Unmarshal_Marshal: "sendable T j \<Longrightarrow> nesting j \<le> maxNestingDepth \<Longrightarrow> Unmarshal (Marshal T j) = Some (as_read T j)"
  using Decode_Marshal [of T j "[]"] by (simp add: Unmarshal_def)

subsection \<open>Structs\<close>

text \<open>
  A key names the field it equals without regard to case, which for Unicode includes the long s and
  the Kelvin sign. Fields are assigned in the order of the object; \<open>null\<close> assigns nothing; a value of
  another kind is an error, and so is a key without a field where the decoder disallows it.
\<close>

fun fold_name :: "string \<Rightarrow> string" where
  "fold_name [] = []"
| "fold_name (c # cs) =
     (if c = CHR 0xC5 \<and> take 1 cs = [CHR 0xBF] then CHR ''S'' # fold_name (drop 1 cs)
      else if c = CHR 0xE2 \<and> take 2 cs = [CHR 0x84, CHR 0xAA] then CHR ''K'' # fold_name (drop 2 cs)
      else (if 97 \<le> byte c \<and> byte c \<le> 122 then char_of (byte c - 32) else c) # fold_name cs)"

definition named :: "string \<Rightarrow> (string \<times> json) list \<Rightarrow> json list" where
  "named k fs = map snd (filter (\<lambda>(n, v). fold_name n = fold_name k) fs)"

definition known :: "string list \<Rightarrow> (string \<times> json) list \<Rightarrow> bool" where
  "known ks fs \<longleftrightarrow> list_all (\<lambda>(n, v). fold_name n \<in> fold_name ` set ks) fs"

fun assign_str :: "json \<Rightarrow> string option \<Rightarrow> string option" where
  "assign_str (JStr s) cur = map_option (\<lambda>_. s) cur"
| "assign_str JNull cur = cur"
| "assign_str _ cur = None"

fun assign_num :: "json \<Rightarrow> int option \<Rightarrow> int option" where
  "assign_num (JNum n) cur = map_option (\<lambda>_. n) cur"
| "assign_num JNull cur = cur"
| "assign_num _ cur = None"

text \<open>
  A slice keeps the array behind it: a \<open>null\<close> element leaves what an earlier array of the same
  object put at that place. The pair is that array and how much of it the slice shows.
\<close>

fun assign_elems :: "nat \<Rightarrow> json list \<Rightarrow> string list \<Rightarrow> string list option" where
  "assign_elems i [] buf = Some buf"
| "assign_elems i (v # vs) buf =
     (let buf1 = (if i < length buf then buf else buf @ ['''']) in
      case assign_str v (Some (buf1 ! i)) of None \<Rightarrow> None | Some s \<Rightarrow> assign_elems (Suc i) vs (buf1[i := s]))"

fun assign_strs :: "json \<Rightarrow> (string list \<times> nat) option \<Rightarrow> (string list \<times> nat) option" where
  "assign_strs (JArr vs) cur = (case cur of None \<Rightarrow> None
     | Some (buf, n) \<Rightarrow> if vs = [] then Some ([], 0) else map_option (\<lambda>b. (b, length vs)) (assign_elems 0 vs buf))"
| "assign_strs JNull cur = map_option (\<lambda>_. ([], 0)) cur"
| "assign_strs _ cur = None"

definition get_str :: "(string \<times> json) list \<Rightarrow> string \<Rightarrow> string option" where
  "get_str fs k = fold assign_str (named k fs) (Some '''')"

definition get_num :: "(string \<times> json) list \<Rightarrow> string \<Rightarrow> int option" where
  "get_num fs k = fold assign_num (named k fs) (Some 0)"

definition get_strs :: "(string \<times> json) list \<Rightarrow> string \<Rightarrow> string list option" where
  "get_strs fs k = map_option (\<lambda>(buf, n). take n buf) (fold assign_strs (named k fs) (Some ([], 0)))"

text \<open>Decoding into a struct: an object or \<open>null\<close>, which changes nothing.\<close>

definition into_struct :: "((string \<times> json) list \<Rightarrow> 'a option) \<Rightarrow> json \<Rightarrow> 'a option" where
  "into_struct rd j = (case j of JObj fs \<Rightarrow> rd fs | JNull \<Rightarrow> rd [] | _ \<Rightarrow> None)"

lemma named_simps [simp]:
  "named k [] = []"
  "named k ((n, v) # fs) = (if fold_name n = fold_name k then v # named k fs else named k fs)"
  by (simp_all add: named_def)

lemmas field_defs = get_str_def get_num_def get_strs_def into_struct_def

lemma assign_elems_strings: "assign_elems (length buf) (map JStr xs) buf = Some (buf @ xs)"
proof (induction xs arbitrary: buf)
  case (Cons x xs)
  then show ?case using Cons.IH [of "buf @ [x]"] by simp
qed simp

lemma assign_strings [simp]: "assign_strs (JArr (map JStr xs)) (Some ([], 0)) = Some (xs, length xs)"
  using assign_elems_strings [of "[]" xs] by simp

end
