(* ===== verification/Search.thy ===== *)
theory Search
  imports Catalog GoJson
begin

text \<open>
  \<open>internal/search\<close> and \<open>cmd/search-indexer\<close>: searching through the indexer behind a circuit
  breaker with a MySQL \<open>LIKE\<close> query to fall back on, and the index the indexer keeps from the
  listing events. The gRPC channel, the breaker and Elasticsearch's ranking are arguments.
\<close>

subsection \<open>The fallback\<close>

record search_result =
  sr_listing :: int
  sr_title :: string
  sr_price :: int
  sr_category :: string
  sr_rating :: rat

text \<open>
  MySQL's \<open>LIKE\<close>: \<open>%\<close> matches any characters, \<open>_\<close> one, a backslash makes the next character
  literal; characters compare by the collation \<open>cc\<close>.
\<close>

fun like_pat :: "(char \<Rightarrow> char) \<Rightarrow> string \<Rightarrow> string \<Rightarrow> bool" where
  "like_pat cc [] s \<longleftrightarrow> s = []"
| "like_pat cc (c # p) [] \<longleftrightarrow> c = CHR ''%'' \<and> like_pat cc p []"
| "like_pat cc (c # p) (x # s) \<longleftrightarrow>
     (if c = CHR ''%'' then like_pat cc p (x # s) \<or> like_pat cc (c # p) s
      else if c = CHR ''_'' then like_pat cc p s
      else if c = CHR 0x5C \<and> p \<noteq> [] then cc x = cc (hd p) \<and> like_pat cc (tl p) s
      else cc x = cc c \<and> like_pat cc p s)"

definition fallbackQuery :: "(char \<Rightarrow> char) \<Rightarrow> (int list \<Rightarrow> rat) \<Rightarrow> (int \<Rightarrow> int) \<Rightarrow> string \<Rightarrow> int \<Rightarrow> tables \<Rightarrow> search_result list" where
  "fallbackQuery cc avg rank pat limit t = take (nat limit)
     (concat (map (\<lambda>l. map (\<lambda>c. \<lparr>sr_listing = ls_id l, sr_title = ls_title l, sr_price = ls_price l,
           sr_category = ca_name c, sr_rating = snd (left_summary avg t (ls_id l))\<rparr>)
         (filter (\<lambda>c. ca_id c = ls_category l) (t_categories t)))
       (newest_first rank (filter (\<lambda>l. ls_status l = StatusActive
         \<and> (like_pat cc pat (ls_title l) \<or> like_pat cc pat (ls_desc l))) (t_listings t)))))"

definition fallback_Search :: "(char \<Rightarrow> char) \<Rightarrow> (int list \<Rightarrow> rat) \<Rightarrow> string \<Rightarrow> int \<Rightarrow> world \<Rightarrow> (gerr + search_result list) \<times> world" where
  "fallback_Search cc avg query limit w =
     (let pat = ''%'' @ query @ ''%''
      in map_err (Wrapped ''search: fallback query'') (sql_select (fallbackQuery cc avg (row_rank w) pat limit) w))"

subsection \<open>The service\<close>

text \<open>The settings of every breaker of the program.\<close>

record breaker_settings =
  bs_name :: string
  bs_max_requests :: int
  bs_interval :: int
  bs_timeout :: int
  bs_ready_to_trip :: "int \<Rightarrow> bool"

definition NewBreaker :: "string \<Rightarrow> breaker_settings" where
  "NewBreaker name = \<lparr>bs_name = name, bs_max_requests = 1, bs_interval = 30 * second, bs_timeout = 10 * second,
     bs_ready_to_trip = (\<lambda>consecutive. 3 \<le> consecutive)\<rparr>"

text \<open>A call guarded by the breaker, in the state the breaker is in.\<close>

type_synonym 'a guarded = "(world \<Rightarrow> (gerr + 'a) \<times> world) \<Rightarrow> world \<Rightarrow> (gerr + 'a) \<times> world"

record search_service =
  ss_rpc :: "(string \<Rightarrow> int \<Rightarrow> world \<Rightarrow> (gerr + search_result list) \<times> world) option"
  ss_execute :: "search_result list guarded"

definition maxSearchLimit :: int where "maxSearchLimit = 1000"

definition client_limit :: "int \<Rightarrow> int" where
  "client_limit limit = (if limit \<le> 0 then 20 else if maxSearchLimit < limit then maxSearchLimit else limit)"

record search_item =
  si_result :: search_result
  si_source :: string

definition service_Search :: "(char \<Rightarrow> char) \<Rightarrow> (int list \<Rightarrow> rat) \<Rightarrow> search_service \<Rightarrow> string \<Rightarrow> int \<Rightarrow> world \<Rightarrow> (gerr + search_item list) \<times> world" where
  "service_Search cc avg s query limit w =
     (let (remote, w1) = (case ss_rpc s of None \<Rightarrow> (None, w)
            | Some rpc \<Rightarrow> (case ss_execute s (rpc query (client_limit limit)) w of
                (Inl e, w1) \<Rightarrow> (None, w1) | (Inr rs, w1) \<Rightarrow> (Some rs, w1)))
      in case remote of
           Some rs \<Rightarrow> (Inr (map (\<lambda>r. \<lparr>si_result = r, si_source = ''elasticsearch''\<rparr>) rs), w1)
         | None \<Rightarrow> bind_res (fallback_Search cc avg query limit w1)
             (\<lambda>rows w2. (Inr (map (\<lambda>r. \<lparr>si_result = r, si_source = ''mysql_fallback''\<rparr>) rows), w2)))"

definition search_item_json :: "search_item \<Rightarrow> json" where
  "search_item_json i = JObj
     [(''listing_id'', JNum (sr_listing (si_result i))), (''title'', JStr (sr_title (si_result i))),
      (''price_per_day_cents'', JNum (sr_price (si_result i))), (''category_name'', JStr (sr_category (si_result i))),
      (''avg_rating'', JFloat (sr_rating (si_result i))), (''source'', JStr (si_source i))]"

definition search_handler :: "(char \<Rightarrow> char) \<Rightarrow> (int list \<Rightarrow> rat) \<Rightarrow> search_service \<Rightarrow> handler" where
  "search_handler cc avg s r w =
     (case service_Search cc avg s (field (rq_query r) ''q'') (feed_limit r) w of
        (Inl e, w1) \<Rightarrow> (Error 500 ''search failed'', w1)
      | (Inr items, w1) \<Rightarrow> (JSON 200 (Some (JArr (map search_item_json items))), w1))"

subsection \<open>The index\<close>

record es_document =
  ed_listing :: int
  ed_title :: string
  ed_desc :: string
  ed_price :: int
  ed_category :: string
  ed_owner :: string
  ed_status :: string
  ed_rating :: rat

type_synonym es_index = "int \<Rightarrow> es_document option"

text \<open>What Elasticsearch does with a write: it applies it, refuses it with an error status, or is
  not reached.\<close>

datatype es_outcome = EsOk | EsRefused string | EsUnreached gerr

definition Upsert :: "es_outcome \<Rightarrow> es_document \<Rightarrow> es_index \<Rightarrow> gerr option \<times> es_index" where
  "Upsert out doc ix = (case out of
       EsOk \<Rightarrow> (None, ix(ed_listing doc \<mapsto> doc))
     | EsRefused s \<Rightarrow> (Some (OtherErr s), ix)
     | EsUnreached e \<Rightarrow> (Some e, ix))"

text \<open>\<open>Delete\<close> does not look at the status.\<close>

definition Delete :: "es_outcome \<Rightarrow> int \<Rightarrow> es_index \<Rightarrow> gerr option \<times> es_index" where
  "Delete out i ix = (case out of
       EsOk \<Rightarrow> (None, ix(i := None))
     | EsRefused s \<Rightarrow> (None, ix)
     | EsUnreached e \<Rightarrow> (Some e, ix))"

record wire_event =
  we_type :: string
  we_listing :: int
  we_title :: string
  we_desc :: string
  we_price :: int
  we_category :: string
  we_status :: string

definition decode_event :: "json \<Rightarrow> wire_event option" where
  "decode_event = into_struct (\<lambda>fs.
       case (get_str fs ''type'', get_num fs ''listing_id'', get_str fs ''title'', get_str fs ''description'',
              get_num fs ''price_per_day_cents'', get_str fs ''category_name'', get_str fs ''status'') of
          (Some ty, Some i, Some ti, Some de, Some pr, Some ca, Some st) \<Rightarrow>
            Some \<lparr>we_type = ty, we_listing = i, we_title = ti, we_desc = de, we_price = pr, we_category = ca, we_status = st\<rparr>
        | _ \<Rightarrow> None)"

definition document_of :: "wire_event \<Rightarrow> es_document" where
  "document_of e = \<lparr>ed_listing = we_listing e, ed_title = we_title e, ed_desc = we_desc e, ed_price = we_price e,
     ed_category = we_category e, ed_owner = '''', ed_status = we_status e, ed_rating = 0\<rparr>"

definition handle_listing_event :: "es_outcome \<Rightarrow> json \<Rightarrow> es_index \<Rightarrow> gerr option \<times> es_index" where
  "handle_listing_event out value ix =
     (case decode_event value of
        None \<Rightarrow> (Some (OtherErr ''json''), ix)
      | Some e \<Rightarrow> if we_type e = ''ListingDeleted'' then Delete out (we_listing e) ix
          else Upsert out (document_of e) ix)"

text \<open>The indexer's own search: \<open>hits\<close> is what Elasticsearch finds, if it answers.\<close>

definition index_Search :: "(string \<Rightarrow> int \<Rightarrow> es_index \<Rightarrow> gerr + es_document list) \<Rightarrow> string \<Rightarrow> int \<Rightarrow> es_index \<Rightarrow> gerr + search_result list" where
  "index_Search hits query limit ix =
     (case hits query limit ix of Inl e \<Rightarrow> Inl e
      | Inr ds \<Rightarrow> Inr (map (\<lambda>d. \<lparr>sr_listing = ed_listing d, sr_title = ed_title d, sr_price = ed_price d,
           sr_category = ed_category d, sr_rating = ed_rating d\<rparr>) ds))"

definition searchServer_Search :: "(string \<Rightarrow> int \<Rightarrow> es_index \<Rightarrow> gerr + es_document list) \<Rightarrow> string \<Rightarrow> int \<Rightarrow> es_index \<Rightarrow> gerr + search_result list" where
  "searchServer_Search hits query n ix =
     (let limit = (if n \<le> 0 then 20 else n)
      in case index_Search hits query limit ix of
           Inl e \<Rightarrow> Inl (OtherErr ''Unavailable: search backend unavailable'') | Inr rs \<Rightarrow> Inr rs)"

definition IndexListing :: "es_outcome \<Rightarrow> es_document \<Rightarrow> es_index \<Rightarrow> (gerr + unit) \<times> es_index" where
  "IndexListing out req ix =
     (case Upsert out (req\<lparr>ed_rating := 0\<rparr>) ix of
        (Some e, ix') \<Rightarrow> (Inl (OtherErr ''Unavailable: search backend unavailable''), ix')
      | (None, ix') \<Rightarrow> (Inr (), ix'))"

end
