(* ===== verification/SearchSpec.thy ===== *)
theory SearchSpec
  imports Search CatalogSpec
begin

text \<open>
  Searching: the fallback finds substrings, a failing indexer degrades to it, and the index holds
  the last event of each listing as long as the events come in order.
\<close>

subsection \<open>LIKE\<close>

definition plain :: "string \<Rightarrow> bool" where
  "plain q \<longleftrightarrow> CHR ''%'' \<notin> set q \<and> CHR ''_'' \<notin> set q \<and> CHR 0x5C \<notin> set q"

definition occurs_in :: "(char \<Rightarrow> char) \<Rightarrow> string \<Rightarrow> string \<Rightarrow> bool" where
  "occurs_in cc q s \<longleftrightarrow> (\<exists>a b c. s = a @ b @ c \<and> map cc b = map cc q)"

lemma like_literal:
  "plain q \<Longrightarrow> like_pat cc (q @ p) s \<longleftrightarrow> (\<exists>b c. s = b @ c \<and> map cc b = map cc q \<and> like_pat cc p c)"
proof (induction q arbitrary: s)
  case (Cons x q)
  then have q: "plain q" "x \<noteq> CHR ''%''" "x \<noteq> CHR ''_''" "x \<noteq> CHR 0x5C" by (auto simp: plain_def)
  show ?case
  proof (cases s)
    case (Cons y s')
    have "like_pat cc ((x # q) @ p) s \<longleftrightarrow> cc y = cc x \<and> (\<exists>b c. s' = b @ c \<and> map cc b = map cc q \<and> like_pat cc p c)"
      using Cons.IH [OF q(1)] q Cons by simp
    also have "\<dots> \<longleftrightarrow> (\<exists>b c. s = b @ c \<and> map cc b = map cc (x # q) \<and> like_pat cc p c)"
      using Cons by (auto simp: Cons_eq_append_conv map_eq_Cons_conv)
    finally show ?thesis .
  qed (use q in auto)
qed simp

lemma like_percent: "like_pat cc (CHR ''%'' # p) s \<longleftrightarrow> (\<exists>a c. s = a @ c \<and> like_pat cc p c)"
proof (induction s)
  case (Cons x s)
  have "like_pat cc (CHR ''%'' # p) (x # s) \<longleftrightarrow> like_pat cc p (x # s) \<or> (\<exists>a c. s = a @ c \<and> like_pat cc p c)"
    using Cons by simp
  also have "\<dots> \<longleftrightarrow> (\<exists>a c. x # s = a @ c \<and> like_pat cc p c)"
    by (auto simp: Cons_eq_append_conv)
  finally show ?case .
qed simp

lemma like_contains: "plain q \<Longrightarrow> like_pat cc (''%'' @ q @ ''%'') s \<longleftrightarrow> occurs_in cc q s"
proof -
  assume "plain q"
  have e: "like_pat cc ''%'' c" for c using like_percent [of cc "[]" c] by simp
  show ?thesis using like_literal [OF \<open>plain q\<close>, of cc "''%''"] e
    by (auto simp: like_percent occurs_in_def)
qed

subsection \<open>Degrading to MySQL\<close>

lemma client_limit_id: "client_limit (feed_limit r) = feed_limit r"
  using feed_limit_range [of r] by (simp add: client_limit_def maxSearchLimit_def)

lemma fallback_rows:
  assumes "x \<in> set (fallbackQuery cc avg rank pat limit t)"
  shows "\<exists>l\<in>set (t_listings t). sr_listing x = ls_id l \<and> sr_title x = ls_title l \<and> ls_status l = StatusActive
    \<and> (like_pat cc pat (ls_title l) \<or> like_pat cc pat (ls_desc l))"
  using assms unfolding fallbackQuery_def newest_first_def by (fastforce dest!: in_set_takeD)



subsection \<open>The index\<close>

text \<open>The indexer reads back what the API wrote.\<close>

lemma decode_listing_event:
  "decode_event (listing_event_json e) = Some \<lparr>we_type = listing_event_str (le_type e), we_listing = le_listing e,
     we_title = le_title e, we_desc = le_desc e, we_price = le_price e, we_category = le_category e, we_status = le_status e\<rparr>"
  by (simp add: decode_event_def listing_event_json_def field_defs)

definition indexed :: "listing_event \<Rightarrow> es_document" where
  "indexed e = \<lparr>ed_listing = le_listing e, ed_title = le_title e, ed_desc = le_desc e, ed_price = le_price e,
     ed_category = le_category e, ed_owner = '''', ed_status = le_status e, ed_rating = 0\<rparr>"

fun index_run :: "listing_event list \<Rightarrow> es_index \<Rightarrow> es_index" where
  "index_run [] ix = ix"
| "index_run (e # es) ix = index_run es (snd (handle_listing_event EsOk (listing_event_json e) ix))"

definition after_event :: "listing_event \<Rightarrow> es_document option" where
  "after_event e = (if le_type e = EventListingDeleted then None else Some (indexed e))"

lemma handle_step: "handle_listing_event EsOk (listing_event_json e) ix = (None, ix(le_listing e := after_event e))"
  by (cases "le_type e") (simp_all add: handle_listing_event_def decode_listing_event Delete_def Upsert_def
      after_event_def document_of_def indexed_def)

lemma index_run_append: "index_run (xs @ ys) ix = index_run ys (index_run xs ix)"
  by (induction xs arbitrary: ix) auto

lemma index_run_again: "index_run (replicate (Suc n) e) ix = ix(le_listing e := after_event e)"
  by (induction n arbitrary: ix) (simp_all add: handle_step)

text \<open>C32 (refinement): when the listing events are handled in order, each at least once and again
  before the next, the index holds for every listing the document of its last event, and none if
  that is its deletion. Handled out of order, as the four workers of one consumer may, a deleted
  listing can stay in the index.\<close>

theorem index_holds_last_event:
  "index_run (concat (map (\<lambda>(e, n). replicate (Suc n) e) es)) Map.empty l =
     (case find (\<lambda>e. le_listing e = l) (rev (map fst es)) of None \<Rightarrow> None | Some e \<Rightarrow> after_event e)
   \<and> (\<exists>e d. le_type d = EventListingDeleted \<and> le_listing d = le_listing e \<and> index_run [e, d] Map.empty (le_listing e) = None
        \<and> index_run [d, e] Map.empty (le_listing e) = Some (indexed e))"
proof
  have "index_run (concat (map (\<lambda>(e, n). replicate (Suc n) e) es)) ix l =
     (case find (\<lambda>e. le_listing e = l) (rev (map fst es)) of None \<Rightarrow> ix l | Some e \<Rightarrow> after_event e)" for ix
    by (induction es arbitrary: ix)
      (auto simp: index_run_append index_run_again find_append simp del: replicate_Suc split: option.splits)
  from this [of Map.empty] show "index_run (concat (map (\<lambda>(e, n). replicate (Suc n) e) es)) Map.empty l =
     (case find (\<lambda>e. le_listing e = l) (rev (map fst es)) of None \<Rightarrow> None | Some e \<Rightarrow> after_event e)" by simp
  let ?e = "\<lambda>t. \<lparr>le_type = t, le_listing = 1, le_title = '''', le_desc = '''', le_price = 0, le_category = '''', le_status = ''''\<rparr>"
  show "\<exists>e d. le_type d = EventListingDeleted \<and> le_listing d = le_listing e \<and> index_run [e, d] Map.empty (le_listing e) = None
        \<and> index_run [d, e] Map.empty (le_listing e) = Some (indexed e)"
    by (rule exI [of _ "?e EventListingCreated"], rule exI [of _ "?e EventListingDeleted"]) (simp add: handle_step after_event_def)
qed

end
