(* ===== verification/Messaging.thy ===== *)
theory Messaging
  imports Database "HOL-Library.Multiset"
begin

text \<open>
  \<open>internal/queue\<close> and \<open>internal/eventbus\<close>: the RabbitMQ topology and its consumer, which
  acknowledges or dead-letters each delivery, and the Kafka consumer, a fetch loop feeding four
  workers through a bounded channel.
\<close>

subsection \<open>RabbitMQ topology\<close>

record Topology =
  tp_exchange :: string
  tp_queue :: string
  tp_key :: string
  tp_dead_exchange :: string
  tp_dead_queue :: string

definition NotificationsTopology :: Topology where
  "NotificationsTopology = \<lparr>tp_exchange = ''notifications'', tp_queue = ''notifications.email'', tp_key = ''email'',
     tp_dead_exchange = ''notifications.dlx'', tp_dead_queue = ''notifications.email.dlq''\<rparr>"

definition MediaTopology :: Topology where
  "MediaTopology = \<lparr>tp_exchange = ''media'', tp_queue = ''media.thumbnail'', tp_key = ''thumbnail'',
     tp_dead_exchange = ''media.dlx'', tp_dead_queue = ''media.thumbnail.dlq''\<rparr>"

datatype exchange_kind = Direct | Fanout

datatype amqp_call =
    ExchangeDeclare string exchange_kind
  | QueueDeclare string "string option"
  | QueueBind string string string

text \<open>A queue carries its dead-letter exchange; a binding is a queue, a key and an exchange.\<close>

record broker =
  br_exchanges :: "string \<Rightarrow> exchange_kind option"
  br_queues :: "string \<Rightarrow> string option option"
  br_bindings :: "(string \<times> string \<times> string) list"

text \<open>
  Declaring again what is there changes nothing; declaring it differently, or binding what is not
  there, is refused by the broker.
\<close>

fun declare_one :: "amqp_call \<Rightarrow> broker \<Rightarrow> broker option" where
  "declare_one (ExchangeDeclare x k) b =
     (case br_exchanges b x of None \<Rightarrow> Some (b\<lparr>br_exchanges := (br_exchanges b)(x \<mapsto> k)\<rparr>)
      | Some k' \<Rightarrow> if k = k' then Some b else None)"
| "declare_one (QueueDeclare q d) b =
     (case br_queues b q of None \<Rightarrow> Some (b\<lparr>br_queues := (br_queues b)(q \<mapsto> d)\<rparr>)
      | Some d' \<Rightarrow> if d = d' then Some b else None)"
| "declare_one (QueueBind q k x) b =
     (if br_queues b q = None \<or> br_exchanges b x = None then None
      else if (q, k, x) \<in> set (br_bindings b) then Some b
      else Some (b\<lparr>br_bindings := (q, k, x) # br_bindings b\<rparr>))"

definition Declare_steps :: "Topology \<Rightarrow> amqp_call list" where
  "Declare_steps t = [ExchangeDeclare (tp_exchange t) Direct, ExchangeDeclare (tp_dead_exchange t) Fanout,
     QueueDeclare (tp_dead_queue t) None, QueueBind (tp_dead_queue t) '''' (tp_dead_exchange t),
     QueueDeclare (tp_queue t) (Some (tp_dead_exchange t)), QueueBind (tp_queue t) (tp_key t) (tp_exchange t)]"

text \<open>Each call may also fail for reasons of its own; \<open>ok\<close> tells which work.\<close>

fun run_declarations :: "amqp_call list \<Rightarrow> bool list \<Rightarrow> broker \<Rightarrow> bool \<times> broker" where
  "run_declarations [] ok b = (True, b)"
| "run_declarations (d # ds) [] b = (False, b)"
| "run_declarations (d # ds) (k # ok) b = (if \<not> k then (False, b)
     else case declare_one d b of None \<Rightarrow> (False, b) | Some b' \<Rightarrow> run_declarations ds ok b')"

definition Declare :: "Topology \<Rightarrow> bool list \<Rightarrow> broker \<Rightarrow> bool \<times> broker" where
  "Declare t = run_declarations (Declare_steps t)"

text \<open>\<open>NewPublisher\<close> declares both topologies.\<close>

definition publisher_declares :: "bool list \<Rightarrow> bool list \<Rightarrow> broker \<Rightarrow> bool \<times> broker" where
  "publisher_declares ok1 ok2 b = (case Declare NotificationsTopology ok1 b of
     (False, b1) \<Rightarrow> (False, b1) | (True, b1) \<Rightarrow> Declare MediaTopology ok2 b1)"

text \<open>The queues a message reaches: by equal key in a direct exchange, all in a fanout one.\<close>

definition route :: "broker \<Rightarrow> string \<Rightarrow> string \<Rightarrow> string list" where
  "route b x key = (case br_exchanges b x of
       None \<Rightarrow> []
     | Some Direct \<Rightarrow> map fst (filter (\<lambda>(q, k, y). y = x \<and> k = key) (br_bindings b))
     | Some Fanout \<Rightarrow> map fst (filter (\<lambda>(q, k, y). y = x) (br_bindings b)))"

definition publish_to :: "broker \<Rightarrow> Topology \<Rightarrow> string list" where
  "publish_to b t = route b (tp_exchange t) (tp_key t)"

definition dead_letter_to :: "broker \<Rightarrow> string \<Rightarrow> string \<Rightarrow> string list" where
  "dead_letter_to b q key = (case br_queues b q of Some (Some x) \<Rightarrow> route b x key | _ \<Rightarrow> [])"

subsection \<open>RabbitMQ consumer\<close>

record 'm mailbox =
  mb_ready :: "'m list"
  mb_unacked :: "'m list"
  mb_acked :: "'m list"
  mb_dead :: "'m list"

text \<open>
  The broker delivers while fewer than \<open>prefetch\<close> messages are unacknowledged; the loop handles
  the oldest delivery and acknowledges it or refuses it without requeueing.
\<close>

inductive queue_step :: "nat \<Rightarrow> ('m \<Rightarrow> bool) \<Rightarrow> 'm mailbox \<Rightarrow> 'm mailbox \<Rightarrow> bool" for prefetch handler where
  deliver: "mb_ready s = m # ms \<Longrightarrow> length (mb_unacked s) < prefetch \<Longrightarrow>
     queue_step prefetch handler s (s\<lparr>mb_ready := ms, mb_unacked := mb_unacked s @ [m]\<rparr>)"
| ack: "mb_unacked s = m # ms \<Longrightarrow> handler m \<Longrightarrow>
     queue_step prefetch handler s (s\<lparr>mb_unacked := ms, mb_acked := mb_acked s @ [m]\<rparr>)"
| nack: "mb_unacked s = m # ms \<Longrightarrow> \<not> handler m \<Longrightarrow>
     queue_step prefetch handler s (s\<lparr>mb_unacked := ms, mb_dead := mb_dead s @ [m]\<rparr>)"

inductive_cases queue_stepE: "queue_step prefetch handler s s'"

definition fresh_mailbox :: "'m list \<Rightarrow> 'm mailbox" where
  "fresh_mailbox ms = \<lparr>mb_ready = ms, mb_unacked = [], mb_acked = [], mb_dead = []\<rparr>"

subsection \<open>Kafka consumer\<close>

definition workerCount :: nat where "workerCount = 4"
definition queueDepth :: nat where "queueDepth = 16"

text \<open>
  One partition, its messages numbered from 0: the next to fetch, the one the fetch loop holds,
  the channel, the ones in the workers, the outcomes, and the offset the group has committed.
\<close>

record consumer =
  co_next :: nat
  co_hold :: "nat option"
  co_jobs :: "nat list"
  co_work :: "nat list"
  co_done :: "nat list"
  co_failed :: "nat list"
  co_dropped :: "nat list"
  co_commit :: nat
  co_closed :: bool

definition new_consumer :: consumer where
  "new_consumer = \<lparr>co_next = 0, co_hold = None, co_jobs = [], co_work = [], co_done = [], co_failed = [],
     co_dropped = [], co_commit = 0, co_closed = False\<rparr>"

text \<open>
  Committing a message commits all messages of the partition before it. A handler's error is
  logged and the message is not committed.
\<close>

inductive consumer_step :: "consumer \<Rightarrow> consumer \<Rightarrow> bool" where
  fetch: "\<not> co_closed s \<Longrightarrow> co_hold s = None \<Longrightarrow>
     consumer_step s (s\<lparr>co_next := Suc (co_next s), co_hold := Some (co_next s)\<rparr>)"
| enqueue: "\<not> co_closed s \<Longrightarrow> co_hold s = Some m \<Longrightarrow> length (co_jobs s) < queueDepth \<Longrightarrow>
     consumer_step s (s\<lparr>co_hold := None, co_jobs := co_jobs s @ [m]\<rparr>)"
| cancelled: "\<not> co_closed s \<Longrightarrow> co_hold s = Some m \<Longrightarrow>
     consumer_step s (s\<lparr>co_hold := None, co_dropped := co_dropped s @ [m], co_closed := True\<rparr>)"
| stopped: "\<not> co_closed s \<Longrightarrow> co_hold s = None \<Longrightarrow> consumer_step s (s\<lparr>co_closed := True\<rparr>)"
| take_job: "co_jobs s = m # ms \<Longrightarrow> length (co_work s) < workerCount \<Longrightarrow>
     consumer_step s (s\<lparr>co_jobs := ms, co_work := co_work s @ [m]\<rparr>)"
| handled: "m \<in> set (co_work s) \<Longrightarrow>
     consumer_step s (s\<lparr>co_work := remove1 m (co_work s), co_done := co_done s @ [m], co_commit := max (co_commit s) (Suc m)\<rparr>)"
| handler_error: "m \<in> set (co_work s) \<Longrightarrow>
     consumer_step s (s\<lparr>co_work := remove1 m (co_work s), co_failed := co_failed s @ [m]\<rparr>)"

inductive_cases consumer_stepE: "consumer_step s s'"

definition consumer_reachable :: "consumer \<Rightarrow> bool" where
  "consumer_reachable s \<longleftrightarrow> consumer_step\<^sup>*\<^sup>* new_consumer s"

subsection \<open>Every message is somewhere, once\<close>

definition mailbox_all :: "'m mailbox \<Rightarrow> 'm list" where
  "mailbox_all s = mb_unacked s @ mb_ready s"

definition queue_inv :: "nat \<Rightarrow> ('m \<Rightarrow> bool) \<Rightarrow> 'm list \<Rightarrow> 'm mailbox \<Rightarrow> bool" where
  "queue_inv prefetch handler ms s \<longleftrightarrow> length (mb_unacked s) \<le> prefetch \<and> (\<exists>seen. ms = seen @ mb_unacked s @ mb_ready s
     \<and> mb_acked s = filter handler seen \<and> mb_dead s = filter (\<lambda>m. \<not> handler m) seen)"

lemma queue_inv_step: "queue_step p h s s' \<Longrightarrow> queue_inv p h ms s \<Longrightarrow> queue_inv p h ms s'"
proof (induction rule: queue_step.induct)
  case (ack s m rest)
  then obtain seen where "ms = seen @ mb_unacked s @ mb_ready s" "mb_acked s = filter h seen" "mb_dead s = filter (\<lambda>m. \<not> h m) seen"
    by (auto simp: queue_inv_def)
  with ack show ?case unfolding queue_inv_def by (auto intro!: exI [of _ "seen @ [m]"])
next
  case (nack s m rest)
  then obtain seen where "ms = seen @ mb_unacked s @ mb_ready s" "mb_acked s = filter h seen" "mb_dead s = filter (\<lambda>m. \<not> h m) seen"
    by (auto simp: queue_inv_def)
  with nack show ?case unfolding queue_inv_def by (auto intro!: exI [of _ "seen @ [m]"])
qed (auto simp: queue_inv_def)

lemma queue_inv_reach: "(queue_step p h)\<^sup>*\<^sup>* (fresh_mailbox ms) s \<Longrightarrow> queue_inv p h ms s"
proof (induction rule: rtranclp_induct)
  case base
  then show ?case by (simp add: queue_inv_def fresh_mailbox_def)
next
  case (step s s')
  then show ?case by (blast intro: queue_inv_step)
qed

definition consumer_places :: "consumer \<Rightarrow> nat multiset" where
  "consumer_places s = mset (case co_hold s of None \<Rightarrow> [] | Some m \<Rightarrow> [m]) + mset (co_jobs s) + mset (co_work s)
     + mset (co_done s) + mset (co_failed s) + mset (co_dropped s)"

definition consumer_inv :: "consumer \<Rightarrow> bool" where
  "consumer_inv s \<longleftrightarrow> consumer_places s = mset [0..<co_next s] \<and> length (co_jobs s) \<le> queueDepth
     \<and> length (co_work s) \<le> workerCount \<and> (co_closed s \<longrightarrow> co_hold s = None) \<and> co_commit s \<le> co_next s"

lemma consumer_inv_step: "consumer_step s s' \<Longrightarrow> consumer_inv s \<Longrightarrow> consumer_inv s'"
proof (induction rule: consumer_step.induct)
  case (handled m s)
  have "m \<in># consumer_places s" using handled.hyps by (simp add: consumer_places_def)
  then have "m < co_next s" using handled.prems by (simp add: consumer_inv_def del: mset_upt)
  with handled show ?case
    by (auto simp: consumer_inv_def consumer_places_def length_remove1)
next
  case (handler_error m s)
  then show ?case by (auto simp: consumer_inv_def consumer_places_def length_remove1)
qed (auto simp: consumer_inv_def consumer_places_def)

lemma consumer_reachable_inv: "consumer_reachable s \<Longrightarrow> consumer_inv s"
  unfolding consumer_reachable_def
proof (induction rule: rtranclp_induct)
  case base
  then show ?case by (simp add: consumer_inv_def new_consumer_def consumer_places_def)
next
  case (step s s')
  then show ?case by (blast intro: consumer_inv_step)
qed

end
