(* ===== verification/MessagingSpec.thy ===== *)
theory MessagingSpec
  imports Messaging
begin

text \<open>
  What the consumers promise: declared topologies route a message to its queue and a refused one
  to its dead-letter queue; every delivery is settled once, in order; the Kafka consumer holds a
  bounded number of messages and handles each fetched one before it stops.
\<close>

subsection \<open>Routing\<close>

definition no_broker :: broker where
  "no_broker = \<lparr>br_exchanges = Map.empty, br_queues = Map.empty, br_bindings = []\<rparr>"

definition all_ok :: "bool list" where "all_ok = replicate 6 True"

lemmas topology_defs = NotificationsTopology_def MediaTopology_def Declare_def Declare_steps_def publisher_declares_def
  no_broker_def all_ok_def publish_to_def dead_letter_to_def route_def

text \<open>After both topologies are declared, a message reaches exactly its queue, and a refused one
  exactly its dead-letter queue, whatever its key; the consumer's own declaration changes nothing.\<close>

lemma declared_routes:
  assumes "publisher_declares all_ok all_ok no_broker = (True, b)" and "t \<in> {NotificationsTopology, MediaTopology}"
  shows "publish_to b t = [tp_queue t] \<and> dead_letter_to b (tp_queue t) key = [tp_dead_queue t] \<and> Declare t all_ok b = (True, b)"
  using assms by (auto simp: topology_defs eval_nat_numeral)

subsection \<open>Settling deliveries\<close>

definition unsettled :: "'m mailbox \<Rightarrow> nat" where
  "unsettled s = 2 * length (mb_ready s) + length (mb_unacked s)"

lemma queue_step_measure: "queue_step p h s s' \<Longrightarrow> unsettled s' < unsettled s"
  by (induction rule: queue_step.induct) (auto simp: unsettled_def)

lemma queue_run_length: "(queue_step p h ^^ n) s s' \<Longrightarrow> n + unsettled s' \<le> unsettled s"
proof (induction n arbitrary: s')
  case (Suc n)
  then obtain u where "(queue_step p h ^^ n) s u" "queue_step p h u s'" by auto
  with Suc.IH [of u] queue_step_measure [of p h u s'] show ?case by simp
qed simp



subsection \<open>Draining\<close>

definition undrained :: "consumer \<Rightarrow> nat" where
  "undrained s = 2 * length (co_jobs s) + length (co_work s)"

lemma drain_step: "consumer_step s s' \<Longrightarrow> co_closed s \<Longrightarrow> co_closed s' \<and> undrained s' < undrained s"
proof (induction rule: consumer_step.induct)
  case (handled m s)
  then have "0 < length (co_work s)" by (cases "co_work s") auto
  with handled show ?case by (simp add: undrained_def length_remove1)
next
  case (handler_error m s)
  then have "0 < length (co_work s)" by (cases "co_work s") auto
  with handler_error show ?case by (simp add: undrained_def length_remove1)
qed (auto simp: undrained_def)

lemma drain_run: "(consumer_step ^^ n) s s' \<Longrightarrow> co_closed s \<Longrightarrow> co_closed s' \<and> n + undrained s' \<le> undrained s"
proof (induction n arbitrary: s')
  case (Suc n)
  then obtain u where u: "(consumer_step ^^ n) s u" "consumer_step u s'" by auto
  from Suc.IH [OF u(1) Suc.prems(2)] drain_step [OF u(2)] show ?case by auto
qed simp

lemma stuck_drained: "consumer_inv s \<Longrightarrow> co_closed s \<Longrightarrow> (\<nexists>s'. consumer_step s s') \<Longrightarrow> co_jobs s = [] \<and> co_work s = []"
proof -
  assume i: "consumer_inv s" "co_closed s" "\<nexists>s'. consumer_step s s'"
  have w: "co_work s = []"
  proof (rule ccontr)
    assume "co_work s \<noteq> []"
    then have "hd (co_work s) \<in> set (co_work s)" by simp
    from handler_error [OF this] i(3) show False by blast
  qed
  have "co_jobs s = []"
  proof (rule ccontr)
    assume "co_jobs s \<noteq> []"
    then obtain m ms where "co_jobs s = m # ms" by (cases "co_jobs s") auto
    from take_job [OF this] w i(3) show False by (auto simp: workerCount_def)
  qed
  with w show ?thesis by simp
qed

lemma step_reachable: "consumer_reachable s \<Longrightarrow> consumer_step s s' \<Longrightarrow> consumer_reachable s'"
  unfolding consumer_reachable_def by (rule rtranclp.rtrancl_into_rtrancl)




end
