(* ===== verification/App.thy ===== *)
theory App
  imports Polling Search Hub Catalog
begin

text \<open>
  \<open>internal/app\<close>, \<open>internal/middleware\<close>, \<open>internal/partner\<close> and \<open>internal/health\<close>: the dispute and
  admin operations, the client's address, the response headers, and the router that puts every
  operation behind its guards.
\<close>

subsection \<open>Middleware\<close>

definition quoted :: "string \<Rightarrow> string" where
  "quoted s = CHR 0x27 # s @ [CHR 0x27]"

definition csp_headers :: "(string \<times> string) list" where
  "csp_headers = [(''Content-Security-Policy'',
        ''default-src '' @ quoted ''self'' @ ''; script-src '' @ quoted ''self'' @ ''; style-src '' @ quoted ''self''
        @ ''; img-src '' @ quoted ''self'' @ '' data:; connect-src '' @ quoted ''self'' @ ''; frame-ancestors '' @ quoted ''none''
        @ ''; base-uri '' @ quoted ''self'' @ ''; form-action '' @ quoted ''self''),
     (''X-Content-Type-Options'', ''nosniff''), (''X-Frame-Options'', ''DENY''),
     (''Referrer-Policy'', ''strict-origin-when-cross-origin'')]"

definition CSP :: "handler \<Rightarrow> handler" where
  "CSP nxt r w = (case nxt r w of (resp, w') \<Rightarrow> (resp\<lparr>rs_headers := csp_headers @ rs_headers resp\<rparr>, w'))"

text \<open>\<open>net.SplitHostPort\<close>: the host before the last colon, without the brackets of an IPv6 address.\<close>

definition SplitHostPort :: "string \<Rightarrow> string option" where
  "SplitHostPort s =
     (let port = rev (takeWhile (\<lambda>c. c \<noteq> CHR '':'') (rev s));
          hostpart = rev (tl (dropWhile (\<lambda>c. c \<noteq> CHR '':'') (rev s)));
          inner = takeWhile (\<lambda>c. c \<noteq> CHR '']'') (tl s)
      in if CHR '':'' \<notin> set s then None
         else if hd s = CHR ''[''
         then (if hostpart = CHR ''['' # inner @ '']'' \<and> CHR ''['' \<notin> set (inner @ port) \<and> CHR '']'' \<notin> set port then Some inner else None)
         else if CHR '':'' \<in> set hostpart \<or> CHR ''['' \<in> set s \<or> CHR '']'' \<in> set s then None
         else Some hostpart)"

text \<open>\<open>client_ip\<close> is the address chi takes from \<open>X-Forwarded-For\<close> behind one trusted proxy.\<close>

definition ResolveClientIP :: "(http_req \<Rightarrow> string) \<Rightarrow> http_req \<Rightarrow> string" where
  "ResolveClientIP client_ip r =
     (if client_ip r \<noteq> '''' then client_ip r
      else case SplitHostPort (rq_remote r) of Some host \<Rightarrow> host | None \<Rightarrow> rq_remote r)"

subsection \<open>Disputes\<close>

record damage_report =
  dr_booking :: int
  dr_by :: int
  dr_description :: string
  dr_photos :: "string list"
  dr_created :: time

text \<open>\<open>insert_one\<close> is the MongoDB driver: an error, or the inserted identifier if it is an object id.\<close>

definition report_Create :: "(damage_report \<Rightarrow> gerr + string option) \<Rightarrow> time \<Rightarrow> damage_report \<Rightarrow> gerr + string" where
  "report_Create insert_one now rep =
     (case insert_one (rep\<lparr>dr_created := now\<rparr>) of
        Inl e \<Rightarrow> Inl (Wrapped ''damagereport: create'' e)
      | Inr None \<Rightarrow> Inl (OtherErr ''damagereport: unexpected inserted id type'')
      | Inr (Some hex) \<Rightarrow> Inr hex)"

definition booking_struct_json :: "booking \<Rightarrow> json" where
  "booking_struct_json b = JObj
     [(''id'', JNum (bk_id b)), (''listing_id'', JNum (bk_listing b)), (''renter_id'', JNum (bk_renter b)),
      (''start_date'', JTime (bk_start b)), (''end_date'', JTime (bk_end b)), (''status'', JStr (status_str (bk_status b))),
      (''total_price_cents'', JNum (bk_total b)), (''created_at'', JTime (bk_created b)), (''updated_at'', JTime (bk_updated b))]"

record dispute_request =
  dq_description :: string
  dq_photos :: "string list"

definition dispute_reply :: "booking \<Rightarrow> json \<Rightarrow> (string \<times> json) list \<Rightarrow> http_resp" where
  "dispute_reply b reportID extra = JSON 201 (Some (JObj
     ([(''booking'', booking_struct_json b), (''damage_report_id'', reportID)] @ extra)))"

definition Dispute_handler :: "service \<Rightarrow> (damage_report \<Rightarrow> gerr + string option) option \<Rightarrow> dispute_request option \<Rightarrow> handler" where
  "Dispute_handler s reports body r w =
     (case rq_claims r of
        None \<Rightarrow> (Error 401 ''authentication required'', w)
      | Some cl \<Rightarrow>
     (case parse_int64 (rq_id r) of
        Inl e \<Rightarrow> (Error 400 ''invalid booking id'', w)
      | Inr i \<Rightarrow>
     (case body of
        None \<Rightarrow> (Error 400 ''invalid request body'', w)
      | Some req \<Rightarrow>
      if dq_description req = '''' then (Error 400 ''description is required'', w)
      else (case Dispute s i w of
        (Inl e, w1) \<Rightarrow>
          (if errors_is e ErrNotFound then (Error 404 ''booking not found'', w1)
           else if errors_is e ErrInvalidTransition then (Error 409 ''booking cannot be disputed from its current status'', w1)
           else (Error 500 ''could not dispute booking'', w1))
      | (Inr b, w1) \<Rightarrow>
          (case reports of
             None \<Rightarrow> (dispute_reply b (JStr '''') [], w1)
           | Some insert_one \<Rightarrow>
              (case report_Create insert_one (clock w1) \<lparr>dr_booking = bk_id b, dr_by = cl_user cl,
                      dr_description = dq_description req, dr_photos = dq_photos req, dr_created = zero_time\<rparr> of
                 Inl e \<Rightarrow> (dispute_reply b JNull [(''warning'', JStr ''booking disputed, but damage report could not be saved'')], w1)
               | Inr hex \<Rightarrow> (dispute_reply b (JStr hex) [], w1)))))))"

subsection \<open>Admin dashboard\<close>

record admin_handler =
  ah_hmac :: "string \<Rightarrow> string \<Rightarrow> string"
  ah_sessions :: session_manager
  ah_verify :: "string \<Rightarrow> string \<Rightarrow> bool"
  ah_secure :: bool

text \<open>A page is the data given to its template.\<close>

definition html_page :: "int \<Rightarrow> (string \<times> json) list \<Rightarrow> http_resp" where
  "html_page status data = \<lparr>rs_status = status, rs_headers = [], rs_cookies = [], rs_body = Some (JObj data)\<rparr>"

definition admin_LoginForm :: "admin_handler \<Rightarrow> gerr + string \<Rightarrow> handler" where
  "admin_LoginForm h rnd r w =
     (case GenerateCSRFToken rnd of
        Inl e \<Rightarrow> (plain_error 500 ''internal error'', w)
      | Inr token \<Rightarrow> (IssueCSRFCookie token (ah_secure h) (html_page 200 [(''CSRFToken'', JStr token)]), w))"

definition admin_Login :: "admin_handler \<Rightarrow> gerr + string \<Rightarrow> handler" where
  "admin_Login h rnd r w =
     (case rq_form r of
        None \<Rightarrow> (plain_error 400 ''invalid form'', w)
      | Some form \<Rightarrow>
        let password = field form ''password''
        in case user_GetByEmail (field form ''email'') w of (res, w1) \<Rightarrow>
          (case (case res of Inl e \<Rightarrow> if errors_is e user_ErrNotFound then Inr None else Inl e
               | Inr u \<Rightarrow> Inr (if ah_verify h password (us_hash u) \<and> us_role u = RoleAdmin then Some u else None)) of
             Inl e \<Rightarrow> (plain_error 500 ''internal error'', w1)
           | Inr None \<Rightarrow>
               let token = (case GenerateCSRFToken rnd of Inl e \<Rightarrow> '''' | Inr t \<Rightarrow> t)
               in (IssueCSRFCookie token (ah_secure h) (html_page 401
                    [(''Error'', JStr ''Invalid credentials or not an admin account''), (''CSRFToken'', JStr token)]), w1)
           | Inr (Some u) \<Rightarrow>
               (IssueCookie (ah_hmac h) (ah_sessions h) (clock w1) (us_id u) (ah_secure h) (Redirect 303 ''/admin/dashboard''), w1)))"

definition admin_Logout :: "admin_handler \<Rightarrow> handler" where
  "admin_Logout h r w = (ClearCookie (ah_secure h) (Redirect 303 ''/admin/login''), w)"

text \<open>\<open>%.2f\<close> of a double, and the dollars of an amount in cents.\<close>

definition fixed2 :: "rat \<Rightarrow> string" where
  "fixed2 x = (let n = nat (round_even (\<bar>x\<bar> * 100))
     in (if x < 0 then ''-'' else '''') @ dec (n div 100) @ ''.'' @ pad2 (n mod 100))"

definition formatCents :: "int \<Rightarrow> string" where
  "formatCents cents = fixed2 (fl (fl (of_int cents) / fl 100))"

definition dashboard_row :: "booking \<Rightarrow> json" where
  "dashboard_row b = JObj [(''ID'', JNum (bk_id b)), (''ListingID'', JNum (bk_listing b)), (''RenterID'', JNum (bk_renter b)),
     (''Status'', JStr (status_str (bk_status b))), (''TotalPriceDollars'', JStr (formatCents (bk_total b)))]"

definition admin_Dashboard :: "admin_handler \<Rightarrow> gerr + string \<Rightarrow> handler" where
  "admin_Dashboard h rnd r w =
     (case ListRecent 50 w of
        (Inl e, w1) \<Rightarrow> (plain_error 500 ''could not load bookings'', w1)
      | (Inr bs, w1) \<Rightarrow>
     (case GenerateCSRFToken rnd of
        Inl e \<Rightarrow> (plain_error 500 ''internal error'', w1)
      | Inr token \<Rightarrow> (IssueCSRFCookie token (ah_secure h)
          (html_page 200 [(''Bookings'', JArr (map dashboard_row bs)), (''CSRFToken'', JStr token)]), w1)))"

subsection \<open>Partner webhook, health, contact details\<close>

record insurance_payload =
  ip_booking :: int
  ip_event :: string
  ip_policy :: string

definition InsuranceWebhook :: "insurance_payload option \<Rightarrow> string \<Rightarrow> handler" where
  "InsuranceWebhook body owner r w =
     (case body of
        None \<Rightarrow> (Error 400 ''invalid webhook payload'', w)
      | Some payload \<Rightarrow> (JSON 202 (Some (JObj [(''status'', JStr ''received'')])), w))"

definition health_Handler :: handler where
  "health_Handler r w = (JSON 200 (Some (JObj [(''status'', JStr ''ok'')])), w)"

definition GetUserContact :: "int \<Rightarrow> world \<Rightarrow> (gerr + int \<times> string \<times> string) \<times> world" where
  "GetUserContact i w =
     (case user_GetByID i w of
        (Inl e, w1) \<Rightarrow> (Inl (OtherErr ''NotFound: user not found''), w1)
      | (Inr u, w1) \<Rightarrow> (Inr (us_id u, us_name u, us_email u), w1))"

subsection \<open>The router\<close>

record app =
  ap_users :: user_service
  ap_jwt :: jwt_lib
  ap_issuer :: jwt_issuer
  ap_oauth :: "oauth_handler option"
  ap_listings :: listing_handler
  ap_bookings :: booking_handler
  ap_search :: search_service
  ap_reports :: "(damage_report \<Rightarrow> gerr + string option) option"
  ap_admin :: admin_handler
  ap_sha256 :: "string \<Rightarrow> string"
  ap_pepper :: string
  ap_decode_std :: "string \<Rightarrow> string option"
  ap_basic_user :: string
  ap_basic_pass :: string
  ap_collation :: "string \<Rightarrow> int"
  ap_char_collation :: "char \<Rightarrow> char"
  ap_auth_limit :: "handler \<Rightarrow> handler"
  ap_api_limit :: "handler \<Rightarrow> handler"

text \<open>
  The routes with the bodies their handlers decode, and the random bytes, or for a poll the
  environment, they run with. The event stream, the socket and SAML are not request and reply.
\<close>

datatype route =
    Healthz
  | PostRegister "RegisterInput option" | PostLogin "(string \<times> string) option"
  | OAuthStart "gerr + string" | OAuthCallback
  | GetCategories | GetListings | GetListing | GetSearch
  | PostListings "listing_request option"
  | PostBookings "create_booking_request option" | GetBookings | GetBooking
  | PostApprove | PostReject | PostCancel | PostActivate | PostComplete
  | PostDispute "dispute_request option" | GetPoll poll_env | PostReviews "review_request option"
  | PartnerListings | PartnerInsurance "insurance_payload option"
  | AdminLoginForm "gerr + string" | AdminLogin "gerr + string" | AdminDashboard "gerr + string" | AdminLogout
  | HealthDetailed

definition poll_handler :: "poll_env \<Rightarrow> handler" where
  "poll_handler env r w = (case Poll env r w of (resp, t, m, w') \<Rightarrow> (resp, w'))"

text \<open>The routes behind \<open>RequireJWT\<close>, with their handlers.\<close>

fun protected_route :: "app \<Rightarrow> route \<Rightarrow> handler option" where
  "protected_route a (PostListings body) = Some (listing_create_handler (ap_listings a) body)"
| "protected_route a (PostBookings body) = Some (\<lambda>r w. Create (ap_bookings a) r body w)"
| "protected_route a GetBookings = Some ListMine"
| "protected_route a GetBooking = Some Get"
| "protected_route a PostApprove = Some (Approve_handler (ap_bookings a))"
| "protected_route a PostReject = Some (Reject_handler (ap_bookings a))"
| "protected_route a PostCancel = Some (Cancel_handler (ap_bookings a))"
| "protected_route a PostActivate = Some (Activate_handler (ap_bookings a))"
| "protected_route a PostComplete = Some (Complete_handler (ap_bookings a))"
| "protected_route a (PostDispute body) = Some (Dispute_handler (bh_service (ap_bookings a)) (ap_reports a) body)"
| "protected_route a (GetPoll env) = Some (poll_handler env)"
| "protected_route a (PostReviews body) = Some (review_handler body)"
| "protected_route a _ = None"

definition not_found :: handler where
  "not_found r w = (plain_error 404 ''404 page not found'', w)"

fun open_route :: "app \<Rightarrow> route \<Rightarrow> handler" where
  "open_route a Healthz = health_Handler"
| "open_route a (PostRegister body) = ap_auth_limit a (\<lambda>r. Register_handler (ap_users a) body)"
| "open_route a (PostLogin body) = ap_auth_limit a (\<lambda>r. Login_handler (ap_users a) body)"
| "open_route a (OAuthStart rnd) = (case ap_oauth a of None \<Rightarrow> ap_auth_limit a not_found | Some h \<Rightarrow> ap_auth_limit a (oauth_Start h rnd))"
| "open_route a OAuthCallback = (case ap_oauth a of None \<Rightarrow> ap_auth_limit a not_found | Some h \<Rightarrow> ap_auth_limit a (oauth_Callback h))"
| "open_route a GetCategories = ap_api_limit a (category_list_handler (ap_collation a))"
| "open_route a GetListings = ap_api_limit a (Feed (ap_listings a))"
| "open_route a GetListing = ap_api_limit a (listing_GetDetail (ap_listings a))"
| "open_route a GetSearch = ap_api_limit a (search_handler (ap_char_collation a) (lh_avg (ap_listings a)) (ap_search a))"
| "open_route a PartnerListings = RequireAPIKey (ap_sha256 a) (ap_pepper a) (\<lambda>owner. Feed (ap_listings a))"
| "open_route a (PartnerInsurance body) = RequireAPIKey (ap_sha256 a) (ap_pepper a) (InsuranceWebhook body)"
| "open_route a (AdminLoginForm rnd) = admin_LoginForm (ap_admin a) rnd"
| "open_route a (AdminLogin rnd) = RequireCSRF (admin_Login (ap_admin a) rnd)"
| "open_route a (AdminDashboard rnd) = RequireSession (ah_hmac (ap_admin a)) (ah_sessions (ap_admin a)) (\<lambda>user. admin_Dashboard (ap_admin a) rnd)"
| "open_route a AdminLogout = RequireSession (ah_hmac (ap_admin a)) (ah_sessions (ap_admin a)) (\<lambda>user. RequireCSRF (admin_Logout (ap_admin a)))"
| "open_route a HealthDetailed = RequireBasicAuth (ap_decode_std a) (ap_basic_user a) (ap_basic_pass a) health_Handler"
| "open_route a _ = not_found"

definition serve :: "app \<Rightarrow> route \<Rightarrow> handler" where
  "serve a rt = CSP (case protected_route a rt of
       Some h \<Rightarrow> ap_api_limit a (RequireJWT (ap_jwt a) (ap_issuer a) h)
     | None \<Rightarrow> open_route a rt)"

text \<open>What \<open>main\<close> wires with a reachable Redis: one limiter for both route groups.\<close>

definition with_redis_limits :: "(http_req \<Rightarrow> string) \<Rightarrow> app \<Rightarrow> app" where
  "with_redis_limits client_ip a = a\<lparr>ap_auth_limit := Middleware 20 (60 * second) (ResolveClientIP client_ip),
     ap_api_limit := Middleware 300 (60 * second) (ResolveClientIP client_ip)\<rparr>"

end
