(* ===== verification/Services.thy ===== *)
theory Services
  imports App Messaging
begin

text \<open>
  The other processes: \<open>cmd/notification-service\<close> with its client \<open>internal/notification\<close>, and
  the thumbnail function \<open>cmd/thumbnail-fn\<close>. Images are decoded, scaled and encoded by libraries,
  which are arguments; sending a mail is the line the service logs.
\<close>

subsection \<open>Notifications\<close>

record email_job =
  ej_booking :: int
  ej_renter :: int
  ej_template :: string

definition decode_email_job :: "json \<Rightarrow> email_job option" where
  "decode_email_job = into_struct (\<lambda>fs.
       case (get_num fs ''booking_id'', get_num fs ''renter_id'', get_str fs ''template'') of
          (Some b, Some r, Some t) \<Rightarrow> Some \<lparr>ej_booking = b, ej_renter = r, ej_template = t\<rparr>
        | _ \<Rightarrow> None)"

text \<open>The user client of the API's \<open>UserInternalService\<close>, with the credentials of both sides.\<close>

type_synonym user_client = "int \<Rightarrow> world \<Rightarrow> (gerr + int \<times> string \<times> string) \<times> world"

definition user_client_of :: "(string \<Rightarrow> string) \<Rightarrow> string \<times> string \<Rightarrow> string \<times> string \<Rightarrow> user_client" where
  "user_client_of enc client server i w =
     (case BasicAuthClientInterceptor enc (fst client) (snd client)
             (BasicAuthInterceptor enc (fst server) (snd server) (\<lambda>md. Inr ())) None of
        Inl e \<Rightarrow> (Inl e, w) | Inr ok \<Rightarrow> GetUserContact i w)"

record sent_mail =
  sm_to :: string
  sm_template :: string
  sm_data :: "(string \<times> string) list option"

definition sendTransactional :: "user_client \<Rightarrow> int \<Rightarrow> string \<Rightarrow> (string \<times> string) list option \<Rightarrow> world \<Rightarrow> (gerr + sent_mail) \<times> world" where
  "sendTransactional client userID template data w =
     (case client userID w of
        (Inl e, w1) \<Rightarrow> (Inl e, w1)
      | (Inr (i, name, email), w1) \<Rightarrow> (Inr \<lparr>sm_to = email, sm_template = template, sm_data = data\<rparr>, w1))"

text \<open>The queue's handler; an error sends the job to the dead-letter queue.\<close>

definition email_handler :: "user_client \<Rightarrow> json \<Rightarrow> world \<Rightarrow> (gerr + sent_mail) \<times> world" where
  "email_handler client body w =
     (case decode_email_job body of
        None \<Rightarrow> (Inl (OtherErr ''json''), w)
      | Some job \<Rightarrow> sendTransactional client (ej_renter job) (ej_template job) None w)"

definition email_consumer :: "user_client \<Rightarrow> world \<Rightarrow> json mailbox \<Rightarrow> json mailbox \<Rightarrow> bool" where
  "email_consumer client w = queue_step 10 (\<lambda>body. is_ok (fst (email_handler client body w)))"

definition SendTransactional :: "user_client \<Rightarrow> int \<Rightarrow> string \<Rightarrow> (string \<times> string) list option \<Rightarrow> world \<Rightarrow> (bool \<times> gerr option) \<times> world" where
  "SendTransactional client userID template data w =
     (case sendTransactional client userID template data w of
        (Inl e, w1) \<Rightarrow> ((False, Some e), w1) | (Inr m, w1) \<Rightarrow> ((True, None), w1))"

text \<open>
  The API's client of that operation and the adapter the booking service calls: the error, and the
  mails it made the service send. A process uses the same credentials for its calls and its server.
\<close>

definition GRPCClient_SendTransactional ::
  "(string \<Rightarrow> string) \<Rightarrow> string \<times> string \<Rightarrow> string \<times> string \<Rightarrow> user_client \<Rightarrow> int \<Rightarrow> string \<Rightarrow> (string \<times> string) list option \<Rightarrow> world
    \<Rightarrow> (gerr option \<times> sent_mail list) \<times> world" where
  "GRPCClient_SendTransactional enc client server users userID template data w =
     (case BasicAuthClientInterceptor enc (fst client) (snd client)
             (BasicAuthInterceptor enc (fst server) (snd server) (\<lambda>md. Inr ())) None of
        Inl e \<Rightarrow> ((Some e, []), w)
      | Inr ok \<Rightarrow> (case SendTransactional users userID template data w of
          ((ack, Some e), w1) \<Rightarrow> ((Some e, []), w1)
        | ((ack, None), w1) \<Rightarrow>
            ((None, case fst (sendTransactional users userID template data w) of Inr m \<Rightarrow> [m] | Inl e \<Rightarrow> []), w1)))"

definition syncNotifierAdapter_SendTransactional ::
  "(string \<Rightarrow> string) \<Rightarrow> string \<times> string \<Rightarrow> string \<times> string \<Rightarrow> int \<Rightarrow> string \<Rightarrow> world \<Rightarrow> (gerr option \<times> sent_mail list) \<times> world" where
  "syncNotifierAdapter_SendTransactional enc api notif userID template =
     GRPCClient_SendTransactional enc api notif (user_client_of enc notif api) userID template None"

text \<open>The mails an effect of the API leads to, when it is handled in state \<open>v\<close>.\<close>

fun mails_of :: "(string \<Rightarrow> string) \<Rightarrow> string \<times> string \<Rightarrow> string \<times> string \<Rightarrow> world \<Rightarrow> effect \<Rightarrow> sent_mail list" where
  "mails_of enc api notif v (EmailQueued job) =
     (case fst (email_handler (user_client_of enc notif api) job v) of Inl e \<Rightarrow> [] | Inr m \<Rightarrow> [m])"
| "mails_of enc api notif v (SyncSent userID template) =
     snd (fst (syncNotifierAdapter_SendTransactional enc api notif userID template v))"
| "mails_of enc api notif v _ = []"

subsection \<open>Thumbnails\<close>

record 'i image_lib =
  decode_base64 :: "string \<Rightarrow> gerr + string"
  encode_base64 :: "string \<Rightarrow> string"
  image_decode :: "string \<Rightarrow> gerr + 'i"
  image_size :: "'i \<Rightarrow> int \<times> int"
  image_scale :: "int \<times> int \<Rightarrow> 'i \<Rightarrow> 'i"
  jpeg_encode :: "int \<Rightarrow> 'i \<Rightarrow> gerr + string"

record thumbnail_request =
  tr_listing :: int
  tr_image :: string
  tr_type :: string
  tr_max :: int

record thumbnail_response =
  ts_listing :: int
  ts_image :: string
  ts_width :: int
  ts_height :: int

definition max_dimension :: "int \<Rightarrow> int" where
  "max_dimension m = (if m \<le> 0 then 320 else m)"

text \<open>A division by zero gives an infinite scale, which is then cut to 1.\<close>

definition thumbnail_scale :: "int \<Rightarrow> int \<times> int \<Rightarrow> rat" where
  "thumbnail_scale m s = (case s of (w, h) \<Rightarrow>
     let longest = (if h < w then w else h);
         scale = (if longest = 0 then 2 else fl (fl (of_int m) / fl (of_int longest)))
     in if 1 < scale then 1 else scale)"

definition thumbnail_size :: "int \<Rightarrow> int \<times> int \<Rightarrow> int \<times> int" where
  "thumbnail_size m s = (case s of (w, h) \<Rightarrow>
     (float_to_int (fl (fl (of_int w) * thumbnail_scale m s)), float_to_int (fl (fl (of_int h) * thumbnail_scale m s))))"

definition thumbnail_Handler :: "'i image_lib \<Rightarrow> thumbnail_request \<Rightarrow> gerr + thumbnail_response" where
  "thumbnail_Handler L req =
     (case decode_base64 L (tr_image req) of
        Inl e \<Rightarrow> Inl (Wrapped ''thumbnail-fn: decode base64'' e)
      | Inr raw \<Rightarrow>
     (case image_decode L raw of
        Inl e \<Rightarrow> Inl (Wrapped ''thumbnail-fn: decode image'' e)
      | Inr src \<Rightarrow>
        let (dstW, dstH) = thumbnail_size (max_dimension (tr_max req)) (image_size L src)
        in case jpeg_encode L 85 (image_scale L (dstW, dstH) src) of
             Inl e \<Rightarrow> Inl (Wrapped ''thumbnail-fn: encode jpeg'' e)
           | Inr out \<Rightarrow> Inr \<lparr>ts_listing = tr_listing req, ts_image = encode_base64 L out, ts_width = dstW, ts_height = dstH\<rparr>))"

text \<open>The local worker: an undecodable request or a failing image is dead-lettered.\<close>

definition decode_thumbnail_request :: "json \<Rightarrow> thumbnail_request option" where
  "decode_thumbnail_request = into_struct (\<lambda>fs.
       case (get_num fs ''listing_id'', get_str fs ''image_base64'', get_str fs ''content_type'', get_num fs ''max_dimension'') of
          (Some l, Some i, Some c, Some m) \<Rightarrow> Some \<lparr>tr_listing = l, tr_image = i, tr_type = c, tr_max = m\<rparr>
        | _ \<Rightarrow> None)"

definition thumbnail_worker :: "'i image_lib \<Rightarrow> json \<Rightarrow> bool" where
  "thumbnail_worker L body = (case decode_thumbnail_request body of
     None \<Rightarrow> False | Some req \<Rightarrow> is_ok (thumbnail_Handler L req))"

definition thumbnail_consumer :: "'i image_lib \<Rightarrow> json mailbox \<Rightarrow> json mailbox \<Rightarrow> bool" where
  "thumbnail_consumer L = queue_step 4 (thumbnail_worker L)"

end
