(* ===== verification/ServicesSpec.thy ===== *)
theory ServicesSpec
  imports Services BookingLife AuthSpec
begin

text \<open>
  What the other processes promise: the mail of an approval reaches the renter, from the booking's
  transition through the queue and the internal API, and thumbnails fit their bound.
\<close>

subsection \<open>From an approval to the renter's mail\<close>

lemma decode_email_json [simp]:
  "decode_email_job (email_json b r t) = Some \<lparr>ej_booking = b, ej_renter = r, ej_template = t\<rparr>"
  by (simp add: decode_email_job_def email_json_def field_defs)

lemma user_client_works:
  assumes "\<And>s. \<forall>c\<in>set (enc s). \<not> grpc_space c" and "\<And>s. enc s \<noteq> ''''" and "faults v = []"
  shows "fst (user_client_of enc (cu, cp) (su, sp) i v) =
    (if enc (cu @ '':'' @ cp) = enc (su @ '':'' @ sp)
     then (case user_by_id i (reader v) of None \<Rightarrow> Inl (OtherErr ''NotFound: user not found'')
           | Some u \<Rightarrow> Inr (us_id u, us_name u, us_email u))
     else Inl (OtherErr ''Unauthenticated: invalid credentials''))"
  unfolding user_client_of_def fst_conv snd_conv grpc_credentials_agree [of enc, OF assms(1,2)]
  using assms(3) by (auto simp: GetUserContact_def user_GetByID_def user_get_def or_no_rows_def split: option.splits)

lemma user_found: "distinct (map us_id (t_users t)) \<Longrightarrow> u \<in> set (t_users t) \<Longrightarrow> user_by_id (us_id u) t = Some u"
  unfolding user_by_id_def by (rule find_distinct_key)

lemma mails_to_user:
  fixes api notif :: "string \<times> string"
  assumes "\<And>s. \<forall>c\<in>set (enc s). \<not> grpc_space c" and "\<And>s. enc s \<noteq> ''''" and "faults v = []" and "user_by_id i (reader v) = Some u"
  defines "sent \<equiv> \<lambda>template. (if enc (fst notif @ '':'' @ snd notif) = enc (fst api @ '':'' @ snd api)
      then [\<lparr>sm_to = us_email u, sm_template = template, sm_data = None\<rparr>] else [])"
  shows "mails_of enc api notif v (EmailQueued (email_json k i template)) = sent template"
    and "mails_of enc api notif v (SyncSent i template) = sent template"
proof -
  obtain nu np au ap where c: "notif = (nu, np)" "api = (au, ap)" by (metis surj_pair)
  obtain r v1 where uc: "user_client_of enc (nu, np) (au, ap) i v = (r, v1)" by fastforce
  have r: "r = (if enc (nu @ '':'' @ np) = enc (au @ '':'' @ ap) then Inr (us_id u, us_name u, us_email u)
      else Inl (OtherErr ''Unauthenticated: invalid credentials''))"
    using user_client_works [of enc v nu np au ap i, OF assms(1,2,3)] by (simp add: uc assms(4))
  have g: "BasicAuthClientInterceptor enc au ap (BasicAuthInterceptor enc nu np (\<lambda>md. Inr ())) None
      = (if enc (nu @ '':'' @ np) = enc (au @ '':'' @ ap) then Inr () else Inl (OtherErr ''Unauthenticated: invalid credentials''))"
    by (subst grpc_credentials_agree [OF assms(1,2)]) (simp add: eq_commute)
  show "mails_of enc api notif v (EmailQueued (email_json k i template)) = sent template"
    by (simp add: sent_def c email_handler_def sendTransactional_def uc r)
  show "mails_of enc api notif v (SyncSent i template) = sent template"
    using g
    by (simp add: sent_def c syncNotifierAdapter_SendTransactional_def GRPCClient_SendTransactional_def
        SendTransactional_def sendTransactional_def uc r)
qed

text \<open>The renter of a booking that was moved has an account, in every later state too.\<close>

lemma renter_found:
  assumes "transition s i new ty w = (Inr b, w')" and "world_inv w" and "replica w = None" and "booking_by_id i (reader w') = Some b"
    and "distinct (map us_id (t_users t))" and "set (t_users (primary w')) \<subseteq> set (t_users t)"
  obtains u where "u \<in> set (t_users (primary w'))" and "us_id u = bk_renter b" and "user_by_id (bk_renter b) t = Some u"
proof -
  have "reader w' = primary w'"
    using transition_cases [OF assms(1)] UpdateStatus_cases(1) [of i new w] assms(3) by (metis reader_def option.case(1) same_env_def)
  then have "b \<in> set (t_bookings (primary w'))" using assms(4) find_SomeD by (fastforce simp: booking_by_id_def)
  moreover have "world_inv w'" by (rule transition_inv [OF assms(1,2)])
  ultimately obtain u where u: "u \<in> set (t_users (primary w'))" "us_id u = bk_renter b"
    unfolding world_inv_def booking_inv_def db_of_def wf_tables_def rows_ok_def booking_ok_def fst_conv by force
  then have "user_by_id (bk_renter b) t = Some u" using user_found [OF assms(5), of u] assms(6) by auto
  with u show ?thesis by (rule that)
qed


definition disputed_world :: world where
  "disputed_world = world_of (sample_tables Active) None []"


subsection \<open>Thumbnails\<close>

lemma fl_nonneg:
  assumes "0 \<le> x"
  shows "0 \<le> fl x"
proof -
  have "x / 2 ^ 53 \<le> x" using assms by (simp add: divide_le_eq)
  then show ?thesis using fl_error [of x] assms by (simp only: abs_of_nonneg)
qed

text \<open>Two roundings: the scale and the product.\<close>

lemma scaled_side:
  assumes "0 < m" "0 < l" "0 \<le> a" "a \<le> l" "m < 2 ^ 40" "l < 2 ^ 40"
  defines "x \<equiv> (of_int a * of_int m / of_int l :: rat)"
  shows "\<bar>fl (fl (of_int a) * fl (fl (of_int m) / fl (of_int l))) - x\<bar> \<le> x / 2 ^ 51"
proof -
  have ints: "fl (of_int a) = of_int a" "fl (of_int m) = of_int m" "fl (of_int l) = of_int l"
    using assms(1-6) by (auto intro!: fl_int)
  define q where "q = (of_int m / of_int l :: rat)"
  have q: "0 \<le> q" using assms(1,2) by (simp add: q_def)
  define y where "y = of_int a * fl q"
  have "y - x = of_int a * (fl q - q)" by (simp add: y_def x_def q_def right_diff_distrib)
  then have "\<bar>y - x\<bar> = of_int a * \<bar>fl q - q\<bar>" using assms(3) by (simp add: abs_mult)
  moreover have "\<bar>fl q - q\<bar> \<le> q / 2 ^ 53" using fl_error [of q] by (simp only: abs_of_nonneg [OF q])
  then have "of_int a * \<bar>fl q - q\<bar> \<le> of_int a * (q / 2 ^ 53)" using assms(3) by (intro mult_left_mono) simp_all
  moreover have "of_int a * (q / 2 ^ 53) = x / 2 ^ 53" by (simp add: x_def q_def)
  ultimately have 1: "\<bar>y - x\<bar> \<le> x / 2 ^ 53" by simp
  have x: "0 \<le> x" using assms(1-3) by (simp add: x_def)
  have "x / 2 ^ 53 \<le> x" using x by (simp add: divide_le_eq)
  then have "\<bar>y\<bar> \<le> 2 * x" using 1 by linarith
  then have "\<bar>y\<bar> / 2 ^ 53 \<le> 2 * x / 2 ^ 53" by (rule divide_right_mono) simp
  then have "\<bar>fl y - x\<bar> \<le> x / 2 ^ 53 + 2 * x / 2 ^ 53" using 1 fl_error [of y] by linarith
  also have "\<dots> = 3 * (x / 2 ^ 53)" by simp
  also have "\<dots> \<le> 4 * (x / 2 ^ 53)" using x by (intro mult_right_mono) simp_all
  also have "\<dots> = x / 2 ^ 51" by simp
  finally show ?thesis by (simp add: ints y_def q_def)
qed


lemma floor_near:
  fixes x y :: rat
  assumes "\<bar>y - x\<bar> < 1"
  shows "\<bar>\<lfloor>y\<rfloor> - \<lfloor>x\<rfloor>\<bar> \<le> 1"
  using assms by linarith

lemma quotient_near_one:
  fixes m l :: int
  assumes "0 < m" "0 < l" "l < 2 ^ 40" "m < 2 ^ 40"
  shows "l < m \<Longrightarrow> 1 < fl (of_int m / of_int l)" and "m < l \<Longrightarrow> fl (of_int m / of_int l) < 1"
proof -
  define q where "q = (of_int m / of_int l :: rat)"
  have q: "0 < q" using assms(1,2) by (simp add: q_def)
  have e: "\<bar>fl q - q\<bar> \<le> q / 2 ^ 53" using fl_error [of q] q by (simp only: abs_of_pos)
  have l: "(of_int l :: rat) \<le> 2 ^ 40" using assms(3) by (simp flip: of_int_power add: less_imp_le)
  show "1 < fl (of_int m / of_int l)" if "l < m"
  proof -
    have "of_int l + 1 \<le> (of_int m :: rat)" using that by linarith
    then have "(of_int l + 1) / of_int l \<le> q" using assms(2) unfolding q_def by (intro divide_right_mono) simp_all
    then have "1 + 1 / of_int l \<le> q" using assms(2) by (simp add: add_divide_distrib)
    moreover have "1 / 2 ^ 40 \<le> 1 / (of_int l :: rat)" using l assms(2) by (intro divide_left_mono) simp_all
    ultimately have "1 + 1 / 2 ^ 40 \<le> q" by linarith
    moreover have "q - q / 2 ^ 53 = q * (1 - 1 / 2 ^ 53)" by (simp add: algebra_simps)
    ultimately have "(1 + 1 / 2 ^ 40) * (1 - 1 / 2 ^ 53) \<le> q - q / 2 ^ 53" by (simp only:) (intro mult_right_mono; simp)
    then have "1 < q - q / 2 ^ 53" by simp
    with e show ?thesis unfolding q_def by linarith
  qed
  show "fl (of_int m / of_int l) < 1" if "m < l"
  proof -
    have "of_int m + 1 \<le> (of_int l :: rat)" using that by linarith
    then have "q \<le> (of_int l - 1) / of_int l" using assms(2) unfolding q_def by (intro divide_right_mono) simp_all
    then have "q \<le> 1 - 1 / of_int l" using assms(2) by (simp add: diff_divide_distrib)
    moreover have "1 / 2 ^ 40 \<le> 1 / (of_int l :: rat)" using l assms(2) by (intro divide_left_mono) simp_all
    ultimately have "q \<le> 1 - 1 / 2 ^ 40" by linarith
    moreover have "q + q / 2 ^ 53 = q * (1 + 1 / 2 ^ 53)" by (simp add: algebra_simps)
    ultimately have "q + q / 2 ^ 53 \<le> (1 - 1 / 2 ^ 40) * (1 + 1 / 2 ^ 53)" by (simp only:) (intro mult_right_mono; simp)
    then have "q + q / 2 ^ 53 < 1" by simp
    with e show ?thesis unfolding q_def by linarith
  qed
qed


lemma thumbnail_side:
  assumes "0 < m" "0 < l" "0 \<le> a" "a \<le> l" "m < 2 ^ 40" "l < 2 ^ 40" "m < l"
  defines "d \<equiv> float_to_int (fl (fl (of_int a) * fl (fl (of_int m) / fl (of_int l))))"
  shows "0 \<le> d" and "d \<le> m" and "\<bar>d - a * m div l\<bar> \<le> 1" and "a * m < l \<Longrightarrow> d = 0"
proof -
  define x where "x = (of_int a * of_int m / of_int l :: rat)"
  define z where "z = fl (fl (of_int a) * fl (fl (of_int m) / fl (of_int l)))"
  have e: "\<bar>z - x\<bar> \<le> x / 2 ^ 51" using scaled_side [OF assms(1-6)] by (simp only: z_def x_def)
  have x: "0 \<le> x" using assms(1-3) by (simp add: x_def)
  have lm: "(0::rat) < of_int l" "(of_int m :: rat) \<le> 2 ^ 40" "(of_int l :: rat) \<le> 2 ^ 40"
    using assms(2,5,6) by (simp_all flip: of_int_power add: less_imp_le)
  have "x \<le> of_int l * of_int m / of_int l"
    unfolding x_def using assms(1-4) by (intro divide_right_mono mult_right_mono) simp_all
  then have xm: "x \<le> of_int m" using assms(2) by simp
  have "x / 2 ^ 51 \<le> x" using x by (simp add: divide_le_eq)
  then have z0: "0 \<le> z" using e by linarith
  then have d: "d = \<lfloor>z\<rfloor>" by (simp add: d_def z_def float_to_int_def)
  show "0 \<le> d" using z0 d by simp
  have "x / 2 ^ 51 \<le> 2 ^ 40 / 2 ^ 51" using xm lm by (intro divide_right_mono) simp_all
  then have small: "\<bar>z - x\<bar> < 1" using e by simp
  have "z < of_int m + 1" using small xm by linarith
  then show "d \<le> m" unfolding d by linarith
  have "x = of_int (a * m) / of_int l" by (simp add: x_def)
  then have "\<lfloor>x\<rfloor> = a * m div l" by (simp only: floor_divide_of_int_eq)
  then show "\<bar>d - a * m div l\<bar> \<le> 1" using floor_near [OF small] d by simp
  assume "a * m < l"
  then have "a * m + 1 \<le> l" by simp
  then have "(of_int (a * m + 1) :: rat) \<le> of_int l" by (simp only: of_int_le_iff)
  then have "of_int a * of_int m + 1 \<le> (of_int l :: rat)" by (simp only: of_int_add of_int_mult of_int_1)
  then have "x \<le> (of_int l - 1) / of_int l" unfolding x_def using assms(2) by (intro divide_right_mono) simp_all
  then have "x \<le> 1 - 1 / of_int l" using assms(2) by (simp add: diff_divide_distrib)
  moreover have "1 / 2 ^ 40 \<le> 1 / (of_int l :: rat)" using lm by (intro divide_left_mono) simp_all
  ultimately have x1: "x \<le> 1 - 1 / 2 ^ 40" by linarith
  then have "x / 2 ^ 51 \<le> 1 / 2 ^ 51" by (intro divide_right_mono) simp_all
  with e x1 have "z \<le> 1 - 1 / 2 ^ 40 + 1 / 2 ^ 51" by linarith
  then have "z < 1" by simp
  then show "d = 0" using z0 d by (simp add: floor_eq_iff)
qed

text \<open>C38 (bounds): a thumbnail never exceeds the requested bound (320 if none is given) nor the
  image; an image within the bound keeps its size, and otherwise each side is within one pixel of
  the exact proportion. A side much shorter than the other shrinks to nothing.\<close>

theorem thumbnail_fits:
  assumes "0 < w" and "0 < h" and "w < 2 ^ 40" and "h < 2 ^ 40" and "m < 2 ^ 40"
    and "M = max_dimension m" and "thumbnail_size M (w, h) = (dw, dh)"
  shows "(max w h \<le> M \<longrightarrow> dw = w \<and> dh = h) \<and> 0 \<le> dw \<and> 0 \<le> dh \<and> dw \<le> M \<and> dh \<le> M
    \<and> (M < max w h \<longrightarrow> \<bar>dw - w * M div max w h\<bar> \<le> 1 \<and> \<bar>dh - h * M div max w h\<bar> \<le> 1
         \<and> (h * M < w \<longrightarrow> dh = 0) \<and> (w * M < h \<longrightarrow> dw = 0))"
proof -
  have M: "0 < M" "M < 2 ^ 40" using assms(5,6) by (simp_all add: max_dimension_def)
  define l where "l = max w h"
  have l: "0 < l" "l < 2 ^ 40" "w \<le> l" "h \<le> l" "(if h < w then w else h) = l"
    using assms(1-4) by (simp_all add: l_def)
  have ints: "fl (of_int w) = of_int w" "fl (of_int h) = of_int h" "fl (of_int M) = of_int M" "fl (of_int l) = of_int l"
    using assms(1-4) M l by (auto intro!: fl_int)
  define sc where "sc = fl (fl (of_int M) / fl (of_int l))"
  have scale: "thumbnail_scale M (w, h) = (if 1 < sc then 1 else sc)"
    unfolding thumbnail_scale_def prod.case l(5) using l(1) by (simp add: sc_def Let_def)
  have size: "dw = float_to_int (fl (fl (of_int w) * thumbnail_scale M (w, h)))"
      "dh = float_to_int (fl (fl (of_int h) * thumbnail_scale M (w, h)))"
    using assms(7) by (simp_all add: thumbnail_size_def)
  show ?thesis
  proof (cases "M < l")
    case True
    then have "thumbnail_scale M (w, h) = sc"
      using quotient_near_one(2) [OF M(1) l(1,2) M(2)] scale ints by (simp add: sc_def)
    then have s: "dw = float_to_int (fl (fl (of_int w) * fl (fl (of_int M) / fl (of_int l))))"
        "dh = float_to_int (fl (fl (of_int h) * fl (fl (of_int M) / fl (of_int l))))"
      using size by (simp_all add: sc_def)
    note W = thumbnail_side [OF M(1) l(1) less_imp_le [OF assms(1)] l(3) M(2) l(2) True, folded s]
    note H = thumbnail_side [OF M(1) l(1) less_imp_le [OF assms(2)] l(4) M(2) l(2) True, folded s]
    show ?thesis using W H True unfolding l_def by auto
  next
    case False
    have "sc = 1 \<or> 1 < sc"
    proof (cases "M = l")
      case True
      then show ?thesis using M fl_int [of 1] by (simp add: sc_def ints)
    next
      case False
      then show ?thesis using quotient_near_one(1) [OF M(1) l(1,2) M(2)] \<open>\<not> M < l\<close> by (simp add: sc_def ints)
    qed
    then have "thumbnail_scale M (w, h) = 1" by (auto simp: scale)
    then have "dw = w" "dh = h" using size by (simp_all add: ints)
    then show ?thesis using assms(1,2) l(3,4) False unfolding l_def by linarith
  qed
qed

theorem thumbnail_fits_witness:
  "snd (thumbnail_size 320 (10000, 20)) = 0 \<and> thumbnail_size 320 (200, 100) = (200, 100)"
proof -
  have m: "320 = max_dimension 0" by (simp add: max_dimension_def)
  obtain a b where ab: "thumbnail_size 320 (10000, 20) = (a, b)" by fastforce
  obtain c d where cd: "thumbnail_size 320 (200, 100) = (c, d)" by fastforce
  show ?thesis
    using thumbnail_fits [OF _ _ _ _ _ m ab] thumbnail_fits [OF _ _ _ _ _ m cd] by (simp add: ab cd)
qed

end
