(* ===== verification/LimitSpec.thy ===== *)
theory LimitSpec
  imports Cache
begin

text \<open>What the rate limiter promises within one window, and what it costs that all limiters of
  the program count under one key.\<close>


definition sample_cache_world :: world where
  "sample_cache_world = \<lparr>primary = \<lparr>t_users = [], t_oauth = [], t_apikeys = [], t_categories = [], t_listings = [],
     t_bookings = [], t_blocks = [], t_reviews = []\<rparr>, replica = None, counters_of = (\<lambda>_. 1), faults = [], clock = 0,
     jitter = [], queries = 0, retries = 0, effects = [], redis = (\<lambda>_. None), email_key = id, row_rank = id\<rparr>"


end
