(* ===== verification/Safety.thy ===== *)
theory Safety
  imports App BookingSpec BookingLife UserSpec CatalogSpec
begin

text \<open>
  What no request may break, and that no handler of the API breaks it: handlers that leave the
  servers alone, handlers whose writes are safe, and the guards in front of them, which share one
  contract.
\<close>

subsection \<open>What no request may break\<close>

text \<open>
  Rows are only added, bookings keep their stay, renter and price, blocks and categories stay, and
  nobody becomes an administrator. With one server, statuses follow the lifecycle.
\<close>

definition grows :: "tables \<Rightarrow> tables \<Rightarrow> bool" where
  "grows t t' \<longleftrightarrow> set (t_users t) \<subseteq> set (t_users t') \<and> set (t_listings t) \<subseteq> set (t_listings t')
     \<and> set (t_blocks t) \<subseteq> set (t_blocks t') \<and> set (t_reviews t) \<subseteq> set (t_reviews t')
     \<and> (\<forall>b\<in>set (t_bookings t). \<exists>b'\<in>set (t_bookings t').
          stay_of_booking b' = stay_of_booking b \<and> bk_renter b' = bk_renter b \<and> bk_total b' = bk_total b)
     \<and> {u \<in> set (t_users t'). us_role u = RoleAdmin} \<subseteq> set (t_users t)
     \<and> t_categories t' = t_categories t"

lemma grows_refl [simp]: "grows t t"
  by (auto simp: grows_def)

lemma grows_trans: "grows a b \<Longrightarrow> grows b c \<Longrightarrow> grows a c"
  unfolding grows_def by (intro conjI) (blast | metis | fastforce)+

definition safe :: "world \<Rightarrow> world \<Rightarrow> bool" where
  "safe w w' \<longleftrightarrow> email_key w' = email_key w \<and> (replica w' = None \<longleftrightarrow> replica w = None)
     \<and> (world_inv w \<longrightarrow> world_inv w' \<and> grows (primary w) (primary w')
          \<and> (replica w = None \<longrightarrow> history_ok (primary w) (primary w')))"

lemma safe_refl [simp]: "safe w w"
  by (simp add: safe_def)

lemma safe_trans: "safe a b \<Longrightarrow> safe b c \<Longrightarrow> safe a c"
  using grows_trans [of "primary a" "primary b" "primary c"] history_trans [of "primary a" "primary b" "primary c"]
  by (simp add: safe_def)

definition untouched :: "world \<Rightarrow> world \<Rightarrow> bool" where
  "untouched w w' \<longleftrightarrow> db_of w' = db_of w \<and> replica w' = replica w \<and> email_key w' = email_key w \<and> effects w' = effects w"

lemma untouched_trans: "untouched a b \<Longrightarrow> untouched b c \<Longrightarrow> untouched a c"
  by (simp add: untouched_def)

text \<open>Reads leave the servers alone and send nothing.\<close>

definition still :: "world \<Rightarrow> world \<Rightarrow> bool" where
  "still w w' \<longleftrightarrow> same_servers w w' \<and> effects w' = effects w"

lemma still_refl [simp]: "still w w"
  by (simp add: still_def)

lemma still_trans: "still a b \<Longrightarrow> still b c \<Longrightarrow> still a c"
  unfolding still_def using same_servers_trans by auto

lemma still_servers: "still w w' \<Longrightarrow> same_servers w w'"
  by (simp add: still_def)

lemma untouched_still: "still w w' \<Longrightarrow> untouched w w'"
  by (simp add: untouched_def still_def same_servers_def)

lemma safe_untouched: "untouched w w' \<Longrightarrow> safe w w'"
  by (simp add: safe_def untouched_def world_inv_def db_of_def)

lemma safe_servers: "same_servers w w' \<Longrightarrow> safe w w'"
  by (simp add: safe_def same_servers_def world_inv_def db_of_def)

lemma safe_still: "still w w' \<Longrightarrow> safe w w'"
  by (blast intro: safe_servers still_servers)

subsection \<open>Reads and side effects\<close>

lemma servers_same: "same_env w w' \<Longrightarrow> same_db w w' \<Longrightarrow> still w w'"
  by (simp add: still_def same_servers_def same_env_def same_db_def db_of_def)

lemma map_err_run: "map_err f m = (r, w') \<Longrightarrow> \<exists>r0. m = (r0, w')"
  by (cases m; cases "fst m") auto

lemma select_servers: "sql_select q w = (r, w') \<Longrightarrow> still w w'"
  using sql_select_same servers_same by blast

lemma get_servers: "sql_get q w = (r, w') \<Longrightarrow> still w w'"
  using sql_get_same servers_same by blast

lemma reads_servers:
  "GetByID i w = (a1, w') \<Longrightarrow> still w w'"
  "listing_GetByID i w = (a2, w') \<Longrightarrow> still w w'"
  "user_GetByID i w = (a3, w') \<Longrightarrow> still w w'"
  "user_GetByEmail e w = (a4, w') \<Longrightarrow> still w w'"
  "ListForOwner i w = (a5, w') \<Longrightarrow> still w w'"
  "ListRecent n w = (a6, w') \<Longrightarrow> still w w'"
  "category_List cl w = (a7, w') \<Longrightarrow> still w w'"
  "category_GetByID i w = (a8, w') \<Longrightarrow> still w w'"
  "GetFeed_optimized avg m k w = (a9, w') \<Longrightarrow> still w w'"
  "GetByID_optimized avg i w = (b1, w') \<Longrightarrow> still w w'"
  "FindActiveByHash h w = (b2, w') \<Longrightarrow> still w w'"
  "fallback_Search cc avg q m w = (b3, w') \<Longrightarrow> still w w'"
  unfolding GetByID_def listing_GetByID_def user_GetByID_def user_GetByEmail_def user_get_def ListForOwner_def
    ListRecent_def category_List_def category_GetByID_def GetFeed_optimized_def GetByID_optimized_def
    FindActiveByHash_def fallback_Search_def Let_def
  by (blast dest: map_err_run select_servers get_servers)+

lemma io_servers: "io w = (f, w') \<Longrightarrow> still w w'"
  by (drule io_same) (simp add: still_def same_servers_def db_of_def)

lemma cache_servers:
  "cache_get k w = (r, w') \<Longrightarrow> still w w'"
  "still w (cache_set ttl k b w)"
  "same_servers w (emit x w)"
  "still w (InvalidateDetail i w)"
  using cache_get_same servers_same
  by (blast, auto simp: cache_set_def redis_write_def still_def same_servers_def db_of_def emit_def r_put_def
      split: prod.splits fault.splits dest: io_same)


subsection \<open>Writes\<close>

text \<open>A statement that adds rows beside the bookings and makes nobody an administrator.\<close>

definition harmless :: "(string \<Rightarrow> string) \<Rightarrow> 'a dml \<Rightarrow> bool" where
  "harmless ck d \<longleftrightarrow> keeps_tables ck d \<and> counts_up d \<and> (\<forall>now t ai r t' ai'. d now t ai = (r, t', ai') \<longrightarrow>
     t_bookings t' = t_bookings t \<and> t_blocks t' = t_blocks t \<and> grows t t')"

lemma harmless_inserts [inv_intros]:
  "us_role u \<noteq> RoleAdmin \<Longrightarrow> harmless ck (insert_user ck u)"
  "harmless ck (insert_listing l)" "harmless ck (insert_review v)" "harmless ck (insert_oauth i)"
  unfolding harmless_def by (intro conjI inv_intros allI impI; (auto simp: dml_defs Let_def grows_def split: if_splits; fail))+

definition beside :: "(string \<Rightarrow> string) \<Rightarrow> dbstate \<Rightarrow> dbstate \<Rightarrow> bool" where
  "beside ck s s' \<longleftrightarrow> t_bookings (fst s') = t_bookings (fst s) \<and> t_blocks (fst s') = t_blocks (fst s) \<and> grows (fst s) (fst s')
     \<and> (wf_tables ck (fst s) \<and> fresh_ids (snd s) (fst s) \<longrightarrow> wf_tables ck (fst s') \<and> fresh_ids (snd s') (fst s'))"

lemma beside_trans: "beside ck a b \<Longrightarrow> beside ck b c \<Longrightarrow> beside ck a c"
  unfolding beside_def using grows_trans by metis

lemma harmless_step: "harmless ck d \<Longrightarrow> d now t ai = (r, t', ai') \<Longrightarrow> beside ck (t, ai) (t', ai')"
  unfolding beside_def harmless_def fst_conv snd_conv using keeps_tablesD [of ck d now t ai r t' ai'] by blast

lemma beside_bookings:
  assumes "world_inv w" and "email_key w' = email_key w"
    and "wf_tables (email_key w) (primary w')" and "fresh_ids (counters_of w') (primary w')"
    and "t_bookings (primary w') = t_bookings (primary w)" and "t_blocks (primary w') = t_blocks (primary w)"
  shows "world_inv w' \<and> history_ok (primary w) (primary w')"
  using assms evolves.stay unfolding world_inv_def booking_inv_def db_of_def disjoint_blocks_def paired_def history_ok_def
  by (simp only: fst_conv snd_conv) blast

lemma exec_safe:
  assumes "harmless (email_key w) d" and "sql_exec d w = (r, w')"
  shows "safe w w'"
  using assms(2)
proof (cases rule: sql_exec_cases)
  case (unchanged e)
  then show ?thesis by (blast intro: safe_still servers_same)
next
  case (ran r0 t' ai')
  have g: "t_bookings t' = t_bookings (primary w)" "t_blocks t' = t_blocks (primary w)" "grows (primary w) t'"
    using assms(1) ran(1) unfolding harmless_def by blast+
  have "wf_tables (email_key w) t' \<and> fresh_ids ai' t'" if "world_inv w"
    using keeps_tablesD [of "email_key w" d "clock w" "primary w" "counters_of w" r0 t' ai'] ran(1) assms(1) that
    by (simp add: harmless_def world_inv_def booking_inv_def db_of_def)
  then have "world_inv w' \<and> history_ok (primary w) (primary w')" if "world_inv w"
    using beside_bookings [OF that, of w'] that g ran(2-4) by (simp add: same_env_def)
  with g(3) ran(2,4) show ?thesis by (simp add: safe_def same_env_def)
qed

lemma writes_safe:
  "listing_Create l w = (r1, w') \<Longrightarrow> safe w w'"
  "review_repo_Create v w = (r2, w') \<Longrightarrow> safe w w'"
  "us_role u \<noteq> RoleAdmin \<Longrightarrow> user_Create u w = (r3, w') \<Longrightarrow> safe w w'"
  unfolding listing_Create_def review_repo_Create_def user_Create_def
  by (blast dest: map_err_run intro: exec_safe harmless_inserts)+


context tx_body
begin

lemma transaction_step:
  assumes "WithinTransaction fn w = (r, w')"
  shows "same_env w w'" and "primary w' = primary w \<and> counters_of w \<le> counters_of w'
    \<or> (\<exists>x ai. counters_of w \<le> ai \<and> R x (primary w, ai) (primary w', counters_of w'))"
  using transaction_frame [OF assms] transaction_ok [of w _ w'] transaction_err [of w _ w'] assms
  unfolding committed_def unchanged_def db_of_def by (simp, cases r) blast+

end

lemma counters_grow_safe:
  assumes "email_key w' = email_key w" and "replica w' = replica w" and "primary w' = primary w"
    and "counters_of w \<le> counters_of w'"
  shows "safe w w'"
  using assms booking_inv_counters by (auto simp: safe_def world_inv_def db_of_def)

lemma oauth_safe:
  assumes "WithinTransaction (UpsertOAuthIdentity (email_key w) p sub e n) w = (r, w')"
  shows "safe w w'"
proof -
  have env: "email_key w' = email_key w" "replica w' = replica w"
    using oauth_tx.transaction_step(1) [OF assms] by (simp_all add: same_env_def)
  from oauth_tx.transaction_step(2) [OF assms] show ?thesis
  proof (elim disjE exE conjE)
    assume "primary w' = primary w" "counters_of w \<le> counters_of w'"
    then show ?thesis by (intro counters_grow_safe env)
  next
    fix uid ai
    assume ai: "counters_of w \<le> ai"
      and st: "oauth_step (email_key w) p sub e n uid (primary w, ai) (primary w', counters_of w')"
    have h: "harmless (email_key w) (insert_user (email_key w) (oauth_user e n))"
        "harmless (email_key w) (insert_oauth i)" for i
      by (auto intro!: harmless_inserts simp: oauth_user_def RoleRenter_def RoleAdmin_def)
    have "beside (email_key w) (primary w, ai) (primary w', counters_of w')"
      using st unfolding oauth_step_def fst_conv snd_conv
    proof (elim disjE conjE exE)
      assume "(primary w', counters_of w') = (primary w, ai)"
      then show ?thesis by (simp add: beside_def)
    next
      fix n1 n2 t1 ai1
      assume "insert_user (email_key w) (oauth_user e n) n1 (primary w) ai = (Inr uid, t1, ai1)"
        and "insert_oauth \<lparr>oi_user = uid, oi_provider = p, oi_subject = sub\<rparr> n2 t1 ai1 = (Inr (), primary w', counters_of w')"
      then show ?thesis using harmless_step [OF h(1)] harmless_step [OF h(2)] by (blast intro: beside_trans)
    qed
    then show ?thesis
      using env ai fresh_mono [of "counters_of w" "primary w" ai] beside_bookings [of w w']
      by (auto simp: safe_def beside_def world_inv_def booking_inv_def db_of_def)
  qed
qed

lemma create_step_history: "create_step inp price i (t, ai) (t', ai') \<Longrightarrow> grows t t' \<and> history_ok t t'"
  using evolves.stay by (elim create_step_rows) (auto simp: grows_def history_ok_def)

lemma CreateBooking_safe:
  assumes "CreateBooking s l r st e w = (res, w')" and "st mod day_ns = 0" and "e mod day_ns = 0"
  shows "safe w w'"
proof -
  define inp where "inp = \<lparr>in_listing = l, in_renter = r, in_start = st, in_end = e\<rparr>"
  obtain w1 where a: "CreateAtomic inp w = (res, w1)" and s: "same_servers w1 w'"
    using CreateBooking_atomic [OF assms(1)] unfolding inp_def by blast
  have "aligned inp" using assms(2,3) by (simp add: inp_def aligned_def)
  moreover have "email_key w1 = email_key w" "replica w1 = replica w"
    using CreateAtomic_cases(1) [OF a] by (simp_all add: same_env_def)
  moreover have "grows (primary w) (primary w1) \<and> history_ok (primary w) (primary w1)"
    using CreateAtomic_cases(2) [OF a] create_step_history by (auto simp: booked_def db_of_def)
  ultimately have "safe w w1" using CreateAtomic_inv [OF _ _ a] by (simp add: safe_def)
  then show ?thesis using safe_servers [OF s] safe_trans by blast
qed

lemma transition_safe:
  assumes "transition s i new ty w = (res, w')"
  shows "safe w w'"
proof -
  obtain r1 w1 where u: "UpdateStatus i new w = (r1, w1)" and p: "db_of w' = db_of w1" "replica w' = replica w1"
      "email_key w' = email_key w1"
    using transition_cases [OF assms] by metis
  have env: "email_key w' = email_key w" "replica w' = replica w"
    using UpdateStatus_cases(1) [OF u] p by (simp_all add: same_env_def)
  have "primary w' = primary w \<or> primary w' = (primary w)\<lparr>t_bookings := map (update_row i new (clock w)) (t_bookings (primary w))\<rparr>"
    using UpdateStatus_cases(2,3) [OF u] p(1) by (auto simp: db_of_def)
  then have "grows (primary w) (primary w')"
    by (elim disjE) (auto simp: grows_def stay_of_booking_def)
  moreover have "history_ok (primary w) (primary w')" if "world_inv w" "replica w = None"
    using status_step_history [OF transition_step [OF assms]] that
    by (simp add: in_sync_def reader_def world_inv_def booking_inv_def db_of_def wf_tables_def keys_ok_def)
  ultimately show ?thesis using env transition_inv [OF assms] by (simp add: safe_def)
qed


subsection \<open>Guards\<close>

definition quiet :: "handler \<Rightarrow> bool" where
  "quiet h \<longleftrightarrow> (\<forall>r w resp w'. h r w = (resp, w') \<longrightarrow> untouched w w')"

definition safe_handler :: "handler \<Rightarrow> bool" where
  "safe_handler h \<longleftrightarrow> (\<forall>r w resp w'. h r w = (resp, w') \<longrightarrow> safe w w')"

lemma quiet_safe: "quiet h \<Longrightarrow> safe_handler h"
  unfolding quiet_def safe_handler_def using safe_untouched by blast

text \<open>A guard answers by itself or hands the request on, and leaves the servers alone.\<close>

locale guard =
  fixes g :: "handler \<Rightarrow> handler"
  assumes hands_on: "\<exists>r1 w1. still w w1 \<and> (snd (g h r w) = snd (h r1 w1) \<or> snd (g h r w) = w1)"
begin

lemma guard_quiet: "quiet h \<Longrightarrow> quiet (g h)"
  unfolding quiet_def using hands_on untouched_still untouched_trans by (metis prod.collapse snd_conv)

lemma guard_safe: "safe_handler h \<Longrightarrow> safe_handler (g h)"
  unfolding safe_handler_def using hands_on safe_still safe_trans by (metis prod.collapse snd_conv)

end

lemma Allow_servers: "Allow k mx win w = (a, w') \<Longrightarrow> still w w'"
  by (auto simp: Allow_def Let_def redis_incr_def redis_write_def r_put_def r_expire_def still_def same_servers_def db_of_def
      split: if_splits prod.splits fault.splits sum.splits option.splits rval.splits dest!: io_same)

interpretation limiter: guard "Middleware mx win ip" for mx win ip
proof
  fix w h and r :: http_req
  obtain a w1 where a: "Allow (ip r) mx win w = (a, w1)" by fastforce
  then show "\<exists>r1 w1. still w w1 \<and> (snd (Middleware mx win ip h r w) = snd (h r1 w1) \<or> snd (Middleware mx win ip h r w) = w1)"
    using Allow_servers [OF a] by (cases a) (auto simp: Middleware_def split: option.splits)
qed

interpretation jwt: guard "RequireJWT L j" for L j
proof
  fix w h and r :: http_req
  show "\<exists>r1 w1. still w w1 \<and> (snd (RequireJWT L j h r w) = snd (h r1 w1) \<or> snd (RequireJWT L j h r w) = w1)"
    by (intro exI [of _ w] exI [of _ "case jwt_Verify L j (clock w) (the (cut_prefix ''Bearer '' (field (rq_headers r) ''Authorization''))) of
        Inl e \<Rightarrow> r | Inr cl \<Rightarrow> r\<lparr>rq_claims := Some \<lparr>cl_user = jc_user cl, cl_role = jc_role cl\<rparr>\<rparr>"])
      (auto simp: RequireJWT_def split: option.splits sum.splits)
qed

interpretation csrf: guard RequireCSRF
  by unfold_locales (auto simp: RequireCSRF_def split: option.splits if_splits intro!: exI)

interpretation basic: guard "RequireBasicAuth dec u p" for dec u p
  by unfold_locales (auto simp: RequireBasicAuth_def Let_def split: option.splits prod.splits intro!: exI)

interpretation apikey: guard "\<lambda>h. RequireAPIKey sha pepper (\<lambda>owner. h)" for sha pepper
proof
  fix w h and r :: http_req
  obtain a w1 where a: "FindActiveByHash (apikey_hash sha pepper (the (cut_prefix ''ApiKey '' (field (rq_headers r) ''Authorization'')))) w = (a, w1)"
    by fastforce
  show "\<exists>r1 w1. still w w1 \<and> (snd (RequireAPIKey sha pepper (\<lambda>owner. h) r w) = snd (h r1 w1)
      \<or> snd (RequireAPIKey sha pepper (\<lambda>owner. h) r w) = w1)"
  proof (cases "cut_prefix ''ApiKey '' (field (rq_headers r) ''Authorization'') \<in> {None, Some ''''}")
    case True
    then show ?thesis by (intro exI [of _ r] exI [of _ w]) (auto simp: RequireAPIKey_def)
  next
    case False
    then show ?thesis using a reads_servers(11) [OF a]
      by (intro exI [of _ r] exI [of _ w1]) (cases a; auto simp: RequireAPIKey_def)
  qed
qed

interpretation session: guard "\<lambda>h. RequireSession hmac m (\<lambda>user. h)" for hmac m
  by unfold_locales (auto simp: RequireSession_def split: sum.splits intro!: exI)

interpretation headers: guard CSP
  proof
  fix w h and r :: http_req
  show "\<exists>r1 w1. still w w1 \<and> (snd (CSP h r w) = snd (h r1 w1) \<or> snd (CSP h r w) = w1)"
    by (intro exI [of _ r] exI [of _ w]) (simp add: CSP_def split: prod.splits)
qed


subsection \<open>The handlers\<close>

lemma handler_quiet:
  assumes "\<And>r w resp w'. h r w = (resp, w') \<Longrightarrow> still w w'"
  shows "quiet h"
  using assms untouched_still by (simp add: quiet_def)

lemma notifyOwner_servers: "same_servers w (notifyOwner h b w)"
  using still_servers [OF reads_servers(2) [of "bk_listing b" w]] same_servers_trans cache_servers(3)
  by (auto simp: notifyOwner_def split: prod.splits sum.splits)

lemma quiet_handlers:
  "quiet health_Handler" "quiet not_found" "quiet (InsuranceWebhook body owner)" "quiet ListMine" "quiet Get"
  "quiet (\<lambda>r. Login_handler us cred)" "quiet (oauth_Start oh rnd)" "quiet (category_list_handler cl)"
  "quiet (admin_LoginForm ah rnd)" "quiet (admin_Login ah rnd)" "quiet (admin_Logout ah)" "quiet (admin_Dashboard ah rnd)"
  by (rule handler_quiet,
    auto simp: health_Handler_def not_found_def InsuranceWebhook_def ListMine_def Get_def Login_handler_def Login_def
      oauth_Start_def category_list_handler_def admin_LoginForm_def admin_Login_def admin_Logout_def admin_Dashboard_def Let_def
      dest: reads_servers split: option.splits prod.splits sum.splits if_splits; fail)+

lemma cached_servers:
  "(case c of None \<Rightarrow> (None, w) | Some ttl \<Rightarrow> GetFeed m n w) = (a, w') \<Longrightarrow> still w w'"
  "(case c of None \<Rightarrow> (None, w) | Some ttl \<Rightarrow> GetDetail i w) = (b, w') \<Longrightarrow> still w w'"
  "still w (case c of None \<Rightarrow> w | Some ttl \<Rightarrow> SetFeed ttl m n body w)"
  "still w (case c of None \<Rightarrow> w | Some ttl \<Rightarrow> SetDetail ttl i body w)"
  by (auto simp: GetFeed_def GetDetail_def SetFeed_def SetDetail_def cache_servers(2) split: option.splits dest: cache_servers(1))

lemma Feed_quiet: "quiet (Feed h)"
proof (rule handler_quiet)
  fix r w resp w' assume f: "Feed h r w = (resp, w')"
  obtain c w1 where c: "(case lh_cache h of None \<Rightarrow> (None, w) | Some ttl \<Rightarrow> GetFeed (feed_limit r) (feed_offset r) w) = (c, w1)"
    by fastforce
  obtain res w2 where q: "GetFeed_optimized (lh_avg h) (feed_limit r) (feed_offset r) w1 = (res, w2)" by fastforce
  have "still w w1" "still w1 w2" using cached_servers(1) [OF c] reads_servers(9) [OF q] .
  then show "still w w'"
    using f c q by (cases c; cases res)
      (auto simp: Feed_def Let_def intro: still_trans [OF still_trans [OF _ _] cached_servers(3)] still_trans)
qed

lemma listing_GetDetail_quiet: "quiet (listing_GetDetail h)"
proof (rule handler_quiet)
  fix r w resp w' assume f: "listing_GetDetail h r w = (resp, w')"
  show "still w w'"
  proof (cases "parse_int64 (rq_id r)")
    case (Inr i)
    obtain c w1 where c: "(case lh_cache h of None \<Rightarrow> (None, w) | Some ttl \<Rightarrow> GetDetail i w) = (c, w1)" by fastforce
    obtain res w2 where q: "GetByID_optimized (lh_avg h) i w1 = (res, w2)" by fastforce
    have "still w w1" "still w1 w2" using cached_servers(2) [OF c] reads_servers(10) [OF q] .
    then show ?thesis
      using f c q Inr by (cases c; cases res)
        (auto simp: listing_GetDetail_def Let_def intro: still_trans [OF still_trans [OF _ _] cached_servers(4)] still_trans)
  qed (use f in \<open>simp add: listing_GetDetail_def\<close>)
qed


lemma handler_safe:
  assumes "\<And>r w resp w'. h r w = (resp, w') \<Longrightarrow> safe w w'"
  shows "safe_handler h"
  using assms by (simp add: safe_handler_def)

lemma Create_safe: "safe_handler (\<lambda>r w. Create h r body w)"
proof (rule handler_safe)
  fix r w resp w' assume f: "Create h r body w = (resp, w')"
  show "safe w w'"
  proof (cases "\<exists>cl req st fi. rq_claims r = Some cl \<and> body = Some req \<and> parse_date (cr_start req) = Some st \<and> parse_date (cr_end req) = Some fi")
    case True
    then obtain cl req st fi where c: "rq_claims r = Some cl" "body = Some req" "parse_date (cr_start req) = Some st"
      "parse_date (cr_end req) = Some fi" by blast
    obtain res w1 where b: "CreateBooking (bh_service h) (cr_listing req) (cl_user cl) st fi w = (res, w1)" by fastforce
    have "safe w w1" by (rule CreateBooking_safe [OF b]) (use parse_date_format [OF c(3)] parse_date_format [OF c(4)] in simp_all)
    then show ?thesis using f c b safe_servers [OF notifyOwner_servers] safe_trans
      by (cases res) (auto simp: Create_def split: if_splits)
  next
    case False
    then show ?thesis using f by (auto simp: Create_def split: option.splits)
  qed
qed

lemma transitionHandler_safe:
  assumes "\<And>i w res w'. step i w = (res, w') \<Longrightarrow> safe w w'"
  shows "safe_handler (transitionHandler step h)"
proof (rule handler_safe)
  fix r w resp w' assume f: "transitionHandler step h r w = (resp, w')"
  show "safe w w'"
  proof (cases "parse_int64 (rq_id r)")
    case (Inr i)
    obtain res w1 where b: "step i w = (res, w1)" by fastforce
    then show ?thesis using f Inr assms [OF b] safe_servers [OF notifyOwner_servers] safe_trans
      by (cases res) (auto simp: transitionHandler_def split: if_splits)
  qed (use f in \<open>simp add: transitionHandler_def\<close>)
qed

lemma status_safe:
  "safe_handler (Approve_handler h)" "safe_handler (Reject_handler h)" "safe_handler (Cancel_handler h)"
  "safe_handler (Activate_handler h)" "safe_handler (Complete_handler h)"
  unfolding transition_handlers transition_ops by (rule transitionHandler_safe, erule transition_safe)+

lemma listing_service_cases:
  assumes "listing_service_Create has inp w = (res, w')"
  obtains (refused) "w' = w"
  | (stopped) r w1 where "listing_Create (new_listing inp) w = (r, w1)" "still w1 w'"
  | (created) i w1 l w2 rc w3 where "listing_Create (new_listing inp) w = (Inr i, w1)" "listing_GetByID i w1 = (Inr l, w2)"
      "category_GetByID (ls_category l) w2 = (rc, w3)"
      "w' = snd (listing_publishEvent has (created_event l (case rc of Inl e \<Rightarrow> '''' | Inr c \<Rightarrow> ca_name c)) w3)"
proof (cases "li_title inp = '''' \<or> li_price inp \<le> 0")
  case False
  then have "bind_res (listing_Create (new_listing inp) w) (\<lambda>i w1.
           bind_res (listing_GetByID i w1) (\<lambda>created w2.
             case category_GetByID (ls_category created) w2 of (rc, w3) \<Rightarrow>
               let categoryName = (case rc of Inl e \<Rightarrow> '''' | Inr c \<Rightarrow> ca_name c)
               in (Inr created, snd (listing_publishEvent has (created_event created categoryName) w3)))) = (res, w')"
    using assms by (simp add: listing_service_Create_def)
  then show thesis
  proof (cases rule: bind_res_cases)
    case (err e)
    then show thesis using stopped by simp
  next
    case (val i w1)
    note v = val(1)
    from val(2) show thesis
    proof (cases rule: bind_res_cases)
      case (err e)
      then show thesis using stopped [OF v] reads_servers(2) by blast
    next
      case (val l w2)
      then show thesis using created [OF v val(1)] by (auto simp: Let_def split: prod.splits)
    qed
  qed
qed (use assms refused in \<open>auto simp: listing_service_Create_def\<close>)

lemma listing_publish_servers: "same_servers w (snd (listing_publishEvent has e w))"
  by (simp add: listing_publishEvent_def)

lemma listing_service_safe:
  assumes "listing_service_Create has inp w = (res, w')"
  shows "safe w w'"
  using assms
proof (cases rule: listing_service_cases)
  case (stopped r w1)
  then show ?thesis using writes_safe(1) safe_still safe_trans by blast
next
  case (created i w1 l w2 rc w3)
  then have "same_servers w1 w'"
    using listing_publish_servers same_servers_trans still_servers [OF reads_servers(2)] still_servers [OF reads_servers(8)] by metis
  then show ?thesis using writes_safe(1) [OF created(1)] safe_servers safe_trans by blast
qed simp

lemma listing_create_safe: "safe_handler (listing_create_handler h body)"
  by (rule handler_safe)
    (auto simp: listing_create_handler_def dest: listing_service_safe split: option.splits prod.splits sum.splits if_splits)

lemma review_safe: "safe_handler (review_handler body)"
  by (rule handler_safe)
    (auto simp: review_handler_def review_Create_def Let_def dest!: writes_safe(2)
      elim!: bind_res_cases split: option.splits prod.splits sum.splits if_splits)

lemma Register_safe: "safe_handler (\<lambda>r. Register_handler s body)"
proof (rule handler_safe)
  fix r w resp w' assume f: "Register_handler s body w = (resp, w')"
  have R: "safe w w1" if "Register s inp w = (res, w1)" "ri_role inp \<in> {RoleOwner, RoleRenter}" for inp res w1
  proof (cases "hs_hash s (hs_salt s) (ri_password inp)")
    case (Inr hash)
    define u where "u = \<lparr>us_id = 0, us_email = ri_email inp, us_hash = hash, us_algo = PasswordAlgoBcrypt,
        us_name = ri_name inp, us_role = ri_role inp, us_created = 0, us_updated = 0\<rparr>"
    obtain ru w2 where c: "user_Create u w = (ru, w2)" by fastforce
    have ne: "ri_role inp \<noteq> ''''" using that(2) by (auto simp: RoleOwner_def RoleRenter_def)
    then have "w1 = w2" using that(1) Inr c
      by (cases ru) (auto simp: Register_def Let_def u_def split: sum.splits)
    moreover have "us_role u \<noteq> RoleAdmin" using that(2) by (auto simp: u_def RoleOwner_def RoleRenter_def RoleAdmin_def)
    ultimately show ?thesis using writes_safe(3) c by blast
  qed (use that in \<open>simp add: Register_def Let_def\<close>)
  show "safe w w'"
  proof (cases "\<exists>req. body = Some req \<and> \<not> (ri_email req = '''' \<or> length (ri_password req) < 8 \<or> ri_name req = '''')")
    case True
    then obtain req where b: "body = Some req" and ok: "\<not> (ri_email req = '''' \<or> length (ri_password req) < 8 \<or> ri_name req = '''')"
      by blast
    obtain res w1 where reg: "Register s (req\<lparr>ri_role := if ri_role req \<noteq> RoleOwner then RoleRenter else ri_role req\<rparr>) w = (res, w1)"
      by fastforce
    have "w' = w1" using f b ok reg by (cases res) (auto simp: Register_handler_def Let_def split: if_splits)
    then show ?thesis using R [OF reg] by (auto split: if_splits)
  qed (use f in \<open>auto simp: Register_handler_def split: option.splits if_splits\<close>)
qed

lemma oauth_Callback_safe: "safe_handler (oauth_Callback h)"
proof (rule handler_safe)
  fix r w resp w' assume f: "oauth_Callback h r w = (resp, w')"
  show "safe w w'"
    using f unfolding oauth_Callback_def
    by (auto split: option.splits sum.splits prod.splits if_splits
        dest: oauth_safe reads_servers(3) intro: safe_trans safe_still)
qed

lemma Dispute_safe: "safe_handler (Dispute_handler s reports body)"
proof (rule handler_safe)
  fix r w resp w' assume f: "Dispute_handler s reports body r w = (resp, w')"
  have D: "Dispute s i w = (res, w1) \<Longrightarrow> safe w w1" for i res w1
    unfolding transition_ops by (rule transition_safe)
  show "safe w w'"
    using f unfolding Dispute_handler_def
    by (auto split: option.splits sum.splits prod.splits if_splits dest: D)
qed


lemma world_updates [simp]:
  "untouched w (w\<lparr>clock := a\<rparr>)" "untouched w (w\<lparr>faults := b\<rparr>)" "untouched w (w\<lparr>jitter := c\<rparr>)" "untouched w (w\<lparr>redis := d\<rparr>)"
  by (simp_all add: untouched_def db_of_def)

lemma poll_loop_safe:
  assumes "poll_loop env since i c e n w = (resp, t, m, w')" and "\<And>k v. safe v (pe_others env k v)"
  shows "safe w w'"
  using assms
proof (induction env since i c e n w arbitrary: resp t m w' rule: poll_loop.induct)
  case (1 env since i c e n w)
  let ?e1 = "e + pe_delay env n"
  let ?w0 = "pass (pe_delay env n) (pe_others env n w)"
  have P: "safe v (pass d v)" for v d by (simp add: pass_def safe_untouched)
  have w0: "safe w ?w0" using 1(3) P safe_trans by blast
  obtain rb w1 where g: "GetByID i ?w0 = (rb, w1)" by fastforce
  have w1: "safe w w1" using w0 safe_still [OF reads_servers(1) [OF g]] safe_trans by blast
  obtain t1 c1 where nt: "next_tick c ?e1 = (t1, c1)" by fastforce
  show ?case
  proof (cases "poll_timeout \<le> ?e1 \<or> \<not> is_ok rb \<or> (\<exists>b. rb = Inr b \<and> since < unix_milli (bk_updated b))")
    case True
    then show ?thesis using 1(2) g w0 w1
      by (cases rb) (auto simp: poll_loop.simps [of env since i c e n w] Let_def is_ok_iff split: if_splits)
  next
    case False
    then obtain b where b: "\<not> poll_timeout \<le> ?e1" "rb = Inr b" "\<not> since < unix_milli (bk_updated b)"
      by (auto simp: is_ok_iff)
    show ?thesis
    proof (cases "t1 < poll_timeout \<or> t1 = poll_timeout \<and> pe_tick_wins env")
      case True
      then have "poll_loop env since i c1 t1 (Suc n) (pass (t1 - ?e1) w1) = (resp, t, m, w')"
        using 1(2) g b nt by (simp add: poll_loop.simps [of env since i c e n w] Let_def)
      moreover have "safe (pass (t1 - ?e1) w1) w'"
        by (rule 1(1) [OF refl refl b(1) g [symmetric] _ b(3) _ _ _ 1(3)]) (use b nt True calculation in auto)
      ultimately show ?thesis using w1 P safe_trans by blast
    next
      case False
      then have "w' = pass (poll_timeout - ?e1) w1"
        using 1(2) g b nt by (auto simp: poll_loop.simps [of env since i c e n w] Let_def split: if_splits)
      then show ?thesis using w1 P safe_trans by blast
    qed
  qed
qed

lemma poll_safe:
  assumes "\<And>k v. safe v (pe_others env k v)"
  shows "safe_handler (poll_handler env)"
  by (rule handler_safe)
    (auto simp: poll_handler_def Poll_def Let_def split: sum.splits prod.splits dest!: poll_loop_safe [OF _ assms])

text \<open>The search call leaves this program's database and brokers alone, however long it takes.\<close>

definition remote_quiet :: "search_service \<Rightarrow> bool" where
  "remote_quiet s \<longleftrightarrow> (case ss_rpc s of None \<Rightarrow> True
     | Some rpc \<Rightarrow> (\<forall>q n w res w'. ss_execute s (rpc q n) w = (res, w') \<longrightarrow> untouched w w'))"

lemma search_quiet:
  assumes "remote_quiet s"
  shows "quiet (search_handler cc avg s)"
  unfolding quiet_def
proof (intro allI impI)
  fix r w resp w' assume f: "search_handler cc avg s r w = (resp, w')"
  obtain remote w1 where m: "(case ss_rpc s of None \<Rightarrow> (None, w)
            | Some rpc \<Rightarrow> (case ss_execute s (rpc (field (rq_query r) ''q'') (client_limit (feed_limit r))) w of
                (Inl e, w1) \<Rightarrow> (None, w1) | (Inr rs, w1) \<Rightarrow> (Some rs, w1))) = (remote, w1)"
    by fastforce
  have w1: "untouched w w1"
    using m assms by (auto simp: remote_quiet_def untouched_def split: option.splits prod.splits sum.splits)
  obtain res w2 where q: "fallback_Search cc avg (field (rq_query r) ''q'') (feed_limit r) w1 = (res, w2)" by fastforce
  have "untouched w w2" using w1 untouched_still [OF reads_servers(12) [OF q]] untouched_trans by blast
  then show "untouched w w'"
    using f m q w1 by (cases remote; cases res) (auto simp: search_handler_def service_Search_def Let_def)
qed

end
