(* ===== verification/System.thy ===== *)
theory System
  imports Safety
begin

text \<open>
  The whole API as one state machine: requests to the router, the passing of time, failures, the
  replica and the cache, and what every reachable state of it keeps.
\<close>

subsection \<open>The router\<close>

text \<open>The guards of \<open>NewRouter\<close>, with the limiters \<open>main\<close> builds over Redis.\<close>

lemma webhook_owner: "InsuranceWebhook body = (\<lambda>owner. InsuranceWebhook body '''')"
  by (intro ext) (simp add: InsuranceWebhook_def)

lemma apikey_quiet:
  "quiet (RequireAPIKey sha pepper (\<lambda>owner. Feed h))" "quiet (RequireAPIKey sha pepper (InsuranceWebhook body))"
  by (rule apikey.guard_quiet [OF Feed_quiet], subst webhook_owner, rule apikey.guard_quiet [OF quiet_handlers(3)])

lemma open_route_quiet:
  assumes "remote_quiet (ap_search a)" and "\<And>b. rt \<noteq> PostRegister b" and "rt \<noteq> OAuthCallback"
  shows "quiet (open_route (with_redis_limits ip a) rt)"
  using assms
  by (cases rt) (auto simp: with_redis_limits_def quiet_handlers Feed_quiet listing_GetDetail_quiet search_quiet apikey_quiet
      intro!: limiter.guard_quiet session.guard_quiet csrf.guard_quiet basic.guard_quiet
      split: option.splits)

definition bearer_claims :: "app \<Rightarrow> http_req \<Rightarrow> time \<Rightarrow> jwt_claims option" where
  "bearer_claims a r now = (case cut_prefix ''Bearer '' (field (rq_headers r) ''Authorization'') of
     None \<Rightarrow> None | Some token \<Rightarrow> if token = '''' then None
       else (case jwt_Verify (ap_jwt a) (ap_issuer a) now token of Inl e \<Rightarrow> None | Inr cl \<Rightarrow> Some cl))"

lemma RequireJWT_bearer:
  "RequireJWT (ap_jwt a) (ap_issuer a) h r w = (case bearer_claims a r (clock w) of
     None \<Rightarrow> (Error 401 (if cut_prefix ''Bearer '' (field (rq_headers r) ''Authorization'') \<in> {None, Some ''''}
         then ''missing bearer token'' else ''invalid or expired token''), w)
   | Some cl \<Rightarrow> h (r\<lparr>rq_claims := Some \<lparr>cl_user = jc_user cl, cl_role = jc_role cl\<rparr>\<rparr>) w)"
  by (simp add: RequireJWT_def bearer_claims_def split: option.splits sum.splits)

lemma limits_simps [simp]:
  "ap_jwt (with_redis_limits ip a) = ap_jwt a" "ap_issuer (with_redis_limits ip a) = ap_issuer a"
  "ap_api_limit (with_redis_limits ip a) = Middleware 300 (60 * second) (ResolveClientIP ip)"
  "protected_route (with_redis_limits ip a) rt = protected_route a rt"
  by (simp_all add: with_redis_limits_def) (cases rt; simp)

lemma Middleware_cases:
  assumes "0 < k" and "k < 2 ^ 53"
  obtains w1 where "same_servers w w1" "effects w1 = effects w"
    "Middleware mx (k * second) ip h r w = (Error 429 ''rate limit exceeded'', w1) \<or> Middleware mx (k * second) ip h r w = h r w1"
proof -
  obtain a w1 where a: "Allow (ip r) mx (k * second) w = (a, w1)" by fastforce
  have "float_to_int (duration_seconds (k * second)) = k" using duration_seconds_whole [of k] assms by simp
  then have "a \<noteq> Panics" "effects w1 = effects w"
    using a assms by (auto simp: Allow_def Let_def redis_incr_def redis_write_def r_put_def r_expire_def
      split: if_splits prod.splits fault.splits sum.splits option.splits rval.splits dest!: io_same)
  then show thesis using that [OF still_servers [OF Allow_servers [OF a]]] a
    by (cases a) (auto simp: Middleware_def split: option.splits if_splits)
qed


lemma serve_snd: "snd (serve a rt r w) = snd (case protected_route a rt of
    Some h \<Rightarrow> ap_api_limit a (RequireJWT (ap_jwt a) (ap_issuer a) h) r w | None \<Rightarrow> open_route a rt r w)"
  by (simp add: serve_def CSP_def split: option.splits prod.splits)

lemma serve_status: "rs_status (fst (serve a rt r w)) = rs_status (fst (case protected_route a rt of
    Some h \<Rightarrow> ap_api_limit a (RequireJWT (ap_jwt a) (ap_issuer a) h) r w | None \<Rightarrow> open_route a rt r w))"
  by (simp add: serve_def CSP_def split: option.splits prod.splits)

text \<open>C10 (safety): a request changes the database only if it registers, comes back from Google, or
  carries a verified access token; without one, every route behind the token guard answers 401, or
  429 when the limit is reached, and has no effect on the database, the brokers or the mail queue.
  The search indexer is only assumed to leave this program's database and brokers alone.\<close>

theorem writes_need_a_token:
  assumes "remote_quiet (ap_search a)" and "serve (with_redis_limits ip a) rt r w = (resp, w')"
  shows "(db_of w' = db_of w \<or> (\<exists>body. rt = PostRegister body) \<or> rt = OAuthCallback
       \<or> protected_route a rt \<noteq> None \<and> bearer_claims a r (clock w) \<noteq> None)
    \<and> (protected_route a rt \<noteq> None \<longrightarrow> bearer_claims a r (clock w) = None \<longrightarrow>
         rs_status resp \<in> {401, 429} \<and> db_of w' = db_of w \<and> effects w' = effects w)"
proof (cases "protected_route a rt")
  case None
  have "untouched w w'" if "\<And>b. rt \<noteq> PostRegister b" "rt \<noteq> OAuthCallback"
    using open_route_quiet [OF assms(1) that] serve_snd [of "with_redis_limits ip a" rt r w] None assms(2)
    unfolding quiet_def by (metis limits_simps(4) option.case(1) prod.collapse snd_conv)
  with None show ?thesis by (auto simp: untouched_def)
next
  case (Some h)
  show ?thesis
  proof (cases "bearer_claims a r (clock w)")
    case None
    obtain w1 where w1: "same_servers w w1" "effects w1 = effects w" and m:
      "Middleware 300 (60 * second) (ResolveClientIP ip) (RequireJWT (ap_jwt a) (ap_issuer a) h) r w = (Error 429 ''rate limit exceeded'', w1)
       \<or> Middleware 300 (60 * second) (ResolveClientIP ip) (RequireJWT (ap_jwt a) (ap_issuer a) h) r w
         = RequireJWT (ap_jwt a) (ap_issuer a) h r w1"
      by (rule Middleware_cases [of 60]) simp_all
    have "clock w1 = clock w" using w1(1) by (simp add: same_servers_def)
    then have "w' = w1 \<and> rs_status resp \<in> {401, 429}"
      using m serve_snd [of "with_redis_limits ip a" rt r w] serve_status [of "with_redis_limits ip a" rt r w]
      by (auto simp: Some None assms(2) RequireJWT_bearer)
    then show ?thesis using w1 None by (simp add: same_servers_def)
  qed (use Some in simp)
qed

subsection \<open>Every reachable state\<close>

text \<open>
  While a poll waits, the rest of the system goes on: its others run steps of the same relation.
\<close>

inductive system_step :: "app \<Rightarrow> world \<Rightarrow> world \<Rightarrow> bool" for a where
  request: "serve a rt r w = (resp, w') \<Longrightarrow> \<forall>env. rt \<noteq> GetPoll env \<Longrightarrow> system_step a w w'"
| poll: "serve a (GetPoll env) r w = (resp, w') \<Longrightarrow> \<forall>k v. (system_step a)\<^sup>*\<^sup>* v (pe_others env k v) \<Longrightarrow> system_step a w w'"
| later: "clock w \<le> t \<Longrightarrow> system_step a w (w\<lparr>clock := t\<rparr>)"
| failures: "system_step a w (w\<lparr>faults := fs, jitter := js\<rparr>)"
| replicated: "replica w = Some old \<Longrightarrow> system_step a w (w\<lparr>replica := Some new\<rparr>)"
| evicted: "system_step a w (w\<lparr>redis := (redis w)(k := None)\<rparr>)"

lemma protected_safe:
  assumes "protected_route a rt = Some h" and "\<forall>env. rt \<noteq> GetPoll env"
  shows "safe_handler h"
proof -
  have reads: "safe_handler ListMine" "safe_handler Get" by (simp_all add: quiet_safe quiet_handlers)
  show ?thesis
    using assms by (cases rt)
      (auto simp: listing_create_safe Create_safe status_safe review_safe Dispute_safe reads)
qed

lemma serve_safe_handler:
  assumes "serve (with_redis_limits ip a) rt r w = (resp, w')" and "remote_quiet (ap_search a)"
    and "\<And>h. protected_route a rt = Some h \<Longrightarrow> safe_handler h"
  shows "safe w w'"
proof (cases "protected_route a rt")
  case (Some h)
  have "safe_handler (Middleware 300 (60 * second) (ResolveClientIP ip) (RequireJWT (ap_jwt a) (ap_issuer a) h))"
    by (intro limiter.guard_safe jwt.guard_safe assms(3) Some)
  then show ?thesis
    using serve_snd [of "with_redis_limits ip a" rt r w] Some assms(1)
    unfolding safe_handler_def by (simp, metis prod.collapse snd_conv)
next
  case None
  have "safe_handler (open_route (with_redis_limits ip a) rt)"
  proof (cases "(\<exists>b. rt = PostRegister b) \<or> rt = OAuthCallback")
    case True
    then show ?thesis
      by (auto simp: with_redis_limits_def Register_safe oauth_Callback_safe quiet_handlers quiet_safe
          intro!: limiter.guard_safe split: option.splits)
  next
    case False
    then show ?thesis by (intro quiet_safe open_route_quiet assms(2)) auto
  qed
  then show ?thesis
    using serve_snd [of "with_redis_limits ip a" rt r w] None assms(1)
    unfolding safe_handler_def by (simp, metis prod.collapse snd_conv)
qed

lemma steps_safe: "R\<^sup>*\<^sup>* v v' \<Longrightarrow> (\<And>x y. R x y \<Longrightarrow> safe x y) \<Longrightarrow> safe v v'"
  by (induction rule: rtranclp_induct) (auto intro: safe_trans)

lemma system_step_safe:
  assumes "system_step (with_redis_limits ip a) w w'" and "remote_quiet (ap_search a)"
  shows "safe w w'"
  using assms(1)
proof (induction rule: system_step.induct)
  case (request rt r w resp w')
  show ?case by (rule serve_safe_handler [OF request(1) assms(2)]) (use protected_safe request(2) in blast)
next
  case (poll env r w resp w')
  have "safe v (pe_others env k v)" for k v
    by (rule steps_safe [of "\<lambda>x y. system_step (with_redis_limits ip a) x y \<and> safe x y"]) (use poll(2) in auto)
  then have "safe_handler (poll_handler env)" by (rule poll_safe)
  then show ?case by (intro serve_safe_handler [OF poll(1) assms(2)]) simp
next
  case (replicated w old new)
  then show ?case by (simp add: safe_def world_inv_def db_of_def)
qed (simp_all add: safe_def world_inv_def db_of_def)



text \<open>A small deployment: no indexer, no Google, the passwords of the samples.\<close>

definition sample_app :: app where
  "sample_app = \<lparr>ap_users = sample_users, ap_jwt = hs_jwt sample_users, ap_issuer = hs_issuer sample_users, ap_oauth = None,
     ap_listings = sample_catalog None, ap_bookings = sample_handler,
     ap_search = \<lparr>ss_rpc = None, ss_execute = (\<lambda>f. f)\<rparr>, ap_reports = None,
     ap_admin = \<lparr>ah_hmac = (@), ah_sessions = \<lparr>sm_secret = ''s'', sm_ttl = 43200 * second\<rparr>, ah_verify = hs_verify sample_users, ah_secure = True\<rparr>,
     ap_sha256 = id, ap_pepper = ''p'', ap_decode_std = (\<lambda>s. None), ap_basic_user = ''admin'', ap_basic_pass = ''x'',
     ap_collation = int \<circ> length, ap_char_collation = id, ap_auth_limit = id, ap_api_limit = id\<rparr>"

lemma sample_remote: "remote_quiet (ap_search sample_app)"
  by (simp add: remote_quiet_def sample_app_def)


theorem writes_need_a_token_witness:
  "rs_status (fst (serve (with_redis_limits rq_remote sample_app) PostApprove (sample_req ''1'') sample_world)) \<in> {401, 429}"
proof -
  have "bearer_claims sample_app (sample_req ''1'') (clock sample_world) = None"
    by (simp add: bearer_claims_def sample_req_def field_def)
  then show ?thesis
    using writes_need_a_token [OF sample_remote surjective_pairing, of rq_remote PostApprove "sample_req ''1''" sample_world]
    by simp
qed

end
