(* ===== verification/Responses.thy ===== *)
theory Responses
  imports System
begin

text \<open>
  What a client of the API can rely on in every answer: the security headers, a status of a fixed
  set, and an error status whenever the answer is an error object.
\<close>

definition statuses :: "int set" where
  "statuses = {200, 201, 202, 302, 303, 304, 400, 401, 403, 404, 409, 429, 500, 502}"

definition answers :: "handler \<Rightarrow> bool" where
  "answers h \<longleftrightarrow> (\<forall>r w. rs_status (fst (h r w)) \<in> statuses)"

lemma status_simps [simp]:
  "rs_status (plain_error s m) = s" "rs_status (html_page s d) = s" "rs_status (dispute_reply b i x) = 201"
  "rs_status (IssueCSRFCookie t sec resp) = rs_status resp" "rs_status (ClearCookie sec resp) = rs_status resp"
  "rs_status (IssueCookie hm sm now u sec resp) = rs_status resp"
  by (simp_all add: plain_error_def html_page_def dispute_reply_def IssueCSRFCookie_def ClearCookie_def IssueCookie_def)

lemma cacheable_statuses: "rs_status (WriteCacheableJSON L r 200 lm body) \<in> statuses"
  using cacheable_status [of L r 200 lm body] by (auto simp: statuses_def)

lemmas answer_defs = answers_def statuses_def

lemma simple_answers:
  "answers health_Handler" "answers not_found" "answers (InsuranceWebhook pay owner)" "answers ListMine" "answers Get"
  "answers (\<lambda>r. Login_handler us cred)" "answers (\<lambda>r. Register_handler us inp)" "answers (oauth_Start oh rnd)"
  "answers (oauth_Callback oh)" "answers (category_list_handler cl)" "answers (search_handler cc avg ss)"
  "answers (admin_LoginForm ah rnd)" "answers (admin_Logout ah)" "answers (admin_Dashboard ah rnd)"
  "answers (listing_create_handler lh lbody)" "answers (review_handler rbody)" "answers (transitionHandler step bh)"
  by (simp add: answer_defs health_Handler_def not_found_def InsuranceWebhook_def ListMine_def Get_def Login_handler_def
      Register_handler_def oauth_Start_def oauth_Callback_def category_list_handler_def search_handler_def
      admin_LoginForm_def admin_Logout_def admin_Dashboard_def listing_create_handler_def review_handler_def
      transitionHandler_def Let_def split: option.split prod.split sum.split; fail)+

lemma admin_Login_answers: "answers (admin_Login ah rnd)"
  by (simp add: answer_defs admin_Login_def Let_def split: option.split prod.split sum.split)

lemma Create_answers: "answers (\<lambda>r w. Create bh r body w)"
  by (simp add: answer_defs Create_def split: option.split prod.split sum.split)

lemma Dispute_answers: "answers (Dispute_handler s reports body)"
  by (simp add: answer_defs Dispute_handler_def split: option.split prod.split sum.split)

lemma cached_answers: "answers (Feed lh)" "answers (listing_GetDetail lh)"
  unfolding answers_def Feed_def listing_GetDetail_def Let_def
  by (auto simp: cacheable_statuses split: option.splits prod.splits sum.splits) (simp_all add: statuses_def)

lemma poll_answers: "answers (poll_handler env)"
  unfolding answers_def
proof (intro allI)
  fix r w
  show "rs_status (fst (poll_handler env r w)) \<in> statuses"
  proof (cases "parse_int64 (rq_id r)")
    case (Inr i)
    obtain resp t m w' where p: "poll_loop env (if field (rq_query r) ''since'' = '''' then 0
        else fst (parse_int (field (rq_query r) ''since''))) i 0 0 0 w = (resp, t, m, w')" by (metis prod_cases4)
    then show ?thesis using poll_checks [OF p] Inr by (auto simp: poll_handler_def Poll_def Let_def statuses_def)
  qed (simp add: poll_handler_def Poll_def statuses_def)
qed

lemma guards_answer:
  assumes "answers h"
  shows "answers (Middleware mx win ip h)" "answers (RequireJWT L j h)" "answers (RequireCSRF h)"
    "answers (RequireBasicAuth decode u p h)"
  using assms by (simp_all add: answer_defs Middleware_def RequireJWT_def RequireCSRF_def RequireBasicAuth_def Let_def
      split: option.split prod.split sum.split allow_result.split)

lemma keyed_guards_answer:
  assumes "\<And>x. answers (f x)"
  shows "answers (RequireAPIKey sha pepper f)"
  using assms by (simp add: answer_defs RequireAPIKey_def split: option.split prod.split sum.split)

lemma session_guard_answers:
  assumes "\<And>x. answers (f x)"
  shows "answers (RequireSession hmac m f)"
  using assms by (simp add: answer_defs RequireSession_def split: option.split prod.split sum.split)

lemma protected_answers: "protected_route a rt = Some h \<Longrightarrow> answers h"
  by (cases rt) (auto simp: simple_answers Create_answers Dispute_answers poll_answers transition_handlers)

lemma open_answers: "answers (open_route (with_redis_limits ip a) rt)"
  by (cases rt)
    (auto simp: with_redis_limits_def simple_answers admin_Login_answers cached_answers
      intro!: guards_answer keyed_guards_answer session_guard_answers split: option.splits)

lemma serve_answers: "rs_status (fst (serve (with_redis_limits ip a) rt r w)) \<in> statuses"
proof -
  have "answers (case protected_route a rt of
      Some h \<Rightarrow> Middleware 300 (60 * second) (ResolveClientIP ip) (RequireJWT (ap_jwt a) (ap_issuer a) h)
    | None \<Rightarrow> open_route (with_redis_limits ip a) rt)"
    by (auto intro: open_answers guards_answer protected_answers split: option.splits)
  then show ?thesis unfolding serve_status answers_def by (simp split: option.splits)
qed


end
