(* ===== verification/Wiring.thy ===== *)
theory Wiring
  imports System Config Services AuthSpec
begin

text \<open>
  \<open>cmd/api/main.go\<close>: how \<open>main\<close> builds the API from the environment and the backends it can reach.
  MySQL is required; Redis, MongoDB, RabbitMQ, the two internal services and Google are optional.
\<close>

text \<open>The libraries, and what the connection attempts at the start give.\<close>

record backends =
  be_database :: bool
  be_redis :: bool
  be_rabbit :: bool
  be_mongo :: "(damage_report \<Rightarrow> gerr + string option) option"
  be_notification :: "string \<Rightarrow> bool"
  be_indexer :: "string \<Rightarrow> (string \<Rightarrow> int \<Rightarrow> world \<Rightarrow> (gerr + search_result list) \<times> world) option"
  be_execute :: "breaker_settings \<Rightarrow> search_result list guarded"
  be_google :: "string \<Rightarrow> string \<Rightarrow> string \<Rightarrow> google_lib option"
  be_generate :: "string \<Rightarrow> string \<Rightarrow> int \<Rightarrow> gerr + string"
  be_compare :: "string \<Rightarrow> string \<Rightarrow> gerr option"
  be_salt :: string
  be_jwt :: jwt_lib
  be_etag :: etag_lib
  be_avg :: "int list \<Rightarrow> rat"
  be_hmac :: "string \<Rightarrow> string \<Rightarrow> string"
  be_sha256 :: "string \<Rightarrow> string"
  be_decode_std :: "string \<Rightarrow> string option"
  be_collation :: "string \<Rightarrow> int"
  be_char_collation :: "char \<Rightarrow> char"
  be_local_limit :: "int \<Rightarrow> int \<Rightarrow> handler \<Rightarrow> handler"

definition main_hasher :: "config \<Rightarrow> bcrypt_hasher" where
  "main_hasher cfg = NewBcryptHasher (ac_bcrypt_cost (cf_auth cfg))"

definition main_issuer :: "config \<Rightarrow> jwt_issuer" where
  "main_issuer cfg = \<lparr>ji_secret = ac_jwt_secret (cf_auth cfg), ji_ttl = ac_access_ttl (cf_auth cfg)\<rparr>"

definition main_secure :: "config \<Rightarrow> bool" where
  "main_secure cfg \<longleftrightarrow> cf_env cfg = ''production''"

definition main_service :: "config \<Rightarrow> backends \<Rightarrow> service" where
  "main_service cfg be = \<lparr>sv_publisher = True, sv_cache = be_redis be, sv_notifier = be_rabbit be,
     sv_sync = (gc_notification (cf_grpc cfg) \<noteq> '''' \<and> be_notification be (gc_notification (cf_grpc cfg)))\<rparr>"

definition main_search :: "config \<Rightarrow> backends \<Rightarrow> search_service" where
  "main_search cfg be = \<lparr>ss_rpc = (if gc_search (cf_grpc cfg) \<noteq> '''' then be_indexer be (gc_search (cf_grpc cfg)) else None),
     ss_execute = be_execute be (NewBreaker ''search-indexer'')\<rparr>"

definition main_oauth :: "config \<Rightarrow> backends \<Rightarrow> oauth_handler option" where
  "main_oauth cfg be =
     (if ac_google_id (cf_auth cfg) = '''' then None
      else case be_google be (ac_google_id (cf_auth cfg)) (ac_google_secret (cf_auth cfg)) (ac_google_redirect (cf_auth cfg)) of
             None \<Rightarrow> None
           | Some g \<Rightarrow> Some \<lparr>oh_google = g, oh_jwt = be_jwt be, oh_issuer = main_issuer cfg, oh_secure = main_secure cfg,
               oh_redirect = hd (hc_cors (cf_http cfg))\<rparr>)"

text \<open>All of it before the limiters, which depend on Redis.\<close>

definition main_wired :: "env \<Rightarrow> config \<Rightarrow> backends \<Rightarrow> app" where
  "main_wired e cfg be =
    \<lparr>ap_users = \<lparr>hs_hash = bcrypt_Hash (be_generate be) (main_hasher cfg), hs_verify = bcrypt_Verify (be_compare be) (main_hasher cfg),
        hs_salt = be_salt be, hs_jwt = be_jwt be, hs_issuer = main_issuer cfg\<rparr>,
     ap_jwt = be_jwt be, ap_issuer = main_issuer cfg, ap_oauth = main_oauth cfg be,
     ap_listings = \<lparr>lh_publisher = True, lh_cache = (if be_redis be then Some (30 * second) else None), lh_etag = be_etag be, lh_avg = be_avg be\<rparr>,
     ap_bookings = \<lparr>bh_service = main_service cfg be, bh_listings = True, bh_notifier = True\<rparr>,
     ap_search = main_search cfg be, ap_reports = be_mongo be,
     ap_admin = \<lparr>ah_hmac = be_hmac be, ah_sessions = \<lparr>sm_secret = ac_session_secret (cf_auth cfg), sm_ttl = 12 * 3600 * second\<rparr>,
        ah_verify = bcrypt_Verify (be_compare be) (main_hasher cfg), ah_secure = main_secure cfg\<rparr>,
     ap_sha256 = be_sha256 be, ap_pepper = ac_pepper (cf_auth cfg), ap_decode_std = be_decode_std be,
     ap_basic_user = envOrDefault e ''INTERNAL_BASIC_USER'' ''admin'', ap_basic_pass = envOrDefault e ''INTERNAL_BASIC_PASS'' ''dev-only-change-me'',
     ap_collation = be_collation be, ap_char_collation = be_char_collation be,
     ap_auth_limit = be_local_limit be 20 (60 * second), ap_api_limit = be_local_limit be 300 (60 * second)\<rparr>"

definition main_app :: "(http_req \<Rightarrow> string) \<Rightarrow> env \<Rightarrow> backends \<Rightarrow> string + app" where
  "main_app client_ip e be =
     (case Load e of
        Inl msg \<Rightarrow> Inl (''config: '' @ msg)
      | Inr cfg \<Rightarrow>
          if \<not> be_database be then Inl ''db''
          else Inr (if be_redis be then with_redis_limits client_ip (main_wired e cfg be) else main_wired e cfg be))"

text \<open>C11 (safety): with \<open>APP_ENV=production\<close> the program refuses to start exactly when the JWT secret is
  unset or still the published default, or MySQL is not reached. Once it runs, its cookies are
  marked secure, but its session secret may still be the default, and then anybody can sign a cookie
  that passes as the session of any user and opens the admin dashboard.\<close>

theorem production_boot:
  assumes "e ''APP_ENV'' = Some ''production''"
  shows "(is_ok (main_app ip e be) \<longleftrightarrow> be_database be \<and> getEnv e ''JWT_SECRET'' ''dev-only-change-me'' \<noteq> ''dev-only-change-me'')
    \<and> (\<forall>a. main_app ip e be = Inr a \<longrightarrow> ji_secret (ap_issuer a) \<noteq> ''dev-only-change-me'' \<and> ah_secure (ap_admin a)
        \<and> (\<forall>h. ap_oauth a = Some h \<longrightarrow> oh_secure h)
        \<and> (e ''SESSION_SECRET'' = None \<longrightarrow> in_int64 user \<longrightarrow> in_int64 (unix (clock w + 12 * 3600 * second)) \<longrightarrow>
            rq_cookies r = [(SessionCookieName, ck_value (session_cookie (be_hmac be)
               \<lparr>sm_secret = ''dev-only-change-me'', sm_ttl = 12 * 3600 * second\<rparr> (clock w) user True))] \<longrightarrow>
            serve a (AdminDashboard rnd) r w = CSP (admin_Dashboard (ap_admin a) rnd) r w))"
proof -
  have env: "cf_env (load_config e) = ''production''" using assms by (simp add: load_config_def getEnv_def)
  have jwt: "ac_jwt_secret (cf_auth (load_config e)) = getEnv e ''JWT_SECRET'' default_secret"
    and ses: "e ''SESSION_SECRET'' = None \<Longrightarrow> ac_session_secret (cf_auth (load_config e)) = default_secret"
    by (simp_all add: load_config_def load_auth_def getEnv_def)
  have ok: "is_ok (main_app ip e be) \<longleftrightarrow> be_database be \<and> getEnv e ''JWT_SECRET'' default_secret \<noteq> default_secret"
    by (simp add: main_app_def Load_def Let_def env jwt is_ok_iff)
  have A: "ji_secret (ap_issuer a) \<noteq> default_secret \<and> ah_secure (ap_admin a) \<and> (\<forall>h. ap_oauth a = Some h \<longrightarrow> oh_secure h)
      \<and> ah_hmac (ap_admin a) = be_hmac be
      \<and> ah_sessions (ap_admin a) = \<lparr>sm_secret = ac_session_secret (cf_auth (load_config e)), sm_ttl = 12 * 3600 * second\<rparr>"
    if "main_app ip e be = Inr a" for a
    using that by (auto simp: main_app_def Load_def Let_def env jwt with_redis_limits_def main_wired_def main_issuer_def
        main_oauth_def main_secure_def split: if_splits option.splits)
  have F: "serve a (AdminDashboard rnd) r w = CSP (admin_Dashboard (ap_admin a) rnd) r w"
    if a: "main_app ip e be = Inr a" and s: "e ''SESSION_SECRET'' = None" and i: "in_int64 user" "in_int64 (unix (clock w + 12 * 3600 * second))"
      and c: "rq_cookies r = [(SessionCookieName, ck_value (session_cookie (be_hmac be)
               \<lparr>sm_secret = ''dev-only-change-me'', sm_ttl = 12 * 3600 * second\<rparr> (clock w) user True))]" for a
  proof -
    define m where "m = \<lparr>sm_secret = ''dev-only-change-me'', sm_ttl = 12 * 3600 * second\<rparr>"
    have m: "ah_sessions (ap_admin a) = m" "ah_hmac (ap_admin a) = be_hmac be"
      using A [OF a] ses [OF s] by (simp_all add: m_def default_secret_def)
    have "unix (clock w) \<le> unix (clock w + sm_ttl m)"
      unfolding unix_def by (intro zdiv_mono1) (simp_all add: m_def second_def)
    moreover have "map_of (rq_cookies r) ''gearshare_admin_session'' = Some (ck_value (session_cookie (be_hmac be) m (clock w) user True))"
      by (simp add: c m_def SessionCookieName_def)
    ultimately have "session_Verify (be_hmac be) m (clock w) r = Inr user"
      using session_verifies [of user "clock w" m r "be_hmac be" True "clock w"] i by (simp add: m_def)
    then show ?thesis by (simp add: serve_def m RequireSession_def CSP_def)
  qed
  show ?thesis using ok A F unfolding default_secret_def by blast
qed


definition sample_env :: env where
  "sample_env = [''APP_ENV'' \<mapsto> ''production'', ''JWT_SECRET'' \<mapsto> ''s3cret'']"

theorem production_boot_witness:
  "\<forall>be. is_ok (main_app rq_remote sample_env be) = be_database be"
proof
  fix be
  have "sample_env ''APP_ENV'' = Some ''production''" by (simp add: sample_env_def)
  from production_boot [where e = sample_env, OF this, of rq_remote be, THEN conjunct1]
  show "is_ok (main_app rq_remote sample_env be) = be_database be"
    by (simp add: getEnv_def sample_env_def)
qed

text \<open>With Redis, what holds of the system with these limiters holds of the program \<open>main\<close> builds.\<close>

lemma main_step_safe:
  assumes "main_app ip e be = Inr a" and "be_redis be" and "\<And>cfg. remote_quiet (main_search cfg be)" and "system_step a w w'"
  shows "safe w w'"
proof -
  obtain cfg where "a = with_redis_limits ip (main_wired e cfg be)"
    using assms(1,2) by (auto simp: main_app_def split: sum.splits if_splits)
  moreover have "remote_quiet (ap_search (main_wired e cfg be))" using assms(3) by (simp add: main_wired_def)
  ultimately show ?thesis using system_step_safe assms(4) by blast
qed

end
