(* ===== verification/Documents.thy ===== *)
theory Documents
  imports App
begin

text \<open>
  \<open>internal/spec\<close> and \<open>internal/damagereport\<close>: the two MongoDB collections, a spec sheet per listing
  and the damage reports of disputed bookings. The driver is modelled by what its documentation
  says of the four calls the code makes: \<open>ReplaceOne\<close> with upsert, \<open>FindOne\<close>, \<open>InsertOne\<close>, \<open>Find\<close>.
\<close>

subsection \<open>Keyed stores\<close>

text \<open>What a client of a store with one value per key relies on.\<close>

locale keyed_store =
  fixes get :: "'s \<Rightarrow> 'k \<Rightarrow> 'v option" and put :: "'v \<Rightarrow> 's \<Rightarrow> 's" and key :: "'v \<Rightarrow> 'k"
  assumes get_put: "get (put v s) k = (if key v = k then Some v else get s k)"
begin

lemma last_write_wins:
  "get (fold put vs s) k = (case find (\<lambda>v. key v = k) (rev vs) of Some v \<Rightarrow> Some v | None \<Rightarrow> get s k)"
  by (induction vs arbitrary: s) (auto simp: get_put find_append split: option.splits)

lemma writes_commute: "key u \<noteq> key v \<Longrightarrow> get (put u (put v s)) k = get (put v (put u s)) k"
  by (auto simp: get_put)

end

text \<open>The search index is one, as long as Elasticsearch takes the writes.\<close>

interpretation index: keyed_store "\<lambda>ix. ix" "\<lambda>d ix. snd (Upsert EsOk d ix)" ed_listing
  by unfold_locales (simp add: Upsert_def)

subsection \<open>The driver\<close>

text \<open>A write is applied, refused, or applied without the client hearing of it. BSON dates have
  milliseconds.\<close>

datatype doc_outcome = DocOk | DocFails gerr | DocLost gerr

fun doc_result :: "doc_outcome \<Rightarrow> gerr option" where
  "doc_result DocOk = None"
| "doc_result (DocFails e) = Some e"
| "doc_result (DocLost e) = Some e"

fun doc_applied :: "doc_outcome \<Rightarrow> bool" where
  "doc_applied (DocFails e) = False"
| "doc_applied _ = True"

definition bson_time :: "time \<Rightarrow> time" where
  "bson_time t = unix_milli t * millisecond"

definition ErrNoDocuments :: gerr where
  "ErrNoDocuments = Sentinel ''mongo: no documents in result''"

subsection \<open>Spec sheets\<close>

text \<open>The attributes are documents of any shape; \<open>stored\<close> is what they become through BSON.\<close>

record 'a spec =
  sp_listing :: int
  sp_category :: string
  sp_attributes :: 'a
  sp_updated :: time

fun replace_one :: "'a spec \<Rightarrow> 'a spec list \<Rightarrow> 'a spec list" where
  "replace_one s [] = [s]"
| "replace_one s (d # ds) = (if sp_listing d = sp_listing s then s # ds else d # replace_one s ds)"

definition bson_spec :: "('a \<Rightarrow> 'a) \<Rightarrow> 'a spec \<Rightarrow> 'a spec" where
  "bson_spec stored s = s\<lparr>sp_attributes := stored (sp_attributes s), sp_updated := bson_time (sp_updated s)\<rparr>"

definition spec_Upsert :: "doc_outcome \<Rightarrow> ('a \<Rightarrow> 'a) \<Rightarrow> time \<Rightarrow> 'a spec \<Rightarrow> 'a spec list \<Rightarrow> gerr option \<times> 'a spec list" where
  "spec_Upsert out stored now s docs =
     (let s' = s\<lparr>sp_updated := now\<rparr>;
          docs' = (if doc_applied out then replace_one (bson_spec stored s') docs else docs)
      in case doc_result out of
           Some e \<Rightarrow> (Some (Wrapped ''spec: upsert'' e), docs')
         | None \<Rightarrow> (None, docs'))"

definition find_one :: "gerr option \<Rightarrow> int \<Rightarrow> 'a spec list \<Rightarrow> gerr + 'a spec" where
  "find_one failure i docs =
     (case failure of Some e \<Rightarrow> Inl e
      | None \<Rightarrow> (case find (\<lambda>d. sp_listing d = i) docs of None \<Rightarrow> Inl ErrNoDocuments | Some d \<Rightarrow> Inr d))"

definition GetByListingID :: "gerr option \<Rightarrow> int \<Rightarrow> 'a spec list \<Rightarrow> gerr + 'a spec option" where
  "GetByListingID failure i docs =
     (case find_one failure i docs of
        Inl e \<Rightarrow> if e = ErrNoDocuments then Inr None else Inl (Wrapped ''spec: get'' e)
      | Inr s \<Rightarrow> Inr (Some s))"

interpretation specs: keyed_store "\<lambda>docs i. find (\<lambda>d. sp_listing d = i) docs" replace_one sp_listing
proof
  fix s :: "'a spec" and docs i
  show "find (\<lambda>d. sp_listing d = i) (replace_one s docs)
      = (if sp_listing s = i then Some s else find (\<lambda>d. sp_listing d = i) docs)"
    by (induction docs) auto
qed

lemma GetByListingID_works: "GetByListingID None i docs = Inr (find (\<lambda>d. sp_listing d = i) docs)"
  by (simp add: GetByListingID_def find_one_def split: option.split)

text \<open>A stored sheet is read back as BSON keeps it, and the sheets of other listings stay.\<close>

lemma spec_roundtrip:
  assumes "spec_Upsert out stored now s docs = (None, docs')"
  shows "GetByListingID None i docs' =
    (if sp_listing s = i then Inr (Some (bson_spec stored (s\<lparr>sp_updated := now\<rparr>))) else GetByListingID None i docs)"
  using assms unfolding GetByListingID_works
  by (cases out) (auto simp: spec_Upsert_def specs.get_put bson_spec_def Let_def)

text \<open>One sheet per listing, also when the answer of a write is lost.\<close>

lemma sheets_distinct:
  assumes "distinct (map sp_listing docs)"
  shows "distinct (map sp_listing (snd (spec_Upsert out stored now s docs)))"
proof -
  have "sp_listing ` set (replace_one s ds) \<subseteq> insert (sp_listing s) (sp_listing ` set ds)" for ds and s :: "'a spec"
    by (induction ds) auto
  then have "distinct (map sp_listing (replace_one s docs))" for s :: "'a spec"
    using assms by (induction docs) (auto simp: image_iff dest!: subsetD)
  then show ?thesis using assms by (auto simp: spec_Upsert_def Let_def split: option.split)
qed

subsection \<open>Damage reports\<close>

type_synonym reports = "(string \<times> damage_report) list"

text \<open>\<open>hex\<close> is the identifier the driver makes for the document, if it is an object id.\<close>

definition insert_report :: "doc_outcome \<Rightarrow> string \<times> bool \<Rightarrow> damage_report \<Rightarrow> reports \<Rightarrow> (gerr + string option) \<times> reports" where
  "insert_report out new rep docs =
     (let docs' = (if doc_applied out then docs @ [(fst new, rep\<lparr>dr_created := bson_time (dr_created rep)\<rparr>)] else docs)
      in case doc_result out of Some e \<Rightarrow> (Inl e, docs') | None \<Rightarrow> (Inr (if snd new then Some (fst new) else None), docs'))"

definition ListForBooking :: "gerr option \<Rightarrow> gerr option \<Rightarrow> int \<Rightarrow> reports \<Rightarrow> gerr + damage_report list" where
  "ListForBooking find_fails decode_fails i docs =
     (case find_fails of Some e \<Rightarrow> Inl (Wrapped ''damagereport: list'' e)
      | None \<Rightarrow> (case decode_fails of Some e \<Rightarrow> Inl (Wrapped ''damagereport: decode'' e)
          | None \<Rightarrow> Inr (filter (\<lambda>rep. dr_booking rep = i) (map snd docs))))"

text \<open>A report that \<open>Create\<close> says is stored is the last one of its booking.\<close>

lemma report_roundtrip:
  assumes "report_Create (\<lambda>rep. fst (insert_report out new rep docs)) now rep = Inr hex"
    and "docs' = snd (insert_report out new (rep\<lparr>dr_created := now\<rparr>) docs)"
    and "ListForBooking None None (dr_booking rep) docs = Inr old"
  shows "hex = fst new \<and> ListForBooking None None (dr_booking rep) docs' = Inr (old @ [rep\<lparr>dr_created := bson_time now\<rparr>])"
  using assms
  by (cases out) (auto simp: report_Create_def insert_report_def ListForBooking_def Let_def split: if_splits)

end
