(* ===== verification/Startup.thy ===== *)
theory Startup
  imports Config App
begin

text \<open>
  Opening and closing the backends (\<open>internal/db/mysql.go\<close>, \<open>internal/cache/redis.go\<close>,
  \<open>internal/mongo\<close>, \<open>internal/queue/rabbitmq.go\<close>), the index the search indexer makes sure of, its audit
  consumer, and the profile request of \<open>internal/auth/oauth_google.go\<close>. The drivers' attempts are
  arguments.
\<close>

subsection \<open>MySQL\<close>

record 'c pool =
  po_conn :: 'c
  po_open :: int
  po_idle :: int

definition db_connect :: "(string \<Rightarrow> gerr + 'c) \<Rightarrow> string \<Rightarrow> MySQLConfig \<Rightarrow> gerr + 'c pool" where
  "db_connect dial dsn cfg =
     (case dial dsn of Inl e \<Rightarrow> Inl e
      | Inr conn \<Rightarrow> Inr \<lparr>po_conn = conn, po_open = mc_open cfg, po_idle = mc_idle cfg\<rparr>)"

definition db_Connect :: "(string \<Rightarrow> gerr + 'c) \<Rightarrow> MySQLConfig \<Rightarrow> gerr + 'c pool \<times> 'c pool" where
  "db_Connect dial cfg =
     (case db_connect dial (mc_primary cfg) cfg of
        Inl e \<Rightarrow> Inl (Wrapped ''db: connect primary'' e)
      | Inr prim \<Rightarrow>
          let replicaDSN = (if mc_replica cfg = '''' then mc_primary cfg else mc_replica cfg)
          in case db_connect dial replicaDSN cfg of
               Inl e \<Rightarrow> Inl (Wrapped ''db: connect replica'' e)
             | Inr repl \<Rightarrow> Inr (prim, repl))"

text \<open>Closing: \<open>same\<close> says that both pools are one. The errors are printed as a slice.\<close>

fun joined :: "string list \<Rightarrow> string" where
  "joined [] = ''''"
| "joined [s] = s"
| "joined (s # t # ss) = s @ '' '' @ joined (t # ss)"

definition db_Close :: "('c \<Rightarrow> gerr option) \<Rightarrow> bool \<Rightarrow> 'c \<times> 'c \<Rightarrow> gerr option" where
  "db_Close close same db =
     (let errs = (case close (fst db) of Some e \<Rightarrow> [e] | None \<Rightarrow> [])
        @ (if same then [] else case close (snd db) of Some e \<Rightarrow> [e] | None \<Rightarrow> [])
      in if errs = [] then None else Some (OtherErr (''db: close errors: ['' @ joined (map err_text errs) @ '']'')))"

text \<open>Both pools are needed; without a replica of its own the second one is of the primary.\<close>

lemma db_Connect_ok:
  "is_ok (db_Connect dial cfg) \<longleftrightarrow> is_ok (dial (mc_primary cfg)) \<and> (mc_replica cfg = '''' \<or> is_ok (dial (mc_replica cfg)))"
  by (auto simp: db_Connect_def db_connect_def Let_def is_ok_iff split: sum.splits)

lemma db_Connect_pools:
  assumes "db_Connect dial cfg = Inr (p, r)"
  shows "dial (mc_primary cfg) = Inr (po_conn p) \<and> (mc_replica cfg = '''' \<longrightarrow> r = p)
    \<and> (mc_replica cfg \<noteq> '''' \<longrightarrow> dial (mc_replica cfg) = Inr (po_conn r))"
  using assms by (auto simp: db_Connect_def db_connect_def Let_def split: sum.splits)

lemma db_Close_none:
  "db_Close close same db = None \<longleftrightarrow> close (fst db) = None \<and> (same \<or> close (snd db) = None)"
  by (auto simp: db_Close_def Let_def split: option.splits)

subsection \<open>Redis, MongoDB, RabbitMQ\<close>

definition redis_Connect :: "(RedisConfig \<Rightarrow> gerr option) \<Rightarrow> RedisConfig \<Rightarrow> gerr + RedisConfig" where
  "redis_Connect ping cfg = (case ping cfg of Some e \<Rightarrow> Inl (Wrapped ''cache: connect'' e) | None \<Rightarrow> Inr cfg)"

definition mongo_Connect :: "(string \<Rightarrow> gerr + 'c) \<Rightarrow> ('c \<Rightarrow> gerr option) \<Rightarrow> config \<Rightarrow> gerr + 'c \<times> string" where
  "mongo_Connect dial ping cfg =
     (case dial (cf_mongo_uri cfg) of
        Inl e \<Rightarrow> Inl (Wrapped ''mongo: connect'' e)
      | Inr client \<Rightarrow> (case ping client of
          Some e \<Rightarrow> Inl (Wrapped ''mongo: ping'' e)
        | None \<Rightarrow> Inr (client, cf_mongo_db cfg)))"

definition queue_Connect :: "(string \<Rightarrow> gerr + 'c) \<Rightarrow> string \<Rightarrow> gerr + 'c" where
  "queue_Connect dial url = (case dial url of Inl e \<Rightarrow> Inl (Wrapped ''queue: connect'' e) | Inr conn \<Rightarrow> Inr conn)"

lemma mongo_Connect_ok:
  "is_ok (mongo_Connect dial ping cfg) \<longleftrightarrow> (\<exists>c. dial (cf_mongo_uri cfg) = Inr c \<and> ping c = None)"
  by (auto simp: mongo_Connect_def is_ok_iff split: sum.splits option.splits)

subsection \<open>The indexer\<close>

text \<open>
  \<open>status\<close> is the answer to the question whether the index is there, \<open>out\<close> what becomes of the
  creation; \<open>None\<close> is an Elasticsearch without the index.
\<close>

definition EnsureIndex :: "gerr + int \<Rightarrow> es_outcome \<Rightarrow> es_index option \<Rightarrow> gerr option \<times> es_index option" where
  "EnsureIndex status out ix =
     (case status of
        Inl e \<Rightarrow> (Some (Wrapped ''esindex: check index exists'' e), ix)
      | Inr code \<Rightarrow>
          if code = 200 then (None, ix)
          else (case out of
             EsUnreached e \<Rightarrow> (Some (Wrapped ''esindex: create index'' e), ix)
           | EsRefused s \<Rightarrow> (Some (OtherErr (''esindex: create index: '' @ s)), ix)
           | EsOk \<Rightarrow> (None, Some (\<lambda>_. None))))"

text \<open>With answers that are true, an index that is there is kept and success means that there is one.\<close>

lemma EnsureIndex_ensures:
  assumes "EnsureIndex status out ix = (res, ix')"
    and "status = Inr 200 \<Longrightarrow> ix \<noteq> None" and "out = EsOk \<Longrightarrow> status \<noteq> Inr 200 \<Longrightarrow> ix = None"
  shows "(res = None \<longrightarrow> ix' \<noteq> None) \<and> (ix \<noteq> None \<longrightarrow> ix' = ix)"
  using assms by (auto simp: EnsureIndex_def split: sum.splits if_splits es_outcome.splits)

text \<open>The audit consumer only decodes and logs.\<close>

record audit_event =
  ae_type :: string
  ae_booking :: int
  ae_listing :: int
  ae_status :: string

definition decode_audit :: "json \<Rightarrow> audit_event option" where
  "decode_audit = into_struct (\<lambda>fs.
       case (get_str fs ''type'', get_num fs ''booking_id'', get_num fs ''listing_id'', get_str fs ''status'') of
          (Some ty, Some b, Some l, Some st) \<Rightarrow> Some \<lparr>ae_type = ty, ae_booking = b, ae_listing = l, ae_status = st\<rparr>
        | _ \<Rightarrow> None)"

definition audit_handler :: "json \<Rightarrow> gerr option \<times> string" where
  "audit_handler value =
     (case decode_audit value of
        None \<Rightarrow> (Some (OtherErr ''json''), '''')
      | Some e \<Rightarrow> (None, ''search-indexer: [audit] booking '' @ format_int (ae_booking e) @ '' on listing ''
           @ format_int (ae_listing e) @ '' -> '' @ ae_status e))"

text \<open>Every event a booking publishes is audited with its booking, listing and status.\<close>

lemma audit_of_event:
  "audit_handler (event_json e) = (None, ''search-indexer: [audit] booking '' @ format_int (ev_booking e)
     @ '' on listing '' @ format_int (ev_listing e) @ '' -> '' @ status_str (ev_status e))"
  by (simp add: audit_handler_def decode_audit_def event_json_def field_defs)

subsection \<open>The Google profile\<close>

record google_profile =
  gp_sub :: string
  gp_email :: string
  gp_name :: string
  gp_picture :: string

text \<open>The answer of the userinfo endpoint: status, raw body and what it decodes to.\<close>

definition FetchProfile :: "gerr + int \<times> string \<times> (gerr + google_profile) \<Rightarrow> gerr + google_profile" where
  "FetchProfile response =
     (case response of
        Inl e \<Rightarrow> Inl (Wrapped ''oauth: fetch profile'' e)
      | Inr (code, body, decoded) \<Rightarrow>
          if code \<noteq> 200 then Inl (OtherErr (''oauth: fetch profile: status '' @ format_int code @ '': '' @ body))
          else (case decoded of
             Inl e \<Rightarrow> Inl (Wrapped ''oauth: decode profile'' e)
           | Inr profile \<Rightarrow> Inr profile))"

lemma FetchProfile_ok: "FetchProfile response = Inr p \<longleftrightarrow> (\<exists>body. response = Inr (200, body, Inr p))"
  by (auto simp: FetchProfile_def split: sum.splits prod.splits)

end
