(* ===== verification/Redelivery.thy ===== *)
theory Redelivery
  imports Services
begin

text \<open>
  \<open>Consumer.Run\<close> of \<open>internal/queue\<close> inside a process that is stopped and started: the loop's choice
  between a cancelled context and the next delivery, the handler and the acknowledgement after it
  as two steps, and a broker that gives unacknowledged messages back to the queue when their
  channel or its process is gone.
\<close>

subsection \<open>A worker process\<close>

text \<open>
  The mailbox of the queue, what the handler said of the delivery in hand, the deliveries it
  handled with success, whether the context is cancelled, and whether the loop runs.
\<close>

record 'm worker = "'m mailbox" +
  wk_outcome :: "bool option"
  wk_handled :: "'m list"
  wk_cancelled :: bool
  wk_running :: bool

definition fresh_worker :: "'m list \<Rightarrow> 'm worker" where
  "fresh_worker ms = \<lparr>mb_ready = ms, mb_unacked = [], mb_acked = [], mb_dead = [],
     wk_outcome = None, wk_handled = [], wk_cancelled = False, wk_running = True\<rparr>"

definition give_back :: "'m worker \<Rightarrow> 'm worker" where
  "give_back s = s\<lparr>mb_ready := mb_unacked s @ mb_ready s, mb_unacked := [], wk_outcome := None, wk_running := False\<rparr>"

text \<open>
  The handler sees whether its context is cancelled. The loop looks at the context between two
  deliveries only, and may prefer a delivery to it; \<open>main\<close> does not wait for the loop, and a process
  or its connection may be gone at any time.
\<close>

inductive worker_step :: "nat \<Rightarrow> (bool \<Rightarrow> 'm \<Rightarrow> bool) \<Rightarrow> 'm worker \<Rightarrow> 'm worker \<Rightarrow> bool" for prefetch handler where
  w_deliver: "wk_running s \<Longrightarrow> mb_ready s = m # ms \<Longrightarrow> length (mb_unacked s) < prefetch \<Longrightarrow>
     worker_step prefetch handler s (s\<lparr>mb_ready := ms, mb_unacked := mb_unacked s @ [m]\<rparr>)"
| w_handle: "wk_running s \<Longrightarrow> wk_outcome s = None \<Longrightarrow> mb_unacked s = m # ms \<Longrightarrow> ok = handler (wk_cancelled s) m \<Longrightarrow>
     worker_step prefetch handler s (s\<lparr>wk_outcome := Some ok, wk_handled := wk_handled s @ (if ok then [m] else [])\<rparr>)"
| w_ack: "wk_running s \<Longrightarrow> wk_outcome s = Some True \<Longrightarrow> mb_unacked s = m # ms \<Longrightarrow>
     worker_step prefetch handler s (s\<lparr>mb_unacked := ms, mb_acked := mb_acked s @ [m], wk_outcome := None\<rparr>)"
| w_nack: "wk_running s \<Longrightarrow> wk_outcome s = Some False \<Longrightarrow> mb_unacked s = m # ms \<Longrightarrow>
     worker_step prefetch handler s (s\<lparr>mb_unacked := ms, mb_dead := mb_dead s @ [m], wk_outcome := None\<rparr>)"
| w_signal: "wk_running s \<Longrightarrow> worker_step prefetch handler s (s\<lparr>wk_cancelled := True\<rparr>)"
| w_close: "wk_running s \<Longrightarrow> wk_cancelled s \<Longrightarrow> wk_outcome s = None \<Longrightarrow> worker_step prefetch handler s (give_back s)"
| w_gone: "wk_running s \<Longrightarrow> worker_step prefetch handler s (give_back s)"
| w_start: "\<not> wk_running s \<Longrightarrow> worker_step prefetch handler s (s\<lparr>wk_running := True, wk_cancelled := False\<rparr>)"

text \<open>
  A call on a cancelled context fails, so the mail handler does; the thumbnail handler does not
  look at its context.
\<close>

definition email_worker :: "user_client \<Rightarrow> world \<Rightarrow> json worker \<Rightarrow> json worker \<Rightarrow> bool" where
  "email_worker client w = worker_step 10 (\<lambda>cancelled body. \<not> cancelled \<and> is_ok (fst (email_handler client body w)))"

definition media_worker :: "'i image_lib \<Rightarrow> json worker \<Rightarrow> json worker \<Rightarrow> bool" where
  "media_worker L = worker_step 4 (\<lambda>cancelled. thumbnail_worker L)"

subsection \<open>Every message is in one place\<close>

definition places :: "'m worker \<Rightarrow> 'm multiset" where
  "places s = mset (mb_ready s) + mset (mb_unacked s) + mset (mb_acked s) + mset (mb_dead s)"

definition worker_inv :: "nat \<Rightarrow> (bool \<Rightarrow> 'm \<Rightarrow> bool) \<Rightarrow> 'm list \<Rightarrow> 'm worker \<Rightarrow> bool" where
  "worker_inv prefetch handler ms s \<longleftrightarrow> places s = mset ms \<and> length (mb_unacked s) \<le> prefetch \<and> (mb_unacked s = [] \<longrightarrow> wk_outcome s = None)
     \<and> mset (mb_acked s) + (if wk_outcome s = Some True then mset (take 1 (mb_unacked s)) else {#}) \<subseteq># mset (wk_handled s)
     \<and> (\<forall>m\<in>set (wk_handled s). \<exists>c. handler c m)
     \<and> (\<forall>m\<in>set (mb_dead s @ (if wk_outcome s = Some False then take 1 (mb_unacked s) else [])). \<exists>c. \<not> handler c m)"

lemma give_back_simps [simp]:
  "places (give_back s) = places s" "mb_unacked (give_back s) = []" "wk_outcome (give_back s) = None"
  "mb_acked (give_back s) = mb_acked s" "mb_dead (give_back s) = mb_dead s" "wk_handled (give_back s) = wk_handled s"
  by (simp_all add: give_back_def places_def)

lemma worker_inv_give_back: "worker_inv p h ms s \<Longrightarrow> worker_inv p h ms (give_back s)"
  by (auto simp: worker_inv_def intro: subset_mset.trans [rotated] split: if_splits)

lemma worker_inv_step: "worker_step p h s s' \<Longrightarrow> worker_inv p h ms s \<Longrightarrow> worker_inv p h ms s'"
proof (induction rule: worker_step.induct)
  case (w_deliver s m rest)
  then show ?case by (cases "mb_unacked s") (auto simp: worker_inv_def places_def split: if_splits)
next
  case (w_handle s m rest ok)
  have "mset (mb_acked s) + {#m#} \<subseteq># mset (wk_handled s) + {#m#}"
    using w_handle by (simp add: worker_inv_def)
  with w_handle show ?case by (cases ok) (auto simp: worker_inv_def places_def)
next
  case (w_close s)
  then show ?case by (intro worker_inv_give_back)
next
  case (w_gone s)
  then show ?case by (intro worker_inv_give_back)
qed (auto simp: worker_inv_def places_def take_Suc split: if_splits)

lemma worker_inv_reach: "(worker_step p h)\<^sup>*\<^sup>* (fresh_worker ms) s \<Longrightarrow> worker_inv p h ms s"
proof (induction rule: rtranclp_induct)
  case base
  then show ?case by (simp add: worker_inv_def fresh_worker_def places_def)
next
  case (step s s')
  then show ?case by (blast intro: worker_inv_step)
qed

subsection \<open>Stopping\<close>

lemma cancelled_run:
  assumes "0 < prefetch" and "\<And>m. m \<in> set (mb_ready s) \<Longrightarrow> \<not> handler True m"
    and "wk_running s" and "wk_cancelled s" and "wk_outcome s = None" and "mb_unacked s = []"
  shows "(worker_step prefetch handler)\<^sup>*\<^sup>* s (s\<lparr>mb_ready := [], mb_dead := mb_dead s @ mb_ready s\<rparr>)"
  using assms
proof (induction "mb_ready s" arbitrary: s)
  case (Cons m ms)
  let ?a = "s\<lparr>mb_ready := ms, mb_unacked := [m]\<rparr>"
  let ?b = "?a\<lparr>wk_outcome := Some False\<rparr>"
  let ?c = "s\<lparr>mb_ready := ms, mb_unacked := [], mb_dead := mb_dead s @ [m], wk_outcome := None\<rparr>"
  have r: "mb_ready s = m # ms" using Cons.hyps(2) by simp
  have 1: "worker_step prefetch handler s ?a" using w_deliver [of s m ms prefetch handler] Cons.prems r by simp
  have 2: "worker_step prefetch handler ?a ?b"
    using w_handle [of ?a m "[]" False handler prefetch] Cons.prems r by simp
  have 3: "worker_step prefetch handler ?b ?c"
    using w_nack [of ?b m "[]" prefetch handler] Cons.prems r by simp
  have 4: "(worker_step prefetch handler)\<^sup>*\<^sup>* ?c (?c\<lparr>mb_ready := [], mb_dead := mb_dead ?c @ mb_ready ?c\<rparr>)"
    using Cons.hyps(1) [of ?c] Cons.prems r by simp
  have e: "?c\<lparr>mb_ready := [], mb_dead := mb_dead ?c @ mb_ready ?c\<rparr> = s\<lparr>mb_ready := [], mb_dead := mb_dead s @ mb_ready s\<rparr>"
    using Cons.prems r by (cases s) simp
  show ?case
    by (rule converse_rtranclp_into_rtranclp [OF 1 converse_rtranclp_into_rtranclp [OF 2 converse_rtranclp_into_rtranclp
      [OF 3 4 [unfolded e]]]])
qed (metis append_Nil2 mailbox.surjective mailbox.update_convs(1,4) rtranclp.rtrancl_refl)

lemma signal_drops_all:
  assumes "0 < prefetch" and "\<And>m. \<not> handler True m"
  shows "\<exists>s. (worker_step prefetch handler)\<^sup>*\<^sup>* (fresh_worker ms) s \<and> mb_dead s = ms \<and> wk_handled s = []"
proof -
  let ?s = "(fresh_worker ms)\<lparr>wk_cancelled := True\<rparr>"
  let ?t = "?s\<lparr>mb_ready := [], mb_dead := mb_dead ?s @ mb_ready ?s\<rparr>"
  have "worker_step prefetch handler (fresh_worker ms) ?s"
    using w_signal [of "fresh_worker ms" prefetch handler] by (simp add: fresh_worker_def)
  moreover have "(worker_step prefetch handler)\<^sup>*\<^sup>* ?s ?t"
    by (rule cancelled_run) (use assms in \<open>simp_all add: fresh_worker_def\<close>)
  ultimately have "(worker_step prefetch handler)\<^sup>*\<^sup>* (fresh_worker ms) ?t" by (rule converse_rtranclp_into_rtranclp)
  then show ?thesis by (intro exI [of _ ?t]) (simp add: fresh_worker_def)
qed

text \<open>C34 (safety): across any number of stops, crashes and restarts of a queue's process, no message
  is lost or multiplied: each is waiting, unacknowledged, acknowledged or dead-lettered; only
  messages whose handler succeeded are acknowledged, and only messages whose handler failed are
  dead-lettered. But if the handler fails once its context is cancelled, as the mail handler does,
  the signal that stops the process can send every waiting message to the dead-letter queue.\<close>

theorem stop_loses_no_message:
  assumes "(worker_step prefetch handler)\<^sup>*\<^sup>* (fresh_worker ms) s"
  shows "mset (mb_ready s) + mset (mb_unacked s) + mset (mb_acked s) + mset (mb_dead s) = mset ms
    \<and> length (mb_unacked s) \<le> prefetch
    \<and> mset (mb_acked s) \<subseteq># mset (wk_handled s) \<and> (\<forall>m\<in>set (wk_handled s). handler False m \<or> handler True m)
    \<and> (\<forall>m\<in>set (mb_dead s). \<not> handler False m \<or> \<not> handler True m)
    \<and> (0 < prefetch \<and> (\<forall>m. \<not> handler True m) \<longrightarrow>
        (\<exists>u. (worker_step prefetch handler)\<^sup>*\<^sup>* (fresh_worker ms) u \<and> mb_dead u = ms \<and> wk_handled u = []))"
proof -
  have i: "worker_inv prefetch handler ms s" by (rule worker_inv_reach [OF assms])
  then have "mset (mb_acked s) \<subseteq># mset (wk_handled s)"
    unfolding worker_inv_def by (meson mset_subset_eq_add_left subset_mset.trans)
  moreover have "\<forall>m\<in>set (wk_handled s). handler False m \<or> handler True m"
    and "\<forall>m\<in>set (mb_dead s). \<not> handler False m \<or> \<not> handler True m"
    using i unfolding worker_inv_def by (metis (full_types), metis (full_types) UnCI set_append)
  moreover have "0 < prefetch \<and> (\<forall>m. \<not> handler True m) \<longrightarrow>
      (\<exists>u. (worker_step prefetch handler)\<^sup>*\<^sup>* (fresh_worker ms) u \<and> mb_dead u = ms \<and> wk_handled u = [])"
    by (intro impI signal_drops_all) simp_all
  ultimately show ?thesis using i unfolding worker_inv_def places_def by blast
qed

theorem stop_loses_no_message_witness:
  "\<exists>u. (worker_step 10 (\<lambda>cancelled m. \<not> cancelled \<and> even m))\<^sup>*\<^sup>* (fresh_worker [2, 4 :: nat]) u \<and> mb_dead u = [2, 4]"
  using stop_loses_no_message [OF rtranclp.rtrancl_refl, where prefetch = 10 and handler = "\<lambda>cancelled m. \<not> cancelled \<and> even m" and ms = "[2, 4 :: nat]"]
  by auto

text \<open>The two workers: every job may be dropped, but only a failing thumbnail request.\<close>

lemma mail_dropped: "\<exists>s. (email_worker client w)\<^sup>*\<^sup>* (fresh_worker jobs) s \<and> mb_dead s = jobs \<and> wk_handled s = []"
  unfolding email_worker_def by (rule signal_drops_all) simp_all

lemma thumbnails_kept:
  "(media_worker L)\<^sup>*\<^sup>* (fresh_worker reqs) s \<Longrightarrow> req \<in> set (mb_dead s) \<Longrightarrow> \<not> thumbnail_worker L req"
  using worker_inv_reach [of 4 "\<lambda>c. thumbnail_worker L" reqs s] by (auto simp: media_worker_def worker_inv_def)

end
