(* ===== verification/EventLog.thy ===== *)
theory EventLog
  imports Safety Samples
begin

text \<open>
  \<open>internal/eventbus/kafka_producer.go\<close>: events are written to the partition their key hashes to, so
  the events of one booking stay in one partition and in order; and what that partition then says
  of the booking follows its lifecycle.
\<close>

subsection \<open>The producer\<close>

fun is_failure :: "fault \<Rightarrow> bool" where
  "is_failure (Fails e) \<longleftrightarrow> True"
| "is_failure _ \<longleftrightarrow> False"

text \<open>
  A partition is a list of keys and values; \<open>ba_hash\<close> is the balancer's hash, \<open>ba_parts\<close> the number
  of partitions of a topic. The writer asks for no acknowledgement, so its answer and what the
  broker stored are independent.
\<close>

type_synonym kafka_log = "string \<times> nat \<Rightarrow> (string \<times> json) list"

record balancer =
  ba_hash :: "string \<Rightarrow> nat"
  ba_parts :: nat

definition partition_of :: "balancer \<Rightarrow> string \<Rightarrow> nat" where
  "partition_of ba key = ba_hash ba key mod ba_parts ba"

definition WriteMessages :: "balancer \<Rightarrow> gerr option \<Rightarrow> bool \<Rightarrow> string \<Rightarrow> string \<Rightarrow> json \<Rightarrow> kafka_log \<Rightarrow> gerr option \<times> kafka_log" where
  "WriteMessages ba answer stored topic key val kl =
     (answer, if stored then kl((topic, partition_of ba key) := kl (topic, partition_of ba key) @ [(key, val)]) else kl)"

definition Producer_Publish :: "balancer \<Rightarrow> gerr option \<Rightarrow> bool \<Rightarrow> string \<Rightarrow> string \<Rightarrow> json \<Rightarrow> kafka_log \<Rightarrow> gerr option \<times> kafka_log" where
  "Producer_Publish ba answer stored topic key val kl =
     (case WriteMessages ba answer stored topic key val kl of
        (Some e, kl') \<Rightarrow> (Some (Wrapped (''eventbus: publish to '' @ topic) e), kl')
      | (None, kl') \<Rightarrow> (None, kl'))"

text \<open>The log the effects of a world leave in Kafka, when it stores those with an index in \<open>S\<close>.\<close>

fun log_effect :: "balancer \<Rightarrow> effect \<Rightarrow> kafka_log \<Rightarrow> kafka_log" where
  "log_effect ba (Published topic key val) kl = snd (Producer_Publish ba None True topic key val kl)"
| "log_effect ba _ kl = kl"

definition log_of :: "balancer \<Rightarrow> nat set \<Rightarrow> world \<Rightarrow> kafka_log" where
  "log_of ba S w = fold (log_effect ba) (nths (effects w) S) (\<lambda>_. [])"

lemmas producer_defs = Producer_Publish_def WriteMessages_def

text \<open>Publishing in the world is a call of the producer; the error only says how it was answered.\<close>

lemma log_of_publish:
  assumes "io w = (f, w1)"
  shows "log_of ba S (snd (io_effect (Published topic key val) w))
    = snd (Producer_Publish ba answer (\<not> is_failure f \<and> length (effects w) \<in> S) topic key val (log_of ba S w))"
proof -
  have "effects w1 = effects w" using io_same [OF assms] by simp
  then show ?thesis using assms
    by (cases f; cases answer) (auto simp: io_effect_def log_of_def emit_def producer_defs nths_append)
qed

subsection \<open>Booking events\<close>

fun is_booking_event :: "effect \<Rightarrow> bool" where
  "is_booking_event (Published topic key val) \<longleftrightarrow> topic = TopicBookingEvents"
| "is_booking_event _ \<longleftrightarrow> False"

definition booking_events :: "world \<Rightarrow> effect list" where
  "booking_events w = filter is_booking_event (effects w)"

definition published :: "event \<Rightarrow> effect" where
  "published e = Published TopicBookingEvents (format_int (ev_booking e)) (event_json e)"

text \<open>An event tells of a booking what its row says, at the time or later.\<close>

definition tells :: "tables \<Rightarrow> event \<Rightarrow> bool" where
  "tells t e \<longleftrightarrow> (\<exists>b\<in>set (t_bookings t). bk_id b = ev_booking e \<and> evolves (ev_status e) (bk_status b))"

lemma tells_history: "tells t e \<Longrightarrow> history_ok t t' \<Longrightarrow> tells t' e"
  unfolding tells_def history_ok_def stay_of_booking_def by (metis evolves_trans option.inject prod.inject)

text \<open>
  Requests create bookings and move them, tell owners of them and create listings; whatever else
  happens keeps what all requests keep and sends nothing.
\<close>

inductive log_step :: "service \<Rightarrow> world \<Rightarrow> world \<Rightarrow> bool" for s where
  l_create: "CreateBooking s l r start finish w = (res, w') \<Longrightarrow> start mod day_ns = 0 \<Longrightarrow> finish mod day_ns = 0 \<Longrightarrow> log_step s w w'"
| l_transition: "transition s i new ty w = (res, w') \<Longrightarrow> log_step s w w'"
| l_notify: "log_step s w (notifyOwner h b w)"
| l_listing: "listing_service_Create has inp w = (res, w') \<Longrightarrow> log_step s w w'"
| l_quiet: "safe w w' \<Longrightarrow> effects w' = effects w \<Longrightarrow> log_step s w w'"

definition log_inv :: "world \<Rightarrow> bool" where
  "log_inv w \<longleftrightarrow> world_inv w \<and> replica w = None \<and> (\<exists>es. booking_events w = map published es
     \<and> sorted_wrt (\<lambda>a b. ev_booking a = ev_booking b \<longrightarrow> evolves (ev_status a) (ev_status b)) es
     \<and> (\<forall>e\<in>set es. tells (primary w) e))"

lemma row_events:
  assumes "subseq es [published (booking_event ty b now)]"
  shows "\<exists>ns. es = map published ns \<and> (ns = [] \<or> ns = [booking_event ty b now])"
proof (cases es)
  case (Cons x xs)
  with assms have "x = published (booking_event ty b now) \<and> xs = []" by (auto split: if_splits dest: list_emb_length)
  then show ?thesis using Cons by (intro exI [of _ "[booking_event ty b now]"]) simp
qed simp

lemma log_inv_append:
  assumes "log_inv w" and "safe w w'" and "booking_events w' = booking_events w @ map published ns"
    and "ns = [] \<or> (\<exists>ty b now. ns = [booking_event ty b now] \<and> b \<in> set (t_bookings (primary w')))"
  shows "log_inv w'"
proof -
  obtain es where es: "booking_events w = map published es"
      "sorted_wrt (\<lambda>a b. ev_booking a = ev_booking b \<longrightarrow> evolves (ev_status a) (ev_status b)) es" "\<forall>e\<in>set es. tells (primary w) e"
    using assms(1) by (auto simp: log_inv_def)
  have w': "world_inv w'" "replica w' = None" "history_ok (primary w) (primary w')"
    using assms(1,2) by (auto simp: log_inv_def safe_def)
  have old: "\<forall>e\<in>set es. tells (primary w') e" using es(3) w'(3) tells_history by blast
  have only: "x = y" if "x \<in> set (t_bookings (primary w'))" "y \<in> set (t_bookings (primary w'))" "bk_id x = bk_id y" for x y
    using w'(1) that by (auto simp: world_inv_def booking_inv_def wf_defs db_of_def dest: map_inj_on intro: inj_onD [OF distinct_map [THEN iffD1, THEN conjunct2]])
  have "sorted_wrt (\<lambda>a b. ev_booking a = ev_booking b \<longrightarrow> evolves (ev_status a) (ev_status b)) (es @ ns) \<and> (\<forall>e\<in>set ns. tells (primary w') e)"
    using assms(4)
  proof (elim disjE exE conjE)
    fix ty b now assume n: "ns = [booking_event ty b now]" "b \<in> set (t_bookings (primary w'))"
    have "evolves (ev_status e) (bk_status b)" if "e \<in> set es" "ev_booking e = bk_id b" for e
      using old that only n(2) unfolding tells_def by metis
    moreover have "tells (primary w') (booking_event ty b now)"
      using n(2) evolves.stay unfolding tells_def booking_event_def by auto
    ultimately show ?thesis using es(2) n(1) by (simp add: sorted_wrt_append booking_event_def)
  qed (use es(2) in simp)
  then show ?thesis using w' old es(1) assms(3) unfolding log_inv_def
    by (intro conjI exI [of _ "es @ ns"]) auto
qed

lemma booking_events_append: "effects w' = effects w @ es \<Longrightarrow> booking_events w' = booking_events w @ filter is_booking_event es"
  by (simp add: booking_events_def)

lemma filter_announcements:
  assumes "subseq es (announcements s ty b now)"
  shows "\<exists>ns. filter is_booking_event es = map published ns \<and> (ns = [] \<or> ns = [booking_event ty b now])"
proof -
  have "subseq (filter is_booking_event es) (filter is_booking_event (announcements s ty b now))"
    using assms by (rule subseq_filter)
  moreover have "subseq (filter is_booking_event (announcements s ty b now)) [published (booking_event ty b now)]"
    by (simp add: announcements_def published_def booking_event_def TopicBookingEvents_def)
  ultimately show ?thesis using row_events subseq_order.trans by blast
qed

subsection \<open>What each operation sends\<close>

lemma category_GetByID_ok: "category_GetByID i w = (Inr c, w') \<Longrightarrow> category_by_id i (reader w) = Some c"
  using sql_get_ok [of "category_by_id i" w c w'] by (simp add: category_GetByID_def)

lemma rows_found:
  "booking_by_id i t = Some b \<Longrightarrow> b \<in> set (t_bookings t)"
  "listing_by_id i t = Some l \<Longrightarrow> l \<in> set (t_listings t)"
  "category_by_id i t = Some c \<Longrightarrow> c \<in> set (t_categories t)"
  unfolding booking_by_id_def listing_by_id_def category_by_id_def by (auto dest: find_SomeD)

lemma reader_primary: "replica w = None \<Longrightarrow> reader w = primary w"
  by (simp add: reader_def)

lemma create_effects:
  assumes "CreateBooking s l r start finish w = (res, w')" and "replica w = None"
  shows "effects w' = effects w \<or> (\<exists>b now. b \<in> set (t_bookings (primary w'))
    \<and> effects w' = effects w @ [published (booking_event EventBookingCreated b now)])"
  using assms(1) unfolding CreateBooking_def
proof (cases rule: bind_res_cases)
  case (err e)
  then show ?thesis using CreateAtomic_cases(1) [OF err(1)] by (simp add: same_env_def)
next
  case (val b w1)
  let ?w2 = "invalidateListingCache s (bk_listing b) w1"
  let ?e = "booking_event EventBookingCreated b (clock ?w2)"
  have w': "w' = snd (publishEvent (sv_publisher s) ?e ?w2)" using val(2) by (simp add: Let_def)
  have env: "effects w1 = effects w" "replica w1 = None"
    using CreateAtomic_cases(1) [OF val(1)] assms(2) by (simp_all add: same_env_def)
  have "booking_by_id j (reader w1) = Some b \<Longrightarrow> b \<in> set (t_bookings (primary w1))" for j
    using rows_found(1) reader_primary [OF env(2)] by metis
  then have b: "b \<in> set (t_bookings (primary w'))"
    using CreateAtomic_cases(3) [OF val(1)] same_servers_trans [OF side_effects_same(1,2)] unfolding w'
    by (metis db_of_def prod.inject same_servers_def)
  have "effects ?w2 = effects w"
    by (simp add: env invalidateListingCache_def)
  then have "effects w' = effects w \<or> effects w' = effects w @ [published ?e]"
    using io_effect_effects [of "published ?e" ?w2] by (auto simp: w' publishEvent_def published_def)
  with b show ?thesis by blast
qed

lemma transition_sends:
  assumes "transition s i new ty w = (res, w')" and "replica w = None"
  shows "effects w' = effects w \<or> (\<exists>b es. b \<in> set (t_bookings (primary w'))
    \<and> effects w' = effects w @ es \<and> subseq es (announcements s ty b (clock w)))"
proof (cases res)
  case (Inr b)
  obtain es where es: "effects w' = effects w @ es" "subseq es (announcements s ty b (clock w))"
    and g: "booking_by_id i (reader w') = Some b"
    using transition_announces [OF assms(1)] Inr by auto
  have "replica w' = None" using transition_safe [OF assms(1)] assms(2) by (simp add: safe_def)
  then have "b \<in> set (t_bookings (primary w'))" using rows_found(1) [OF g] reader_primary by simp
  with es show ?thesis by blast
qed (use transition_announces [OF assms(1)] in simp)

lemma notify_effects:
  assumes "replica w = None"
  shows "effects (notifyOwner h b w) = effects w
    \<or> (\<exists>l\<in>set (t_listings (primary w)). effects (notifyOwner h b w) = effects w @ [OwnerPush (ls_owner l) (toResponse b)])"
proof -
  obtain r w1 where g: "listing_GetByID (bk_listing b) w = (r, w1)" by fastforce
  moreover have "effects w1 = effects w" using reads_servers(2) [OF g] by (simp add: still_def)
  moreover have "l \<in> set (t_listings (primary w))" if "r = Inr l" for l
    using listing_GetByID_ok g that reader_primary [OF assms] rows_found(2) by metis
  ultimately show ?thesis by (cases r) (auto simp: notifyOwner_def)
qed

lemma exec_effects: "sql_exec d w = (r, w') \<Longrightarrow> effects w' = effects w"
  by (erule sql_exec_cases) (simp_all add: same_env_def)

lemma writes_effects:
  "listing_Create l w = (r1, w') \<Longrightarrow> effects w' = effects w"
  "review_repo_Create v w = (r2, w') \<Longrightarrow> effects w' = effects w"
  "user_Create u w = (r3, w') \<Longrightarrow> effects w' = effects w"
  "WithinTransaction (UpsertOAuthIdentity ck p sub e n) w = (r4, w') \<Longrightarrow> effects w' = effects w"
  unfolding listing_Create_def review_repo_Create_def user_Create_def
  using oauth_tx.transaction_step(1) by (auto dest!: map_err_run dest: exec_effects simp: same_env_def)

text \<open>The event of a new listing, with the name of its category or, where that is not found, without.\<close>

definition listed :: "listing \<Rightarrow> string \<Rightarrow> effect" where
  "listed l name = Published TopicListingEvents (format_int (ls_id l)) (listing_event_json (created_event l name))"

lemma listing_publish_effects:
  "effects (snd (listing_publishEvent has (created_event l n) w)) = effects w
    \<or> effects (snd (listing_publishEvent has (created_event l n) w)) = effects w @ [listed l n]"
  using io_effect_effects [of "listed l n" w] by (auto simp: listing_publishEvent_def listed_def created_event_def)

lemma listing_service_effects:
  assumes "listing_service_Create has inp w = (res, w')" and "replica w = None"
  shows "effects w' = effects w \<or> (\<exists>l\<in>set (t_listings (primary w')).
    \<exists>n\<in>insert '''' (ca_name ` set (t_categories (primary w'))). effects w' = effects w @ [listed l n])"
  using assms(1)
proof (cases rule: listing_service_cases)
  case (stopped r w1)
  then show ?thesis using writes_effects(1) by (simp add: still_def)
next
  case (created i w1 l w2 rc w3)
  define n where "n = (case rc of Inl e \<Rightarrow> '''' | Inr c \<Rightarrow> ca_name c)"
  have w': "w' = snd (listing_publishEvent has (created_event l n) w3)" using created(4) by (simp add: n_def)
  have r: "replica w1 = None" using writes_safe(1) [OF created(1)] assms(2) by (simp add: safe_def)
  have s: "still w1 w2" "still w2 w3" using reads_servers(2) [OF created(2)] reads_servers(8) [OF created(3)] by simp_all
  then have "same_servers w1 w'" using listing_publish_servers same_servers_trans still_servers created(4) by metis
  then have p: "primary w' = primary w1" by (simp add: same_servers_def db_of_def)
  have e: "effects w3 = effects w" using s writes_effects(1) [OF created(1)] by (simp add: still_def)
  have "l \<in> set (t_listings (primary w1))"
    using rows_found(2) [OF listing_GetByID_ok [OF created(2)]] reader_primary [OF r] by simp
  moreover have "reader w2 = primary w1"
    using s(1) r by (simp add: reader_def still_def same_servers_def db_of_def)
  then have "c \<in> set (t_categories (primary w1))" if "rc = Inr c" for c
    using rows_found(3) category_GetByID_ok created(3) that by metis
  then have "n \<in> insert '''' (ca_name ` set (t_categories (primary w1)))" by (cases rc) (auto simp: n_def)
  moreover have "effects w' = effects w \<or> effects w' = effects w @ [listed l n]"
    using listing_publish_effects [of has l n w3] unfolding w' [symmetric] e .
  ultimately show ?thesis unfolding p by metis
qed simp

subsection \<open>The invariant of the booking events\<close>

lemma create_events:
  assumes "CreateBooking s l r start finish w = (res, w')" and "replica w = None"
  shows "\<exists>ns. booking_events w' = booking_events w @ map published ns
    \<and> (ns = [] \<or> (\<exists>ty b now. ns = [booking_event ty b now] \<and> b \<in> set (t_bookings (primary w'))))"
  using create_effects [OF assms]
proof (elim disjE exE conjE)
  fix b now assume b: "b \<in> set (t_bookings (primary w'))"
    and "effects w' = effects w @ [published (booking_event EventBookingCreated b now)]"
  then have "booking_events w' = booking_events w @ map published [booking_event EventBookingCreated b now]"
    by (simp add: booking_events_def published_def)
  with b show ?thesis by blast
qed (auto simp: booking_events_def)

lemma transition_events:
  assumes "transition s i new ty w = (res, w')" and "replica w = None"
  shows "\<exists>ns. booking_events w' = booking_events w @ map published ns
    \<and> (ns = [] \<or> (\<exists>ty b now. ns = [booking_event ty b now] \<and> b \<in> set (t_bookings (primary w'))))"
  using transition_sends [OF assms]
proof (elim disjE exE conjE)
  fix b es assume "b \<in> set (t_bookings (primary w'))" "effects w' = effects w @ es" "subseq es (announcements s ty b (clock w))"
  then show ?thesis using booking_events_append filter_announcements by metis
qed (auto simp: booking_events_def)

lemma log_inv_step: "log_step s w w' \<Longrightarrow> log_inv w \<Longrightarrow> log_inv w'"
proof (induction rule: log_step.induct)
  case (l_create l r start finish w res w')
  moreover have "replica w = None" using l_create.prems by (simp add: log_inv_def)
  ultimately show ?case using create_events [OF l_create.hyps(1)] log_inv_append CreateBooking_safe by metis
next
  case (l_transition i new ty w res w')
  moreover have "replica w = None" using l_transition.prems by (simp add: log_inv_def)
  ultimately show ?case using transition_events [OF l_transition.hyps] log_inv_append transition_safe by metis
next
  case (l_notify w h b)
  then have "booking_events (notifyOwner h b w) = booking_events w"
    using notify_effects [of w h b] by (auto simp: log_inv_def booking_events_def)
  then show ?case using log_inv_append [OF l_notify, of _ "[]"] safe_servers [OF notifyOwner_servers] by simp
next
  case (l_listing has inp w res w')
  then have "booking_events w' = booking_events w"
    using listing_service_effects [OF l_listing(1)]
    by (auto simp: log_inv_def booking_events_def listed_def TopicListingEvents_def TopicBookingEvents_def)
  then show ?case using log_inv_append [OF l_listing(2) listing_service_safe [OF l_listing(1)], of "[]"] by simp
next
  case (l_quiet w w')
  then show ?case using log_inv_append [of w w' "[]"] by (simp add: booking_events_def)
qed

subsection \<open>What the partition of a booking says\<close>

fun entry_of :: "effect \<Rightarrow> string \<times> json" where
  "entry_of (Published topic key val) = (key, val)"
| "entry_of _ = ('''', JNull)"

fun goes_to :: "balancer \<Rightarrow> string \<times> nat \<Rightarrow> effect \<Rightarrow> bool" where
  "goes_to ba tp (Published topic key val) \<longleftrightarrow> tp = (topic, partition_of ba key)"
| "goes_to ba tp _ \<longleftrightarrow> False"

lemma log_of_entries: "log_of ba S w tp = map entry_of (filter (goes_to ba tp) (nths (effects w) S))"
proof -
  have "fold (log_effect ba) es kl tp = kl tp @ map entry_of (filter (goes_to ba tp) es)" for es kl
  proof (induction es arbitrary: kl)
    case (Cons e es)
    show ?case by (cases e) (simp_all add: Cons.IH producer_defs)
  qed simp
  then show ?thesis by (simp add: log_of_def)
qed

text \<open>One partition holds everything of a key, in the order in which it was published.\<close>

lemma key_in_one_partition: "(key, val) \<in> set (log_of ba S w (topic, p)) \<Longrightarrow> p = partition_of ba key"
  unfolding log_of_entries by (auto elim!: goes_to.elims)

lemma subseq_of_map: "subseq xs (map f ys) \<Longrightarrow> \<exists>zs. subseq zs ys \<and> xs = map f zs"
  by (auto simp: subseq_conv_nths nths_map)

lemma sorted_wrt_subseq: "subseq xs ys \<Longrightarrow> sorted_wrt P ys \<Longrightarrow> sorted_wrt P xs"
  by (induction rule: list_emb.induct) (auto dest: list_emb_set)

lemma partition_of_booking:
  assumes "booking_events w = map published es"
  shows "\<exists>fs. subseq fs es \<and> filter (\<lambda>(k, v). k = format_int i) (log_of ba S w (TopicBookingEvents, partition_of ba (format_int i)))
    = map (\<lambda>e. (format_int i, event_json e)) (filter (\<lambda>e. ev_booking e = i) fs)"
proof -
  have "subseq (filter is_booking_event (nths (effects w) S)) (filter is_booking_event (effects w))"
    by (intro subseq_filter) (auto simp: subseq_conv_nths)
  then obtain fs where fs: "subseq fs es" "filter is_booking_event (nths (effects w) S) = map published fs"
    using subseq_of_map assms unfolding booking_events_def by metis
  have "filter (\<lambda>(k, v). k = format_int i) (map entry_of (filter (goes_to ba (TopicBookingEvents, partition_of ba (format_int i))) xs))
      = map entry_of (filter (\<lambda>x. fst (entry_of x) = format_int i) (filter is_booking_event xs))" for xs
  proof (induction xs)
    case (Cons x xs)
    then show ?case by (cases x) auto
  qed simp
  from this [of "nths (effects w) S"]
  have "filter (\<lambda>(k, v). k = format_int i) (log_of ba S w (TopicBookingEvents, partition_of ba (format_int i)))
      = map entry_of (filter (\<lambda>x. fst (entry_of x) = format_int i) (map published fs))"
    by (simp only: log_of_entries fs(2))
  also have "\<dots> = map (\<lambda>e. (format_int i, event_json e)) (filter (\<lambda>e. ev_booking e = i) fs)"
    by (induction fs) (simp_all add: published_def format_int_inj)
  finally show ?thesis using fs(1) by blast
qed

text \<open>Everything of a booking is in one partition, along its lifecycle, and ends before its status.\<close>

lemma log_runs_follow_lifecycle:
  assumes "(log_step s)\<^sup>*\<^sup>* w w'" and "world_inv w" and "replica w = None" and "booking_events w = []"
  shows "(\<exists>es. filter (\<lambda>(k, v). k = format_int i) (log_of ba S w' (TopicBookingEvents, partition_of ba (format_int i)))
        = map (\<lambda>e. (format_int i, event_json e)) es
      \<and> sorted_wrt (\<lambda>a b. evolves (ev_status a) (ev_status b)) es
      \<and> (\<forall>e\<in>set es. \<exists>b\<in>set (t_bookings (primary w')). bk_id b = i \<and> evolves (ev_status e) (bk_status b)))
    \<and> (\<forall>p v. (format_int i, v) \<in> set (log_of ba S w' (TopicBookingEvents, p)) \<longrightarrow> p = partition_of ba (format_int i))"
proof -
  have "log_inv w'" using assms(1)
  proof (induction rule: rtranclp_induct)
    case base
    then show ?case using assms(2-4) by (simp add: log_inv_def)
  next
    case (step y z)
    then show ?case by (blast intro: log_inv_step)
  qed
  then obtain es where es: "booking_events w' = map published es"
      "sorted_wrt (\<lambda>a b. ev_booking a = ev_booking b \<longrightarrow> evolves (ev_status a) (ev_status b)) es" "\<forall>e\<in>set es. tells (primary w') e"
    by (auto simp: log_inv_def)
  obtain fs where fs: "subseq fs es" "filter (\<lambda>(k, v). k = format_int i) (log_of ba S w' (TopicBookingEvents, partition_of ba (format_int i)))
      = map (\<lambda>e. (format_int i, event_json e)) (filter (\<lambda>e. ev_booking e = i) fs)"
    using partition_of_booking [OF es(1)] by blast
  have "sorted_wrt (\<lambda>a b. evolves (ev_status a) (ev_status b)) (filter (\<lambda>e. ev_booking e = i) fs)"
    using sorted_wrt_subseq [OF fs(1) es(2)] by (induction fs) auto
  moreover have "\<forall>e\<in>set (filter (\<lambda>e. ev_booking e = i) fs).
      \<exists>b\<in>set (t_bookings (primary w')). bk_id b = i \<and> evolves (ev_status e) (bk_status b)"
    using es(3) list_emb_set [OF fs(1)] by (fastforce simp: tells_def)
  ultimately show ?thesis using fs(2) key_in_one_partition by blast
qed

end
