(* ===== verification/EventRuns.thy ===== *)
theory EventRuns
  imports EventLog System
begin

text \<open>
  Every step of the whole API is a run of the steps of \<open>EventLog\<close>: requests create or move bookings,
  create listings, tell owners or send nothing. So what holds of the sent along these steps
  holds for the whole API.
\<close>

definition logged_handler :: "service \<Rightarrow> handler \<Rightarrow> bool" where
  "logged_handler s h \<longleftrightarrow> (\<forall>r w resp w'. h r w = (resp, w') \<longrightarrow> (log_step s)\<^sup>*\<^sup>* w w')"

lemma logged_handlerI: "(\<And>r w resp w'. h r w = (resp, w') \<Longrightarrow> (log_step s)\<^sup>*\<^sup>* w w') \<Longrightarrow> logged_handler s h"
  by (simp add: logged_handler_def)

subsection \<open>Steps that send nothing\<close>

lemma effects_logged: "safe w w' \<Longrightarrow> effects w' = effects w \<Longrightarrow> (log_step s)\<^sup>*\<^sup>* w w'"
  by (intro r_into_rtranclp l_quiet)

lemma untouched_logged: "untouched w w' \<Longrightarrow> (log_step s)\<^sup>*\<^sup>* w w'"
  using effects_logged safe_untouched by (simp add: untouched_def)

lemma quiet_logged: "quiet h \<Longrightarrow> logged_handler s h"
  unfolding quiet_def logged_handler_def using untouched_logged by blast

context guard
begin

lemma guard_logged: "logged_handler s h \<Longrightarrow> logged_handler s (g h)"
  unfolding logged_handler_def using hands_on untouched_logged [OF untouched_still] rtranclp_trans [of "log_step s"]
  by (metis prod.collapse snd_conv)

end

subsection \<open>The handlers\<close>

lemma notifyOwner_logged: "(log_step s)\<^sup>*\<^sup>* w (notifyOwner h b w)"
  by (intro r_into_rtranclp l_notify)

lemma Create_logged: "logged_handler (bh_service h) (\<lambda>r w. Create h r body w)"
proof (rule logged_handlerI)
  fix r w resp w' assume f: "Create h r body w = (resp, w')"
  show "(log_step (bh_service h))\<^sup>*\<^sup>* w w'"
  proof (cases "\<exists>cl req st fi. rq_claims r = Some cl \<and> body = Some req \<and> parse_date (cr_start req) = Some st \<and> parse_date (cr_end req) = Some fi")
    case True
    then obtain cl req st fi where c: "rq_claims r = Some cl" "body = Some req" "parse_date (cr_start req) = Some st"
      "parse_date (cr_end req) = Some fi" by blast
    obtain res w1 where b: "CreateBooking (bh_service h) (cr_listing req) (cl_user cl) st fi w = (res, w1)" by fastforce
    have s: "log_step (bh_service h) w w1"
      by (rule l_create [OF b]) (use parse_date_format [OF c(3)] parse_date_format [OF c(4)] in simp_all)
    have "w' = w \<or> w' = w1 \<or> (\<exists>bk. w' = notifyOwner h bk w1)"
      using f c b by (cases res) (auto simp: Create_def split: if_splits)
    then show ?thesis using s notifyOwner_logged [of "bh_service h" w1 h] by (auto intro: converse_rtranclp_into_rtranclp)
  next
    case False
    then show ?thesis using f by (auto simp: Create_def split: option.splits)
  qed
qed

lemma transitionHandler_logged:
  assumes "\<And>i w res w'. step i w = (res, w') \<Longrightarrow> log_step s w w'"
  shows "logged_handler s (transitionHandler step h)"
proof (rule logged_handlerI)
  fix r w resp w' assume f: "transitionHandler step h r w = (resp, w')"
  show "(log_step s)\<^sup>*\<^sup>* w w'"
  proof (cases "parse_int64 (rq_id r)")
    case (Inr i)
    obtain res w1 where b: "step i w = (res, w1)" by fastforce
    then have "w' = w1 \<or> (\<exists>bk. w' = notifyOwner h bk w1)"
      using f Inr by (cases res) (auto simp: transitionHandler_def split: if_splits)
    then show ?thesis using assms [OF b] notifyOwner_logged [of s w1 h] by (auto intro: converse_rtranclp_into_rtranclp)
  qed (use f in \<open>simp add: transitionHandler_def\<close>)
qed

lemma status_logged:
  "logged_handler (bh_service h) (Approve_handler h)" "logged_handler (bh_service h) (Reject_handler h)"
  "logged_handler (bh_service h) (Cancel_handler h)" "logged_handler (bh_service h) (Activate_handler h)"
  "logged_handler (bh_service h) (Complete_handler h)"
  unfolding transition_handlers transition_ops by (rule transitionHandler_logged, erule l_transition)+

lemma Dispute_logged: "logged_handler s (Dispute_handler s reports body)"
proof (rule logged_handlerI)
  fix r w resp w' assume f: "Dispute_handler s reports body r w = (resp, w')"
  have D: "Dispute s i w = (res, w1) \<Longrightarrow> (log_step s)\<^sup>*\<^sup>* w w1" for i res w1
    unfolding transition_ops by (blast intro: l_transition)
  show "(log_step s)\<^sup>*\<^sup>* w w'"
    using f unfolding Dispute_handler_def
    by (auto split: option.splits sum.splits prod.splits if_splits dest: D)
qed

lemma listing_create_logged: "logged_handler s (listing_create_handler h body)"
proof (rule logged_handlerI)
  fix r w resp w' assume f: "listing_create_handler h body r w = (resp, w')"
  then show "(log_step s)\<^sup>*\<^sup>* w w'"
    by (auto simp: listing_create_handler_def dest!: l_listing [of _ _ _ _ _ s] split: option.splits prod.splits sum.splits if_splits)
qed

lemma review_logged: "logged_handler s (review_handler body)"
proof (rule logged_handlerI)
  fix r w resp w' assume f: "review_handler body r w = (resp, w')"
  have "effects w' = effects w"
    using f by (auto simp: review_handler_def review_Create_def Let_def dest!: writes_effects(2)
      elim!: bind_res_cases split: option.splits prod.splits sum.splits if_splits)
  then show "(log_step s)\<^sup>*\<^sup>* w w'" using effects_logged review_safe f unfolding safe_handler_def by blast
qed

lemma Register_effects: "Register us inp w = (res, w') \<Longrightarrow> effects w' = effects w"
  by (auto simp: Register_def Let_def dest!: writes_effects(3) elim!: bind_res_cases split: sum.splits)

lemma Register_logged: "logged_handler s (\<lambda>r. Register_handler us body)"
proof (rule logged_handlerI)
  fix r :: http_req and w resp w' assume f: "Register_handler us body w = (resp, w')"
  have "effects w' = effects w"
    using f by (auto simp: Register_handler_def Let_def dest!: Register_effects split: option.splits prod.splits sum.splits if_splits)
  then show "(log_step s)\<^sup>*\<^sup>* w w'" using effects_logged Register_safe f unfolding safe_handler_def by blast
qed

lemma oauth_Callback_logged: "logged_handler s (oauth_Callback h)"
proof (rule logged_handlerI)
  fix r w resp w' assume f: "oauth_Callback h r w = (resp, w')"
  have "effects w' = effects w"
    using f unfolding oauth_Callback_def
    by (auto split: option.splits sum.splits prod.splits if_splits dest!: writes_effects(4) reads_servers(3) simp: still_def)
  then show "(log_step s)\<^sup>*\<^sup>* w w'" using effects_logged oauth_Callback_safe f unfolding safe_handler_def by blast
qed

subsection \<open>Polls\<close>

lemma pass_logged: "(log_step s)\<^sup>*\<^sup>* v (pass d v)"
  by (rule untouched_logged) (simp add: pass_def)

lemma poll_loop_logged:
  assumes "poll_loop env since i c e n w = (resp, t, m, w')" and "\<And>k v. (log_step s)\<^sup>*\<^sup>* v (pe_others env k v)"
  shows "(log_step s)\<^sup>*\<^sup>* w w'"
  using assms
proof (induction env since i c e n w arbitrary: resp t m w' rule: poll_loop.induct)
  case (1 env since i c e n w)
  note T = rtranclp_trans [of "log_step s"]
  let ?e1 = "e + pe_delay env n"
  let ?w0 = "pass (pe_delay env n) (pe_others env n w)"
  have w0: "(log_step s)\<^sup>*\<^sup>* w ?w0" using T [OF 1(3) pass_logged] .
  obtain rb w1 where g: "GetByID i ?w0 = (rb, w1)" by fastforce
  have w1: "(log_step s)\<^sup>*\<^sup>* w w1" using T [OF w0 untouched_logged [OF untouched_still [OF reads_servers(1) [OF g]]]] .
  obtain t1 c1 where nt: "next_tick c ?e1 = (t1, c1)" by fastforce
  show ?case
  proof (cases "poll_timeout \<le> ?e1 \<or> \<not> is_ok rb \<or> (\<exists>b. rb = Inr b \<and> since < unix_milli (bk_updated b))")
    case True
    then show ?thesis using 1(2) g w0 w1
      by (cases rb) (auto simp: poll_loop.simps [of env since i c e n w] Let_def is_ok_iff split: if_splits)
  next
    case False
    then obtain b where b: "\<not> poll_timeout \<le> ?e1" "rb = Inr b" "\<not> since < unix_milli (bk_updated b)"
      by (auto simp: is_ok_iff)
    show ?thesis
    proof (cases "t1 < poll_timeout \<or> t1 = poll_timeout \<and> pe_tick_wins env")
      case True
      then have "poll_loop env since i c1 t1 (Suc n) (pass (t1 - ?e1) w1) = (resp, t, m, w')"
        using 1(2) g b nt by (simp add: poll_loop.simps [of env since i c e n w] Let_def)
      moreover have "(log_step s)\<^sup>*\<^sup>* (pass (t1 - ?e1) w1) w'"
        by (rule 1(1) [OF refl refl b(1) g [symmetric] _ b(3) _ _ _ 1(3)]) (use b nt True calculation in auto)
      ultimately show ?thesis using T [OF T [OF w1 pass_logged]] by blast
    next
      case False
      then have "w' = pass (poll_timeout - ?e1) w1"
        using 1(2) g b nt by (auto simp: poll_loop.simps [of env since i c e n w] Let_def split: if_splits)
      then show ?thesis using T [OF w1 pass_logged] by simp
    qed
  qed
qed

lemma poll_logged:
  assumes "\<And>k v. (log_step s)\<^sup>*\<^sup>* v (pe_others env k v)"
  shows "logged_handler s (poll_handler env)"
  by (rule logged_handlerI)
    (auto simp: poll_handler_def Poll_def Let_def split: sum.splits prod.splits dest!: poll_loop_logged [OF _ assms])

subsection \<open>The whole API\<close>

lemma protected_logged:
  assumes "protected_route a rt = Some h" and "\<forall>env. rt \<noteq> GetPoll env"
  shows "logged_handler (bh_service (ap_bookings a)) h"
proof -
  have reads: "logged_handler s ListMine" "logged_handler s Get" for s by (simp_all add: quiet_logged quiet_handlers)
  show ?thesis
    using assms by (cases rt)
      (auto simp: listing_create_logged Create_logged status_logged review_logged Dispute_logged reads)
qed

lemma serve_logged:
  assumes "serve (with_redis_limits ip a) rt r w = (resp, w')" and "remote_quiet (ap_search a)"
    and "\<And>h. protected_route a rt = Some h \<Longrightarrow> logged_handler s h"
  shows "(log_step s)\<^sup>*\<^sup>* w w'"
proof (cases "protected_route a rt")
  case (Some h)
  have "logged_handler s (Middleware 300 (60 * second) (ResolveClientIP ip) (RequireJWT (ap_jwt a) (ap_issuer a) h))"
    by (intro limiter.guard_logged jwt.guard_logged assms(3) Some)
  then show ?thesis
    using serve_snd [of "with_redis_limits ip a" rt r w] Some assms(1)
    unfolding logged_handler_def by (simp, metis prod.collapse snd_conv)
next
  case None
  have "logged_handler s (open_route (with_redis_limits ip a) rt)"
  proof (cases "(\<exists>b. rt = PostRegister b) \<or> rt = OAuthCallback")
    case True
    then show ?thesis
      by (auto simp: with_redis_limits_def Register_logged oauth_Callback_logged quiet_handlers quiet_logged
          intro!: limiter.guard_logged split: option.splits)
  next
    case False
    then show ?thesis by (intro quiet_logged open_route_quiet assms(2)) auto
  qed
  then show ?thesis
    using serve_snd [of "with_redis_limits ip a" rt r w] None assms(1)
    unfolding logged_handler_def by (simp, metis prod.collapse snd_conv)
qed

lemma runs_logged: "R\<^sup>*\<^sup>* v v' \<Longrightarrow> (\<And>x y. R x y \<Longrightarrow> (log_step s)\<^sup>*\<^sup>* x y) \<Longrightarrow> (log_step s)\<^sup>*\<^sup>* v v'"
  by (induction rule: rtranclp_induct) (auto intro: rtranclp_trans)

lemma system_step_logged:
  assumes "system_step (with_redis_limits ip a) w w'" and "remote_quiet (ap_search a)"
  shows "(log_step (bh_service (ap_bookings a)))\<^sup>*\<^sup>* w w'"
  using assms(1)
proof (induction rule: system_step.induct)
  case (request rt r w resp w')
  show ?case by (rule serve_logged [OF request(1) assms(2)]) (use protected_logged request(2) in blast)
next
  case (poll env r w resp w')
  let ?L = "(log_step (bh_service (ap_bookings a)))\<^sup>*\<^sup>*"
  have "?L v (pe_others env k v)" for k v
    by (rule runs_logged [of "\<lambda>x y. system_step (with_redis_limits ip a) x y \<and> ?L x y"]) (use poll(2) in auto)
  then have "logged_handler (bh_service (ap_bookings a)) (poll_handler env)" by (rule poll_logged)
  then show ?case by (intro serve_logged [OF poll(1) assms(2)]) simp
next
  case (replicated w old new)
  then show ?case by (intro effects_logged) (simp_all add: safe_def world_inv_def db_of_def)
next
  case (failures w fs js)
  show ?case by (rule untouched_logged) (simp add: untouched_def db_of_def)
qed (simp_all add: untouched_logged)

text \<open>C6 (refinement): in every run of the whole API, whatever is requested, whatever fails and
  whatever Kafka loses, as long as reads see the primary: all events of a booking are in one
  partition of the topic, and there they follow each other along the booking's lifecycle and end
  before its present status; so a consumer that handles that partition in order never sees a status
  that could not follow the previous one.\<close>

theorem booking_log_follows_lifecycle:
  assumes "(system_step (with_redis_limits ip a))\<^sup>*\<^sup>* w w'" and "remote_quiet (ap_search a)"
    and "world_inv w" and "replica w = None" and "booking_events w = []"
  shows "(\<exists>es. filter (\<lambda>(k, v). k = format_int i) (log_of ba S w' (TopicBookingEvents, partition_of ba (format_int i)))
        = map (\<lambda>e. (format_int i, event_json e)) es
      \<and> sorted_wrt (\<lambda>a b. evolves (ev_status a) (ev_status b)) es
      \<and> (\<forall>e\<in>set es. \<exists>b\<in>set (t_bookings (primary w')). bk_id b = i \<and> evolves (ev_status e) (bk_status b)))
    \<and> (\<forall>p v. (format_int i, v) \<in> set (log_of ba S w' (TopicBookingEvents, p)) \<longrightarrow> p = partition_of ba (format_int i))"
  by (rule log_runs_follow_lifecycle [OF runs_logged [OF assms(1) system_step_logged [OF _ assms(2)]] assms(3-5)])

text \<open>The samples' deployment with a library that takes every token for the owner's.\<close>

definition signed_app :: app where
  "signed_app = sample_app\<lparr>ap_jwt := \<lparr>SignedString = (\<lambda>s c. Inr ''t''),
     ParseWithClaims = (\<lambda>n kf t. Inr (\<lparr>jc_user = 2, jc_role = ''owner'', jc_issuer = ''gearshare-api'', jc_issued = 0, jc_expires = 900 * second\<rparr>, True))\<rparr>\<rparr>"

theorem booking_log_follows_lifecycle_witness:
  "case serve (with_redis_limits rq_remote signed_app) PostApprove ((sample_req ''1'')\<lparr>rq_headers := [(''Authorization'', ''Bearer t'')]\<rparr>) sample_world of
     (resp, w') \<Rightarrow>
     \<exists>es. filter (\<lambda>(k, v). k = ''1'') (log_of \<lparr>ba_hash = length, ba_parts = 3\<rparr> UNIV w' (TopicBookingEvents, 1))
         = map (\<lambda>e. (''1'', event_json e)) es
       \<and> sorted_wrt (\<lambda>a b. evolves (ev_status a) (ev_status b)) es"
proof -
  obtain resp w' where t: "serve (with_redis_limits rq_remote signed_app) PostApprove
      ((sample_req ''1'')\<lparr>rq_headers := [(''Authorization'', ''Bearer t'')]\<rparr>) sample_world = (resp, w')"
    by fastforce
  have "system_step (with_redis_limits rq_remote signed_app) sample_world w'" by (rule request [OF t]) simp
  moreover have "remote_quiet (ap_search signed_app)" using sample_remote by (simp add: signed_app_def)
  moreover have "replica sample_world = None" "booking_events sample_world = []"
    by (simp_all add: booking_events_def sample_world_def world_of_def)
  moreover have "format_int 1 = ''1''" by code_simp
  ultimately show ?thesis
    using booking_log_follows_lifecycle [OF r_into_rtranclp _ sample_inv, of rq_remote signed_app w' 1 "\<lparr>ba_hash = length, ba_parts = 3\<rparr>" UNIV] t
    by (auto simp: partition_of_def)
qed

end
