(* ===== verification/Metrics.thy ===== *)
theory Metrics
  imports Responses
begin

text \<open>
  \<open>internal/observability/metrics.go\<close>: the middleware that counts requests by method, route and
  status, over \<open>net/http\<close>'s response writer, whose rules decide which status is sent.
\<close>

subsection \<open>The writer of \<open>net/http\<close>\<close>

text \<open>The status line sent, the body, and whether the connection was taken over.\<close>

record wire =
  wi_sent :: "int option"
  wi_body :: string
  wi_taken :: bool

definition new_wire :: wire where
  "new_wire = \<lparr>wi_sent = None, wi_body = '''', wi_taken = False\<rparr>"

text \<open>An impossible status panics; an informational one is sent ahead and decides nothing; the first other one counts.\<close>

definition net_WriteHeader :: "int \<Rightarrow> wire \<Rightarrow> wire option" where
  "net_WriteHeader s wi =
     (if wi_taken wi \<or> wi_sent wi \<noteq> None then Some wi
      else if s < 100 \<or> 999 < s then None
      else if s < 200 \<and> s \<noteq> 101 then Some wi
      else Some (wi\<lparr>wi_sent := Some s\<rparr>))"

definition net_Flush :: "wire \<Rightarrow> wire" where
  "net_Flush wi = (if wi_taken wi \<or> wi_sent wi \<noteq> None then wi else wi\<lparr>wi_sent := Some 200\<rparr>)"

definition body_allowed :: "int option \<Rightarrow> bool" where
  "body_allowed s \<longleftrightarrow> (case s of None \<Rightarrow> True | Some n \<Rightarrow> 200 \<le> n \<and> n \<noteq> 204 \<and> n \<noteq> 304)"

definition net_Write :: "string \<Rightarrow> wire \<Rightarrow> wire" where
  "net_Write b wi =
     (if wi_taken wi then wi
      else let wi1 = net_Flush wi in if body_allowed (wi_sent wi1) then wi1\<lparr>wi_body := wi_body wi1 @ b\<rparr> else wi1)"

text \<open>Only some writers are hijackers; HTTP/2 has none.\<close>

definition net_Hijack :: "wire \<Rightarrow> gerr option \<times> wire" where
  "net_Hijack wi = (if wi_taken wi then (Some (OtherErr ''http: connection has been hijacked''), wi)
     else (None, wi\<lparr>wi_taken := True\<rparr>))"

text \<open>When the handler returns without a word the server sends 200.\<close>

definition net_finish :: "wire \<Rightarrow> wire" where
  "net_finish wi = net_Flush wi"

subsection \<open>The recorder\<close>

record statusRecorder =
  rc_wire :: wire
  rc_status :: int
  rc_hijacker :: bool
  rc_flusher :: bool

definition recorder_WriteHeader :: "int \<Rightarrow> statusRecorder \<Rightarrow> statusRecorder option" where
  "recorder_WriteHeader s r =
     (let r1 = r\<lparr>rc_status := s\<rparr>
      in case net_WriteHeader s (rc_wire r1) of None \<Rightarrow> None | Some wi \<Rightarrow> Some (r1\<lparr>rc_wire := wi\<rparr>))"

definition recorder_Hijack :: "statusRecorder \<Rightarrow> gerr option \<times> statusRecorder" where
  "recorder_Hijack r =
     (if \<not> rc_hijacker r then (Some (OtherErr ''observability: underlying ResponseWriter does not support Hijack''), r)
      else case net_Hijack (rc_wire r) of (e, wi) \<Rightarrow> (e, r\<lparr>rc_wire := wi\<rparr>))"

definition recorder_Flush :: "statusRecorder \<Rightarrow> statusRecorder" where
  "recorder_Flush r = (if rc_flusher r then r\<lparr>rc_wire := net_Flush (rc_wire r)\<rparr> else r)"

text \<open>\<open>Write\<close> is the embedded writer's, so an implicit 200 passes the recorder by.\<close>

definition recorder_Write :: "string \<Rightarrow> statusRecorder \<Rightarrow> statusRecorder" where
  "recorder_Write b r = r\<lparr>rc_wire := net_Write b (rc_wire r)\<rparr>"

text \<open>A handler is what it does to its writer; \<open>None\<close> is its panic.\<close>

datatype call = CWriteHeader int | CWrite string | CFlush | CHijack | CPanic

fun perform :: "call \<Rightarrow> statusRecorder \<Rightarrow> statusRecorder option" where
  "perform (CWriteHeader s) r = recorder_WriteHeader s r"
| "perform (CWrite b) r = Some (recorder_Write b r)"
| "perform CFlush r = Some (recorder_Flush r)"
| "perform CHijack r = Some (snd (recorder_Hijack r))"
| "perform CPanic r = None"

fun perform_all :: "call list \<Rightarrow> statusRecorder \<Rightarrow> bool \<times> statusRecorder" where
  "perform_all [] r = (True, r)"
| "perform_all (c # cs) r = (case perform c r of None \<Rightarrow> (False, r) | Some r' \<Rightarrow> perform_all cs r')"

subsection \<open>The middleware\<close>

record metrics =
  mt_requests :: "string \<times> string \<times> string \<Rightarrow> nat"
  mt_durations :: "string \<times> string \<Rightarrow> int list"

definition no_metrics :: metrics where
  "no_metrics = \<lparr>mt_requests = (\<lambda>_. 0), mt_durations = (\<lambda>_. [])\<rparr>"

definition count_request :: "string \<times> string \<times> string \<Rightarrow> metrics \<Rightarrow> metrics" where
  "count_request l m = m\<lparr>mt_requests := (mt_requests m)(l := Suc (mt_requests m l))\<rparr>"

definition observe_duration :: "string \<times> string \<Rightarrow> int \<Rightarrow> metrics \<Rightarrow> metrics" where
  "observe_duration l d m = m\<lparr>mt_durations := (mt_durations m)(l := mt_durations m l @ [d])\<rparr>"

text \<open>\<open>rctx\<close> is the pattern in chi's route context, if there is one.\<close>

definition routePattern :: "string option \<Rightarrow> string \<Rightarrow> string" where
  "routePattern rctx path = (case rctx of Some pattern \<Rightarrow> if pattern \<noteq> '''' then pattern else path | None \<Rightarrow> path)"

record exchange =
  ex_method :: string
  ex_rctx :: "string option"
  ex_path :: string
  ex_calls :: "call list"
  ex_start :: time
  ex_finish :: time

text \<open>\<open>False\<close> says that the handler's panic goes on outwards, past the counters.\<close>

definition HTTPMiddleware :: "bool \<times> bool \<Rightarrow> exchange \<Rightarrow> wire \<Rightarrow> metrics \<Rightarrow> bool \<times> wire \<times> metrics" where
  "HTTPMiddleware caps x wi m =
     (case perform_all (ex_calls x) \<lparr>rc_wire = wi, rc_status = 200, rc_hijacker = fst caps, rc_flusher = snd caps\<rparr> of
        (False, r) \<Rightarrow> (False, rc_wire r, m)
      | (True, r) \<Rightarrow>
          let route = routePattern (ex_rctx x) (ex_path x)
          in (True, rc_wire r, observe_duration (ex_method x, route) (ex_finish x - ex_start x)
               (count_request (ex_method x, route, format_int (rc_status r)) m)))"

text \<open>What the client gets: the server finishes the answer, or \<open>recover\<close> does after a panic.\<close>

definition answer :: "(wire \<Rightarrow> wire) \<Rightarrow> bool \<times> bool \<Rightarrow> exchange \<Rightarrow> metrics \<Rightarrow> wire \<times> metrics" where
  "answer recover caps x m =
     (case HTTPMiddleware caps x new_wire m of
        (False, wi, m') \<Rightarrow> (recover wi, m') | (True, wi, m') \<Rightarrow> (net_finish wi, m'))"

fun answer_all :: "(wire \<Rightarrow> wire) \<Rightarrow> bool \<times> bool \<Rightarrow> exchange list \<Rightarrow> metrics \<Rightarrow> wire list \<times> metrics" where
  "answer_all recover caps [] m = ([], m)"
| "answer_all recover caps (x # xs) m =
     (case answer recover caps x m of (wi, m1) \<Rightarrow>
      case answer_all recover caps xs m1 of (ws, m2) \<Rightarrow> (wi # ws, m2))"

subsection \<open>The status counted\<close>

text \<open>The status of the last \<open>WriteHeader\<close>, and whether a handler gets to its end.\<close>

definition recorded :: "call list \<Rightarrow> int" where
  "recorded cs = last (200 # concat (map (\<lambda>c. case c of CWriteHeader s \<Rightarrow> [s] | _ \<Rightarrow> []) cs))"

definition returns :: "bool \<times> bool \<Rightarrow> exchange \<Rightarrow> bool" where
  "returns caps x = fst (HTTPMiddleware caps x new_wire no_metrics)"

definition label_of :: "exchange \<Rightarrow> string \<times> string \<times> string" where
  "label_of x = (ex_method x, routePattern (ex_rctx x) (ex_path x), format_int (recorded (ex_calls x)))"

lemma perform_recorded:
  "perform c r = Some r' \<Longrightarrow> rc_status r' = (case c of CWriteHeader s \<Rightarrow> s | _ \<Rightarrow> rc_status r)"
  by (cases c) (auto simp: recorder_WriteHeader_def recorder_Write_def recorder_Flush_def recorder_Hijack_def net_Hijack_def
      Let_def split: option.splits if_splits)

lemma perform_all_recorded:
  "perform_all cs r = (True, r') \<Longrightarrow> rc_status r' = last (rc_status r # concat (map (\<lambda>c. case c of CWriteHeader s \<Rightarrow> [s] | _ \<Rightarrow> []) cs))"
proof (induction cs arbitrary: r)
  case (Cons c cs)
  then obtain r1 where r1: "perform c r = Some r1" "perform_all cs r1 = (True, r')" by (auto split: option.splits)
  show ?case using Cons.IH [OF r1(2)] perform_recorded [OF r1(1)] by (auto split: call.splits)
qed simp

lemma HTTPMiddleware_counts:
  "snd (snd (HTTPMiddleware caps x wi m)) = (if fst (HTTPMiddleware caps x wi m)
     then observe_duration (ex_method x, routePattern (ex_rctx x) (ex_path x)) (ex_finish x - ex_start x) (count_request (label_of x) m) else m)"
  by (auto simp: HTTPMiddleware_def label_of_def recorded_def Let_def dest!: perform_all_recorded split: prod.splits bool.splits)

lemma HTTPMiddleware_returns: "fst (HTTPMiddleware caps x new_wire m) = returns caps x"
  by (simp add: returns_def HTTPMiddleware_def Let_def split: prod.splits bool.splits)

lemma answer_counts:
  "snd (answer recover caps x m) = (if returns caps x
     then observe_duration (ex_method x, routePattern (ex_rctx x) (ex_path x)) (ex_finish x - ex_start x) (count_request (label_of x) m) else m)"
  using HTTPMiddleware_counts [of caps x new_wire m] HTTPMiddleware_returns [of caps x m]
  by (auto simp: answer_def split: prod.splits bool.splits)

lemma answer_all_Cons: "snd (answer_all recover caps (x # xs) m) = snd (answer_all recover caps xs (snd (answer recover caps x m)))"
  by (simp split: prod.splits)

lemma answer_all_requests:
  "mt_requests (snd (answer_all recover caps xs m)) l = mt_requests m l + length (filter (\<lambda>x. returns caps x \<and> label_of x = l) xs)"
proof (induction xs arbitrary: m)
  case (Cons x xs)
  show ?case unfolding answer_all_Cons Cons.IH answer_counts by (auto simp: count_request_def observe_duration_def)
qed simp

lemma answer_all_durations:
  "mt_durations (snd (answer_all recover caps xs m)) l = mt_durations m l @ map (\<lambda>x. ex_finish x - ex_start x)
     (filter (\<lambda>x. returns caps x \<and> (ex_method x, routePattern (ex_rctx x) (ex_path x)) = l) xs)"
proof (induction xs arbitrary: m)
  case (Cons x xs)
  show ?case unfolding answer_all_Cons Cons.IH answer_counts by (auto simp: count_request_def observe_duration_def)
qed simp

text \<open>Every unmatched path adds series of its own, as many as there are different paths.\<close>

lemma unknown_paths_add_series:
  assumes "\<And>x. x \<in> set xs \<Longrightarrow> returns caps x \<and> ex_rctx x = None" and "distinct (map ex_path xs)"
  shows "length xs \<le> card {l. 0 < mt_requests (snd (answer_all recover caps xs no_metrics)) l}"
proof -
  have "{l. 0 < mt_requests (snd (answer_all recover caps xs no_metrics)) l} = label_of ` set xs"
    using assms(1) by (intro set_eqI) (simp add: answer_all_requests no_metrics_def filter_empty_conv image_iff eq_commute [of _ "label_of _"])
  moreover have "inj_on label_of (set xs)"
    using assms by (auto simp: inj_on_def label_of_def routePattern_def distinct_map)
  moreover have "card (set xs) = length xs" using assms(2) by (simp add: distinct_map distinct_card)
  ultimately show ?thesis by (simp add: card_image)
qed

subsection \<open>The status sent\<close>

text \<open>
  How a response of the handlers is written: its status, unless that is 200 and left to the first
  write, and then the body.
\<close>

definition quiet :: "call \<Rightarrow> bool" where
  "quiet c \<longleftrightarrow> (case c of CWrite _ \<Rightarrow> True | CFlush \<Rightarrow> True | _ \<Rightarrow> False)"

definition written :: "http_resp \<Rightarrow> call list \<Rightarrow> bool" where
  "written resp cs \<longleftrightarrow> rs_status resp = 200 \<and> list_all quiet cs
     \<or> (case cs of c # rest \<Rightarrow> c = CWriteHeader (rs_status resp) \<and> list_all quiet rest | [] \<Rightarrow> False)"

lemma perform_quiet:
  assumes "list_all quiet cs" and "wi_sent (rc_wire r) \<in> S" and "None \<in> S \<Longrightarrow> Some 200 \<in> S"
  shows "\<exists>r'. perform_all cs r = (True, r') \<and> wi_sent (rc_wire r') \<in> S \<and> wi_taken (rc_wire r') = wi_taken (rc_wire r) \<and> recorded cs = 200"
  using assms(1,2)
proof (induction cs arbitrary: r)
  case (Cons c cs)
  then obtain r1 where "perform c r = Some r1" "wi_sent (rc_wire r1) \<in> S" "wi_taken (rc_wire r1) = wi_taken (rc_wire r)"
    using assms(3) by (cases c; cases "wi_sent (rc_wire r)")
      (auto simp: quiet_def recorder_Write_def recorder_Flush_def net_Write_def net_Flush_def Let_def)
  moreover have "recorded (c # cs) = recorded cs" using Cons.prems(1) by (auto simp: recorded_def quiet_def split: call.splits)
  ultimately show ?case using Cons by auto
qed (simp add: recorded_def)

text \<open>One status at the start, and nothing after it that takes the connection: what is sent is what is counted.\<close>

lemma written_response:
  assumes "written resp (ex_calls x)" and "200 \<le> rs_status resp" and "rs_status resp \<le> 999"
  shows "returns caps x \<and> wi_sent (fst (answer recover caps x m)) = Some (rs_status resp) \<and> recorded (ex_calls x) = rs_status resp"
proof -
  let ?r = "\<lparr>rc_wire = new_wire, rc_status = 200, rc_hijacker = fst caps, rc_flusher = snd caps\<rparr>"
  have enough: ?thesis if "perform_all (ex_calls x) ?r = (True, r')" "wi_sent (rc_wire r') \<in> {Some (rs_status resp)} \<union> (if rs_status resp = 200 then {None} else {})"
      "\<not> wi_taken (rc_wire r')" "recorded (ex_calls x) = rs_status resp" for r'
    using that by (auto simp: returns_def answer_def HTTPMiddleware_def Let_def net_finish_def net_Flush_def split: if_splits)
  show ?thesis
  proof (cases "rs_status resp = 200 \<and> list_all quiet (ex_calls x)")
    case True
    then show ?thesis
      using perform_quiet [of "ex_calls x" ?r "{None, Some 200}"] enough by (auto simp: new_wire_def)
  next
    case False
    then obtain rest where c: "ex_calls x = CWriteHeader (rs_status resp) # rest" "list_all quiet rest"
      using assms(1) by (auto simp: written_def split: list.splits)
    let ?r1 = "\<lparr>rc_wire = new_wire\<lparr>wi_sent := Some (rs_status resp)\<rparr>, rc_status = rs_status resp, rc_hijacker = fst caps, rc_flusher = snd caps\<rparr>"
    have "perform (CWriteHeader (rs_status resp)) ?r = Some ?r1"
      using assms(2,3) by (simp add: recorder_WriteHeader_def net_WriteHeader_def new_wire_def Let_def)
    moreover obtain r' where "perform_all rest ?r1 = (True, r')" "wi_sent (rc_wire r') \<in> {Some (rs_status resp)}" "\<not> wi_taken (rc_wire r')"
      using perform_quiet [OF c(2), of ?r1 "{Some (rs_status resp)}"] by (auto simp: new_wire_def)
    moreover have "concat (map (\<lambda>c. case c of CWriteHeader s \<Rightarrow> [s] | _ \<Rightarrow> []) rest) = []"
      using c(2) by (auto simp: list_all_iff quiet_def split: call.splits)
    ultimately show ?thesis using enough [of r'] by (simp add: c(1) recorded_def)
  qed
qed

lemma answer_all_zip:
  "length (filter (\<lambda>(x, wi). P x \<and> wi_sent wi = Some s) (zip xs (fst (answer_all recover caps xs m))))
     = length (filter (\<lambda>x. P x \<and> recorded (ex_calls x) = s) xs)"
  if "\<And>x m. x \<in> set xs \<Longrightarrow> P x \<Longrightarrow> wi_sent (fst (answer recover caps x m)) = Some (recorded (ex_calls x))"
  using that
proof (induction xs arbitrary: m)
  case (Cons x xs)
  obtain wi m1 where a: "answer recover caps x m = (wi, m1)" by fastforce
  obtain ws m2 where b: "answer_all recover caps xs m1 = (ws, m2)" by fastforce
  have "P x \<Longrightarrow> wi_sent wi = Some (recorded (ex_calls x))" using Cons.prems [of x m] by (simp add: a)
  then show ?case using Cons.IH [of m1] Cons.prems by (auto simp: a b)
qed simp



end
