(* ===== verification/Sockets.thy ===== *)
theory Sockets
  imports Hub
begin

text \<open>
  The loop of \<open>internal/realtime/websocket.go\<close>: a writer that forwards the subscription to the
  client and a read pump in a goroutine of its own. Both may find the connection dead, and both end
  the subscription through the same \<open>sync.Once\<close>.
\<close>

record socket =
  ws_topic :: topic
  ws_chan :: nat
  ws_once :: bool
  ws_pump :: bool
  ws_loop :: bool
  ws_out :: "json list"

definition new_socket :: "topic \<Rightarrow> nat \<Rightarrow> socket" where
  "new_socket k c = \<lparr>ws_topic = k, ws_chan = c, ws_once = False, ws_pump = True, ws_loop = True, ws_out = []\<rparr>"

text \<open>\<open>cancel := func() { once.Do(unsubscribe) }\<close>; \<open>None\<close> is a panic.\<close>

definition socket_cancel :: "socket \<Rightarrow> hub \<times> history \<Rightarrow> (socket \<times> hub \<times> history) option" where
  "socket_cancel s g = (case g of (h, y) \<Rightarrow>
     if ws_once s then Some (s, h, y)
     else (case cancel (ws_topic s) (ws_chan s) h of
         None \<Rightarrow> None
       | Some h' \<Rightarrow> Some (s\<lparr>ws_once := True\<rparr>, h', y\<lparr>hi_key := (hi_key y)(ws_chan s := None)\<rparr>)))"

definition got :: "nat \<Rightarrow> json \<Rightarrow> history \<Rightarrow> history" where
  "got c p y = y\<lparr>hi_got := (hi_got y)(c := hi_got y c @ [p])\<rparr>"

text \<open>
  Other handlers use the hub meanwhile, but never this channel. The pump's goroutine ends with an
  error of the read; the loop with an error of a write, or when the channel is closed and empty.
\<close>

inductive socket_step :: "(socket \<times> hub \<times> history) option \<Rightarrow> (socket \<times> hub \<times> history) option \<Rightarrow> bool" where
  so_others: "hub_step (h, y) (h', y') \<Longrightarrow> hi_key y' (ws_chan s) = hi_key y (ws_chan s) \<Longrightarrow> hi_got y' (ws_chan s) = hi_got y (ws_chan s)
     \<Longrightarrow> socket_step (Some (s, h, y)) (Some (s, h', y'))"
| so_read_error: "ws_pump s \<Longrightarrow> socket_step (Some (s, h, y)) (socket_cancel (s\<lparr>ws_pump := False\<rparr>) (h, y))"
| so_write: "ws_loop s \<Longrightarrow> receive (ws_chan s) h = Some (p, h') \<Longrightarrow>
     socket_step (Some (s, h, y)) (Some (s\<lparr>ws_out := ws_out s @ [p]\<rparr>, h', got (ws_chan s) p y))"
| so_write_error: "ws_loop s \<Longrightarrow> receive (ws_chan s) h = Some (p, h') \<Longrightarrow>
     socket_step (Some (s, h, y)) (socket_cancel (s\<lparr>ws_loop := False\<rparr>) (h', got (ws_chan s) p y))"
| so_end: "ws_loop s \<Longrightarrow> ch_buf (chans h (ws_chan s)) = [] \<Longrightarrow> \<not> ch_open (chans h (ws_chan s)) \<Longrightarrow>
     socket_step (Some (s, h, y)) (socket_cancel (s\<lparr>ws_loop := False\<rparr>) (h, y))"

text \<open>The subscription is there until the one cancellation, which each end of a goroutine brings about.\<close>

definition socket_inv :: "topic \<Rightarrow> nat \<Rightarrow> (socket \<times> hub \<times> history) option \<Rightarrow> bool" where
  "socket_inv k c st \<longleftrightarrow> (case st of None \<Rightarrow> False | Some (s, h, y) \<Rightarrow>
     hub_reachable (h, y) \<and> ws_topic s = k \<and> ws_chan s = c \<and> hi_key y c = (if ws_once s then None else Some k)
     \<and> (\<not> ws_pump s \<or> \<not> ws_loop s \<longrightarrow> ws_once s)
     \<and> (\<exists>lost. hi_got y c = ws_out s @ lost \<and> length lost \<le> 1 \<and> (ws_loop s \<longrightarrow> lost = [])))"

lemma cancel_ok:
  assumes "hub_reachable (h, y)" and "hi_key y c = Some k"
  obtains h' where "cancel k c h = Some h'" and "hub_reachable (h', y\<lparr>hi_key := (hi_key y)(c := None)\<rparr>)"
proof -
  have "ch_open (chans h c)" using hub_reachable_inv [OF assms(1)] assms(2) by (auto simp: hub_inv_def)
  then obtain h' where h': "cancel k c h = Some h'" by (simp add: cancel_def Let_def)
  then have "hub_reachable (h', y\<lparr>hi_key := (hi_key y)(c := None)\<rparr>)"
    using assms unfolding hub_reachable_def by (blast intro: rtranclp.rtrancl_into_rtrancl step_cancel)
  with h' show ?thesis by (rule that)
qed

lemma receive_reachable:
  "hub_reachable (h, y) \<Longrightarrow> receive c h = Some (p, h') \<Longrightarrow> hub_reachable (h', got c p y)"
  unfolding hub_reachable_def got_def by (blast intro: rtranclp.rtrancl_into_rtrancl step_receive)

text \<open>Ending a goroutine: the cancellation is made if it was not made before, and does not panic.\<close>

lemma socket_cancel_inv:
  assumes "hub_reachable (h, y)" and "hi_key y (ws_chan s) = (if ws_once s then None else Some (ws_topic s))"
    and "\<exists>lost. hi_got y (ws_chan s) = ws_out s @ lost \<and> length lost \<le> 1 \<and> (ws_loop s \<longrightarrow> lost = [])"
  shows "socket_inv (ws_topic s) (ws_chan s) (socket_cancel s (h, y))"
proof (cases "ws_once s")
  case True
  with assms show ?thesis by (simp add: socket_cancel_def socket_inv_def)
next
  case False
  then obtain h' where "cancel (ws_topic s) (ws_chan s) h = Some h'"
      "hub_reachable (h', y\<lparr>hi_key := (hi_key y)(ws_chan s := None)\<rparr>)"
    using cancel_ok [OF assms(1), of "ws_chan s" "ws_topic s"] assms(2) by auto
  with False assms(3) show ?thesis by (simp add: socket_cancel_def socket_inv_def)
qed

lemma socket_inv_step: "socket_step st st' \<Longrightarrow> socket_inv k c st \<Longrightarrow> socket_inv k c st'"
proof (induction rule: socket_step.induct)
  case (so_others h y h' y' s)
  moreover have "hub_reachable (h', y')" if "hub_reachable (h, y)"
    using that so_others.hyps(1) unfolding hub_reachable_def by (rule rtranclp.rtrancl_into_rtrancl)
  ultimately show ?case by (simp add: socket_inv_def)
next
  case (so_read_error s h y)
  then show ?case using socket_cancel_inv [of h y "s\<lparr>ws_pump := False\<rparr>"] by (simp add: socket_inv_def)
next
  case (so_write s h p h' y)
  then show ?case using receive_reachable [of h y "ws_chan s" p h'] by (auto simp: socket_inv_def got_def)
next
  case (so_write_error s h p h' y)
  then show ?case using receive_reachable [of h y "ws_chan s" p h'] socket_cancel_inv [of h' "got (ws_chan s) p y" "s\<lparr>ws_loop := False\<rparr>"]
    by (auto simp: socket_inv_def got_def)
next
  case (so_end s h y)
  then show ?case using socket_cancel_inv [of h y "s\<lparr>ws_loop := False\<rparr>"] by (auto simp: socket_inv_def)
qed

text \<open>After the cancellation the loop needs no more than the payloads waiting, and one step to end.\<close>

lemma loop_ends:
  assumes "socket_inv k c (Some (s, h, y))" and "ws_once s" and "ws_loop s" and "length (ch_buf (chans h c)) = n"
  shows "\<exists>s' h' y'. (socket_step ^^ Suc n) (Some (s, h, y)) (Some (s', h', y')) \<and> \<not> ws_loop s'"
  using assms
proof (induction n arbitrary: s h y)
  case 0
  have "\<not> ch_open (chans h c)" using 0 hub_reachable_inv [of "(h, y)"] by (auto simp: socket_inv_def hub_inv_def)
  then have "socket_step (Some (s, h, y)) (socket_cancel (s\<lparr>ws_loop := False\<rparr>) (h, y))"
    using 0 by (intro so_end) (auto simp: socket_inv_def)
  then have "socket_step (Some (s, h, y)) (Some (s\<lparr>ws_loop := False\<rparr>, h, y))" using 0 by (simp add: socket_cancel_def)
  then show ?case by (intro exI [of _ "s\<lparr>ws_loop := False\<rparr>"] exI [of _ h] exI [of _ y]) (simp add: eq_OO)
next
  case (Suc n)
  then obtain p ps where b: "ch_buf (chans h c) = p # ps" "length ps = n" by (auto simp: length_Suc_conv)
  let ?h = "h\<lparr>chans := (chans h)(c := (chans h c)\<lparr>ch_buf := ps\<rparr>)\<rparr>"
  let ?s = "s\<lparr>ws_out := ws_out s @ [p]\<rparr>"
  have "receive c h = Some (p, ?h)" by (simp add: receive_def b)
  moreover have "ws_chan s = c" using Suc.prems by (simp add: socket_inv_def)
  ultimately have st: "socket_step (Some (s, h, y)) (Some (?s, ?h, got c p y))" using so_write [of s h p ?h y] Suc.prems by simp
  have "\<exists>s' h' y'. (socket_step ^^ Suc n) (Some (?s, ?h, got c p y)) (Some (s', h', y')) \<and> \<not> ws_loop s'"
    by (rule Suc.IH) (use socket_inv_step [OF st Suc.prems(1)] Suc.prems b in simp_all)
  then show ?case using st by (blast intro: relpowp_Suc_I2)
qed

text \<open>C30 (safety): the availability socket cancels its subscription at most once and without a panic,
  however read errors, write errors and publications interleave: it is subscribed exactly until
  the first goroutine ends. The client got a part of what was published meanwhile, in order, and all
  that the subscription gave except at most a last one whose write failed. From any moment after
  the cancellation the loop can end within nine steps.\<close>

theorem socket_unsubscribes_once:
  assumes "hub_reachable (h0, y0)" and "SubscribeListing l h0 = (c, h1)"
    and "socket_step\<^sup>*\<^sup>* (Some (new_socket (ListingTopic l) c, h1, y0\<lparr>hi_key := (hi_key y0)(c \<mapsto> ListingTopic l)\<rparr>)) st"
  shows "\<exists>s h y. st = Some (s, h, y) \<and> hub_reachable (h, y) \<and> (hi_key y c = Some (ListingTopic l) \<longleftrightarrow> \<not> ws_once s)
    \<and> (\<not> ws_pump s \<or> \<not> ws_loop s \<longrightarrow> ws_once s) \<and> subseq (ws_out s) (hi_sent y c)
    \<and> length (hi_got y c) \<le> Suc (length (ws_out s))
    \<and> (ws_once s \<and> ws_loop s \<longrightarrow> (\<exists>n s' h' y'. n \<le> 9 \<and> (socket_step ^^ n) st (Some (s', h', y')) \<and> \<not> ws_loop s'))"
proof -
  let ?y = "y0\<lparr>hi_key := (hi_key y0)(c \<mapsto> ListingTopic l)\<rparr>"
  have s: "subscribe (ListingTopic l) h0 = (c, h1)" using assms(2) by (simp add: SubscribeListing_def)
  then have r: "hub_reachable (h1, ?y)"
    using assms(1) step_subscribe unfolding hub_reachable_def by (blast intro: rtranclp.rtrancl_into_rtrancl)
  have "hi_got y0 c = []" using hub_reachable_inv [OF assms(1)] s by (auto simp: subscribe_def Let_def hub_inv_def)
  then have "socket_inv (ListingTopic l) c (Some (new_socket (ListingTopic l) c, h1, ?y))"
    using r by (simp add: socket_inv_def new_socket_def)
  with assms(3) have i: "socket_inv (ListingTopic l) c st"
    by (induction rule: rtranclp_induct) (blast intro: socket_inv_step)+
  then obtain s h y where st: "st = Some (s, h, y)" by (auto simp: socket_inv_def split: option.splits)
  obtain lost where lost: "hi_got y c = ws_out s @ lost" "length lost \<le> 1" using i by (auto simp: st socket_inv_def)
  have hi: "hub_inv (h, y)" using i hub_reachable_inv by (auto simp: st socket_inv_def)
  then have "subseq (hi_got y c @ ch_buf (chans h c)) (hi_sent y c)" by (simp add: hub_inv_def)
  moreover have "subseq (ws_out s) (hi_got y c @ ch_buf (chans h c))" by (simp add: lost(1) prefix_imp_subseq)
  ultimately have sub: "subseq (ws_out s) (hi_sent y c)" by (rule subseq_order.trans [rotated])
  have "\<exists>n s' h' y'. n \<le> 9 \<and> (socket_step ^^ n) st (Some (s', h', y')) \<and> \<not> ws_loop s'" if "ws_once s" "ws_loop s"
  proof -
    have "Suc (length (ch_buf (chans h c))) \<le> 9" using hi by (simp add: hub_inv_def subscriberBufferSize_def)
    then show ?thesis using loop_ends [OF i [unfolded st] that refl] st by blast
  qed
  moreover have "hub_reachable (h, y)" "hi_key y c = (if ws_once s then None else Some (ListingTopic l))" "\<not> ws_pump s \<or> \<not> ws_loop s \<longrightarrow> ws_once s"
    using i by (simp_all add: st socket_inv_def)
  moreover have "length (hi_got y c) \<le> Suc (length (ws_out s))" using lost by simp
  ultimately show ?thesis using sub st by (intro exI [of _ s] exI [of _ h] exI [of _ y]) simp
qed

theorem socket_unsubscribes_once_witness:
  "\<exists>c h1 s h y. SubscribeListing 1 NewHub = (c, h1) \<and> hub_reachable (h, y) \<and> hi_key y c = None \<and> ws_once s \<and> \<not> ws_pump s
     \<and> socket_step (Some (new_socket (ListingTopic 1) c, h1, no_history\<lparr>hi_key := (hi_key no_history)(c \<mapsto> ListingTopic 1)\<rparr>)) (Some (s, h, y))"
proof -
  have r: "hub_reachable (NewHub, no_history)" by (simp add: hub_reachable_def)
  obtain c h1 where s: "SubscribeListing 1 NewHub = (c, h1)" by fastforce
  let ?s = "new_socket (ListingTopic 1) c" and ?y = "no_history\<lparr>hi_key := (hi_key no_history)(c \<mapsto> ListingTopic 1)\<rparr>"
  define st where "st = socket_cancel (?s\<lparr>ws_pump := False\<rparr>) (h1, ?y)"
  have step: "socket_step (Some (?s, h1, ?y)) st" unfolding st_def by (rule so_read_error) (simp add: new_socket_def)
  from socket_unsubscribes_once [OF r s r_into_rtranclp, OF step]
  obtain t h y where t: "st = Some (t, h, y)" "hub_reachable (h, y)" "hi_key y c = Some (ListingTopic 1) \<longleftrightarrow> \<not> ws_once t"
      "\<not> ws_pump t \<or> \<not> ws_loop t \<longrightarrow> ws_once t" by blast
  have "\<not> ws_pump t" "hi_key y c = None"
    using t(1) by (auto simp: st_def socket_cancel_def new_socket_def split: option.splits)
  with t step s show ?thesis by blast
qed

end
