(* ===== verification/Brokers.thy ===== *)
theory Brokers
  imports MessagingSpec
begin

text \<open>
  The two ends of a RabbitMQ queue, \<open>NewPublisher\<close> and \<open>NewConsumer\<close> of \<open>internal/queue\<close>: each
  declares what it uses when it starts, so processes may start in any order and restart after a
  start that failed half way.
\<close>

subsection \<open>Opening\<close>

record queue_consumer =
  qc_topology :: Topology
  qc_prefetch :: nat

text \<open>Whether the channel, the declarations and the prefetch work; \<open>None\<close> is an error, and ends the process.\<close>

definition queue_NewConsumer :: "bool \<Rightarrow> bool list \<Rightarrow> bool \<Rightarrow> Topology \<Rightarrow> nat \<Rightarrow> broker \<Rightarrow> queue_consumer option \<times> broker" where
  "queue_NewConsumer channel declared qos t prefetch b =
     (if \<not> channel then (None, b)
      else case Declare t declared b of
          (False, b1) \<Rightarrow> (None, b1)
        | (True, b1) \<Rightarrow> if \<not> qos then (None, b1) else (Some \<lparr>qc_topology = t, qc_prefetch = prefetch\<rparr>, b1))"

text \<open>The publisher also asks for confirms.\<close>

definition NewPublisher :: "bool \<Rightarrow> bool \<Rightarrow> bool list \<Rightarrow> bool list \<Rightarrow> broker \<Rightarrow> unit option \<times> broker" where
  "NewPublisher channel confirm ok1 ok2 b =
     (if \<not> channel \<or> \<not> confirm then (None, b)
      else case publisher_declares ok1 ok2 b of (False, b1) \<Rightarrow> (None, b1) | (True, b1) \<Rightarrow> (Some (), b1))"

subsection \<open>Publishing\<close>

definition Publisher_Publish :: "fault \<Rightarrow> Topology \<Rightarrow> json \<Rightarrow> broker \<times> (string \<Rightarrow> json list) \<Rightarrow> gerr option \<times> broker \<times> (string \<Rightarrow> json list)" where
  "Publisher_Publish f t body st = (case st of (b, qs) \<Rightarrow>
     let qs' = fold (\<lambda>q qs. qs(q := qs q @ [body])) (publish_to b t) qs
     in case f of Works \<Rightarrow> (None, b, qs') | Fails e \<Rightarrow> (Some e, b, qs) | Lost s \<Rightarrow> (Some (OtherErr s), b, qs'))"

definition emailQueueAdapter_QueueEmail :: "fault \<Rightarrow> json \<Rightarrow> broker \<times> (string \<Rightarrow> json list) \<Rightarrow> gerr option \<times> broker \<times> (string \<Rightarrow> json list)" where
  "emailQueueAdapter_QueueEmail f payload = Publisher_Publish f NotificationsTopology payload"

subsection \<open>What the processes declare\<close>

definition all_calls :: "amqp_call list" where
  "all_calls = Declare_steps NotificationsTopology @ Declare_steps MediaTopology"

text \<open>Everything on the broker was declared by a process, in the one way in which they declare it.\<close>

definition part_of :: "broker \<Rightarrow> bool" where
  "part_of b \<longleftrightarrow> (\<forall>x k. br_exchanges b x = Some k \<longrightarrow> ExchangeDeclare x k \<in> set all_calls)
     \<and> (\<forall>q d. br_queues b q = Some d \<longrightarrow> QueueDeclare q d \<in> set all_calls)
     \<and> (\<forall>(q, k, x)\<in>set (br_bindings b). QueueBind q k x \<in> set all_calls) \<and> distinct (br_bindings b)"

fun present :: "broker \<Rightarrow> amqp_call \<Rightarrow> bool" where
  "present b (ExchangeDeclare x k) \<longleftrightarrow> br_exchanges b x = Some k"
| "present b (QueueDeclare q d) \<longleftrightarrow> br_queues b q = Some d"
| "present b (QueueBind q k x) \<longleftrightarrow> (q, k, x) \<in> set (br_bindings b)"

fun bindable :: "broker \<Rightarrow> amqp_call \<Rightarrow> bool" where
  "bindable b (QueueBind q k x) \<longleftrightarrow> br_queues b q \<noteq> None \<and> br_exchanges b x \<noteq> None"
| "bindable b _ \<longleftrightarrow> True"

text \<open>No exchange and no queue is declared in two ways.\<close>

lemma declared_one_way:
  "ExchangeDeclare x k \<in> set all_calls \<Longrightarrow> ExchangeDeclare x k' \<in> set all_calls \<Longrightarrow> k = k'"
  "QueueDeclare q d \<in> set all_calls \<Longrightarrow> QueueDeclare q d' \<in> set all_calls \<Longrightarrow> d = d'"
  by (auto simp: all_calls_def topology_defs)

lemma declare_one_some:
  assumes "declare_one c b = Some b'"
  shows "present b' c" and "present b a \<Longrightarrow> present b' a"
proof -
  show "present b' c" using assms by (cases c) (auto split: option.splits if_splits)
  show "present b' a" if "present b a"
    using assms that by (cases c; cases a) (auto split: option.splits if_splits)
qed

lemma declare_one_part:
  assumes "c \<in> set all_calls" and "part_of b"
  shows "declare_one c b = Some b' \<Longrightarrow> part_of b'" and "bindable b c \<Longrightarrow> declare_one c b \<noteq> None"
proof -
  show "part_of b'" if "declare_one c b = Some b'"
  proof (cases c)
    case (ExchangeDeclare x k)
    then have "b' = b \<or> b' = b\<lparr>br_exchanges := (br_exchanges b)(x \<mapsto> k)\<rparr>"
      using that by (simp split: option.splits if_splits)
    then show ?thesis using assms ExchangeDeclare unfolding part_of_def by (elim disjE) simp_all
  next
    case (QueueDeclare q d)
    then have "b' = b \<or> b' = b\<lparr>br_queues := (br_queues b)(q \<mapsto> d)\<rparr>"
      using that by (simp split: option.splits if_splits)
    then show ?thesis using assms QueueDeclare unfolding part_of_def by (elim disjE) simp_all
  next
    case (QueueBind q k x)
    then have "b' = b \<or> (q, k, x) \<notin> set (br_bindings b) \<and> b' = b\<lparr>br_bindings := (q, k, x) # br_bindings b\<rparr>"
      using that by (simp split: if_splits)
    then show ?thesis using assms QueueBind unfolding part_of_def by (elim disjE conjE) simp_all
  qed
  show "declare_one c b \<noteq> None" if "bindable b c"
  proof (cases c)
    case (ExchangeDeclare x k)
    then have "br_exchanges b x = None \<or> br_exchanges b x = Some k"
      using assms declared_one_way(1) unfolding part_of_def by (metis option.exhaust)
    then show ?thesis using ExchangeDeclare by auto
  next
    case (QueueDeclare q d)
    then have "br_queues b q = None \<or> br_queues b q = Some d"
      using assms declared_one_way(2) unfolding part_of_def by (metis option.exhaust)
    then show ?thesis using QueueDeclare by auto
  qed (use that in auto)
qed

lemma run_part:
  "set ds \<subseteq> set all_calls \<Longrightarrow> part_of b \<Longrightarrow> run_declarations ds ok b = (r, b') \<Longrightarrow>
    part_of b' \<and> (\<forall>a. present b a \<longrightarrow> present b' a) \<and> (r \<longrightarrow> (\<forall>a\<in>set ds. present b' a))"
proof (induction ds ok b rule: run_declarations.induct)
  case (3 d ds k ok b)
  show ?case
  proof (cases "k \<and> declare_one d b \<noteq> None")
    case True
    then obtain b1 where b1: "declare_one d b = Some b1" by auto
    have "part_of b1" using declare_one_part(1) [OF _ 3(3) b1] 3(2) by simp
    then have "part_of b' \<and> (\<forall>a. present b1 a \<longrightarrow> present b' a) \<and> (r \<longrightarrow> (\<forall>a\<in>set ds. present b' a))"
      using 3(1) [OF _ b1] 3(2,4) True b1 by simp
    with declare_one_some [OF b1] show ?thesis by auto
  qed (use 3(3,4) in \<open>auto split: if_splits\<close>)
qed auto

lemma Declare_calls: "t \<in> {NotificationsTopology, MediaTopology} \<Longrightarrow> set (Declare_steps t) \<subseteq> set all_calls"
  by (auto simp: all_calls_def)

text \<open>Without a failure of its own a declaration succeeds on whatever other processes left.\<close>

lemma run_works:
  "set ds \<subseteq> set all_calls \<Longrightarrow> part_of b \<Longrightarrow> \<forall>c\<in>set ds. bindable b c \<Longrightarrow> length ds \<le> n \<Longrightarrow>
    fst (run_declarations ds (replicate n True) b)"
proof (induction ds arbitrary: b n)
  case (Cons d ds)
  then obtain m where n: "n = Suc m" "length ds \<le> m" by (cases n) auto
  obtain b1 where b1: "declare_one d b = Some b1" using declare_one_part(2) [of d b] Cons.prems by auto
  have "bindable b1 c" if "bindable b c" for c
    using that declare_one_some(2) [OF b1, of "QueueDeclare _ _"] declare_one_some(2) [OF b1, of "ExchangeDeclare _ _"]
    by (cases c) fastforce+
  then show ?case using Cons.IH [of b1 m] Cons.prems declare_one_part(1) [OF _ Cons.prems(2) b1] b1 n by simp
qed simp

lemma run_append:
  "run_declarations (ds @ es) ok b = (case run_declarations ds (take (length ds) ok) b of
     (False, b1) \<Rightarrow> (False, b1) | (True, b1) \<Rightarrow> run_declarations es (drop (length ds) ok) b1)"
  by (induction ds ok b rule: run_declarations.induct) (auto split: option.splits prod.splits bool.splits)

lemma Declare_works:
  assumes "t \<in> {NotificationsTopology, MediaTopology}" and "part_of b"
  shows "fst (Declare t all_ok b)"
proof -
  define d1 where "d1 = [ExchangeDeclare (tp_exchange t) Direct, ExchangeDeclare (tp_dead_exchange t) Fanout, QueueDeclare (tp_dead_queue t) None]"
  define d2 where "d2 = [QueueBind (tp_dead_queue t) '''' (tp_dead_exchange t), QueueDeclare (tp_queue t) (Some (tp_dead_exchange t))]"
  define d3 where "d3 = [QueueBind (tp_queue t) (tp_key t) (tp_exchange t)]"
  note d = d1_def d2_def d3_def
  have steps: "Declare_steps t = d1 @ d2 @ d3" by (simp add: Declare_steps_def d)
  then have sub: "set d1 \<subseteq> set all_calls" "set d2 \<subseteq> set all_calls" "set d3 \<subseteq> set all_calls" using Declare_calls [OF assms(1)] by auto
  obtain b1 where b1: "run_declarations d1 (replicate 3 True) b = (True, b1)"
    using run_works [OF sub(1) assms(2), of 3] by (cases "run_declarations d1 (replicate 3 True) b") (auto simp: d1_def)
  note p1 = run_part [OF sub(1) assms(2) b1]
  have "\<forall>c\<in>set d2. bindable b1 c" using p1 by (auto simp: d1_def d2_def)
  then obtain b2 where b2: "run_declarations d2 (replicate 2 True) b1 = (True, b2)"
    using run_works [OF sub(2), of b1 2] p1 by (cases "run_declarations d2 (replicate 2 True) b1") (auto simp: d2_def)
  note p2 = run_part [OF sub(2) _ b2]
  have "present b2 (ExchangeDeclare (tp_exchange t) Direct)" "present b2 (QueueDeclare (tp_queue t) (Some (tp_dead_exchange t)))"
    using p1 p2 by (simp_all add: d1_def d2_def del: present.simps)
  then have "\<forall>c\<in>set d3. bindable b2 c" by (auto simp: d3_def)
  then have "fst (run_declarations d3 (replicate 1 True) b2)"
    using run_works [OF sub(3), of b2 1] p1 p2 by (auto simp: d3_def)
  moreover have "take (length d1) all_ok = replicate 3 True" "drop (length d1) all_ok = replicate 3 True"
      "take (length d2) (replicate 3 True) = replicate 2 True" "drop (length d2) (replicate 3 True) = replicate 1 True"
    by (simp_all add: all_ok_def d1_def d2_def eval_nat_numeral)
  ultimately show ?thesis by (simp add: Declare_def steps run_append b1 b2)
qed

subsection \<open>Starting in any order\<close>

text \<open>A process opens an end of a queue; any call may fail, and then the process is gone.\<close>

inductive boots :: "broker \<Rightarrow> broker \<Rightarrow> bool" where
  boot_publisher: "NewPublisher channel confirm ok1 ok2 b = (res, b') \<Longrightarrow> boots b b'"
| boot_consumer: "t \<in> {NotificationsTopology, MediaTopology} \<Longrightarrow> queue_NewConsumer channel declared qos t n b = (res, b') \<Longrightarrow> boots b b'"

definition declared :: "Topology \<Rightarrow> broker \<Rightarrow> bool" where
  "declared t b \<longleftrightarrow> (\<forall>a\<in>set (Declare_steps t). present b a)"

lemma Declare_part:
  assumes "t \<in> {NotificationsTopology, MediaTopology}" and "part_of b" and "Declare t ok b = (r, b')"
  shows "part_of b' \<and> (\<forall>a. present b a \<longrightarrow> present b' a) \<and> (r \<longrightarrow> declared t b')"
  using run_part [OF Declare_calls [OF assms(1)] assms(2)] assms(3) by (simp add: Declare_def declared_def)

lemma NewConsumer_part:
  assumes "t \<in> {NotificationsTopology, MediaTopology}" and "part_of b" and "queue_NewConsumer ch ok qos t n b = (res, b')"
  shows "part_of b' \<and> (\<forall>a. present b a \<longrightarrow> present b' a) \<and> (res \<noteq> None \<longrightarrow> declared t b')"
proof -
  obtain r b1 where d: "Declare t ok b = (r, b1)" by fastforce
  show ?thesis using Declare_part [OF assms(1,2) d] assms(2,3)
    by (auto simp: queue_NewConsumer_def d split: if_splits bool.splits)
qed

lemma NewPublisher_part:
  assumes "part_of b" and "NewPublisher ch conf ok1 ok2 b = (res, b')"
  shows "part_of b' \<and> (\<forall>a. present b a \<longrightarrow> present b' a)
    \<and> (res \<noteq> None \<longrightarrow> declared NotificationsTopology b' \<and> declared MediaTopology b')"
proof -
  obtain r1 b1 where d1: "Declare NotificationsTopology ok1 b = (r1, b1)" by fastforce
  obtain r2 b2 where d2: "Declare MediaTopology ok2 b1 = (r2, b2)" by fastforce
  note p1 = Declare_part [OF _ assms(1) d1, simplified]
  note p2 = Declare_part [OF _ conjunct1 [OF p1] d2, simplified]
  show ?thesis using assms p1 p2 unfolding NewPublisher_def publisher_declares_def d1
    by (auto simp: d2 declared_def split: if_splits bool.splits)
qed

lemma boots_part: "boots b b' \<Longrightarrow> part_of b \<Longrightarrow> part_of b' \<and> (\<forall>a. present b a \<longrightarrow> present b' a)"
  by (induction rule: boots.induct) (use NewPublisher_part NewConsumer_part in blast)+

lemma boots_run: "boots\<^sup>*\<^sup>* b b' \<Longrightarrow> part_of b \<Longrightarrow> part_of b' \<and> (\<forall>a. present b a \<longrightarrow> present b' a)"
  by (induction rule: rtranclp_induct) (use boots_part in blast)+

lemma filter_only:
  "distinct xs \<Longrightarrow> x \<in> set xs \<Longrightarrow> P x \<Longrightarrow> (\<And>y. y \<in> set xs \<Longrightarrow> P y \<Longrightarrow> y = x) \<Longrightarrow> filter P xs = [x]"
proof (induction xs)
  case (Cons a xs)
  show ?case
  proof (cases "a = x")
    case True
    then have "\<forall>y\<in>set xs. \<not> P y" using Cons.prems(1,4) by fastforce
    then show ?thesis using True Cons.prems(3) by simp
  next
    case False
    then have "\<not> P a" using Cons.prems(4) [of a] by auto
    moreover have "filter P xs = [x]" using False Cons.prems by (intro Cons.IH) simp_all
    ultimately show ?thesis by simp
  qed
qed simp

lemma declared_delivers:
  assumes "t \<in> {NotificationsTopology, MediaTopology}" and "part_of b" and "declared t b"
  shows "publish_to b t = [tp_queue t]" and "dead_letter_to b (tp_queue t) key = [tp_dead_queue t]"
proof -
  have b: "distinct (br_bindings b)" "\<And>q k x. (q, k, x) \<in> set (br_bindings b) \<Longrightarrow> QueueBind q k x \<in> set all_calls"
    using assms(2) by (auto simp: part_of_def)
  have d: "br_exchanges b (tp_exchange t) = Some Direct" "br_exchanges b (tp_dead_exchange t) = Some Fanout"
      "br_queues b (tp_queue t) = Some (Some (tp_dead_exchange t))"
      "(tp_queue t, tp_key t, tp_exchange t) \<in> set (br_bindings b)" "(tp_dead_queue t, '''', tp_dead_exchange t) \<in> set (br_bindings b)"
    using assms(3) by (simp_all add: declared_def Declare_steps_def)
  have f: "filter (\<lambda>(q, k, y). y = tp_exchange t \<and> k = tp_key t) (br_bindings b) = [(tp_queue t, tp_key t, tp_exchange t)]"
    using assms(1) by (intro filter_only [OF b(1) d(4)]) (auto dest!: b(2) simp: all_calls_def topology_defs)
  have g: "filter (\<lambda>(q, k, y). y = tp_dead_exchange t) (br_bindings b) = [(tp_dead_queue t, '''', tp_dead_exchange t)]"
    using assms(1) by (intro filter_only [OF b(1) d(5)]) (auto dest!: b(2) simp: all_calls_def topology_defs)
  show "publish_to b t = [tp_queue t]" by (simp add: publish_to_def route_def d f)
  show "dead_letter_to b (tp_queue t) key = [tp_dead_queue t]" by (simp add: dead_letter_to_def route_def d g)
qed

text \<open>C35 (safety): from an empty broker the publisher and the consumers may start in any order and any
  number of times, and starts may fail half way: a later start whose own calls work always succeeds.
  Once a process uses a topology, a message published to it is put at the end of its queue, once, and
  one refused there goes to its dead-letter queue only, whatever starts come after.\<close>

theorem starts_in_any_order:
  assumes "boots\<^sup>*\<^sup>* no_broker b" and "t \<in> {NotificationsTopology, MediaTopology}"
    and "queue_NewConsumer ch ok qos t n b = (res, b1) \<and> res \<noteq> None \<or> NewPublisher ch conf ok ok2 b = (Some (), b1)"
    and "boots\<^sup>*\<^sup>* b1 b2"
  shows "fst (NewPublisher True True all_ok all_ok b) = Some ()
    \<and> fst (queue_NewConsumer True all_ok True t n b) = Some \<lparr>qc_topology = t, qc_prefetch = n\<rparr>
    \<and> Publisher_Publish Works t m (b2, qs) = (None, b2, qs(tp_queue t := qs (tp_queue t) @ [m]))
    \<and> dead_letter_to b2 (tp_queue t) key = [tp_dead_queue t]"
proof -
  have "part_of no_broker" by (simp add: part_of_def no_broker_def)
  then have p: "part_of b" using boots_run [OF assms(1)] by blast
  have b1: "part_of b1 \<and> declared t b1"
    using assms(3)
  proof (elim disjE conjE)
    assume "queue_NewConsumer ch ok qos t n b = (res, b1)" "res \<noteq> None"
    then show ?thesis using NewConsumer_part [OF assms(2) p] by blast
  next
    assume "NewPublisher ch conf ok ok2 b = (Some (), b1)"
    then show ?thesis using NewPublisher_part [OF p] assms(2) by blast
  qed
  then have b2: "part_of b2" "declared t b2" using boots_run [OF assms(4)] by (auto simp: declared_def)
  obtain c1 where c1: "Declare NotificationsTopology all_ok b = (True, c1)"
    using Declare_works [OF _ p, of NotificationsTopology] by (cases "Declare NotificationsTopology all_ok b") auto
  have "part_of c1" using Declare_part [OF _ p c1] by simp
  then obtain c2 where c2: "Declare MediaTopology all_ok c1 = (True, c2)"
    using Declare_works [of MediaTopology c1] by (cases "Declare MediaTopology all_ok c1") auto
  have "fst (NewPublisher True True all_ok all_ok b) = Some ()"
    by (simp add: NewPublisher_def publisher_declares_def c1 c2)
  moreover obtain c3 where "Declare t all_ok b = (True, c3)"
    using Declare_works [OF assms(2) p] by (cases "Declare t all_ok b") auto
  then have "fst (queue_NewConsumer True all_ok True t n b) = Some \<lparr>qc_topology = t, qc_prefetch = n\<rparr>"
    by (simp add: queue_NewConsumer_def)
  ultimately show ?thesis
    using declared_delivers [OF assms(2) b2] by (simp add: Publisher_Publish_def Let_def)
qed

theorem starts_in_any_order_witness:
  "\<exists>b b1. boots no_broker b \<and> NewPublisher True True all_ok all_ok b = (Some (), b1)
     \<and> Publisher_Publish Works NotificationsTopology JNull (b1, \<lambda>_. []) = (None, b1, (\<lambda>_. [])(''notifications.email'' := [JNull]))"
proof -
  define b where "b = snd (NewPublisher True True [True, True, True, False] [] no_broker)"
  obtain b1 where b1: "NewPublisher True True all_ok all_ok b = (Some (), b1)"
    by (simp add: b_def NewPublisher_def topology_defs eval_nat_numeral)
  have b: "boots no_broker b" unfolding b_def by (rule boot_publisher) (rule surjective_pairing)
  have "Publisher_Publish Works NotificationsTopology JNull (b1, \<lambda>_. []) = (None, b1, (\<lambda>_. [])(''notifications.email'' := [JNull]))"
    using starts_in_any_order [OF r_into_rtranclp [of boots, OF b] _ disjI2 [OF b1] rtranclp.rtrancl_refl, where t = NotificationsTopology and m = JNull and qs = "\<lambda>_. []"]
    by (simp add: NotificationsTopology_def)
  with b b1 show ?thesis by blast
qed

end
