(* ===== verification/Lifecycle.thy ===== *)
theory Lifecycle
  imports Processes
begin

text \<open>
  The API process around its router: tracing (\<open>internal/observability\<close>), the SAML service provider
  and the Google client (\<open>internal/auth\<close>), the HTTP and gRPC servers (\<open>internal/app\<close>) and how
  \<open>cmd/api/main.go\<close> stops. The libraries' calls are arguments.
\<close>

subsection \<open>Tracing and logging\<close>

datatype tracer_provider = NoSpans | Exporting string string

text \<open>The provider set, if any, and what to shut down; \<open>None\<close> is the function that does nothing.\<close>

definition SetupTracing ::
  "(string \<Rightarrow> gerr option) \<Rightarrow> (string \<Rightarrow> gerr option) \<Rightarrow> config \<Rightarrow> tracer_provider option \<times> (gerr + tracer_provider option)" where
  "SetupTracing exporter resource cfg =
     (if \<not> cf_otel_enabled cfg then (Some NoSpans, Inr None)
      else case exporter (cf_otel_endpoint cfg) of
          Some e \<Rightarrow> (None, Inl (Wrapped ''observability: create otlp exporter'' e))
        | None \<Rightarrow>
      (case resource (cf_otel_name cfg) of
          Some e \<Rightarrow> (None, Inl (Wrapped ''observability: build resource'' e))
        | None \<Rightarrow> let provider = Exporting (cf_otel_endpoint cfg) (cf_otel_name cfg) in (Some provider, Inr (Some provider))))"

text \<open>The API goes on without tracing when it cannot be set up.\<close>

definition main_tracing :: "(string \<Rightarrow> gerr option) \<Rightarrow> (string \<Rightarrow> gerr option) \<Rightarrow> config \<Rightarrow> tracer_provider option" where
  "main_tracing exporter resource cfg =
     (case snd (SetupTracing exporter resource cfg) of Inl e \<Rightarrow> None | Inr shutdown \<Rightarrow> shutdown)"

lemma main_tracing_exports:
  "main_tracing exporter resource cfg = (if cf_otel_enabled cfg \<and> exporter (cf_otel_endpoint cfg) = None \<and> resource (cf_otel_name cfg) = None
     then Some (Exporting (cf_otel_endpoint cfg) (cf_otel_name cfg)) else None)"
  by (simp add: main_tracing_def SetupTracing_def Let_def split: option.splits)

text \<open>A logger is the attributes it adds to each line; the span in the context is a pair of ids, if it is valid.\<close>

definition NewLogger :: "string \<Rightarrow> (string \<times> string) list" where
  "NewLogger serviceName = [(''service'', serviceName)]"

definition WithTrace :: "(string \<times> string) option \<Rightarrow> (string \<times> string) list \<Rightarrow> (string \<times> string) list" where
  "WithTrace active logger = (case active of None \<Rightarrow> logger
     | Some (trace_id, span_id) \<Rightarrow> logger @ [(''trace_id'', trace_id), (''span_id'', span_id)])"

subsection \<open>SAML\<close>

record cert_template =
  ct_serial :: int
  ct_name :: string
  ct_not_before :: time
  ct_not_after :: time
  ct_usage :: "string set"

record ('u, 'k, 'c, 'm) saml_options =
  so_url :: 'u
  so_key :: 'k
  so_cert :: 'c
  so_metadata :: 'm
  so_idp_initiated :: bool

text \<open>Keys and certificates: generation, signing a template by itself, parsing.\<close>

definition GenerateSelfSignedCert ::
  "(int \<Rightarrow> gerr + 'k) \<Rightarrow> (cert_template \<Rightarrow> cert_template \<Rightarrow> 'k \<Rightarrow> gerr + string) \<Rightarrow> (string \<Rightarrow> gerr + 'c) \<Rightarrow> time \<Rightarrow> gerr + 'k \<times> 'c" where
  "GenerateSelfSignedCert generate create parse now =
     (case generate 2048 of
        Inl e \<Rightarrow> Inl (Wrapped ''saml: generate key'' e)
      | Inr key \<Rightarrow>
          let template = \<lparr>ct_serial = 1, ct_name = ''GearShare SAML SP (dev)'', ct_not_before = now,
                ct_not_after = now + 365 * 24 * 3600 * second, ct_usage = {''KeyEncipherment'', ''DigitalSignature''}\<rparr>
          in case create template template key of
               Inl e \<Rightarrow> Inl (Wrapped ''saml: create certificate'' e)
             | Inr der \<Rightarrow> (case parse der of
                 Inl e \<Rightarrow> Inl (Wrapped ''saml: parse certificate'' e)
               | Inr cert \<Rightarrow> Inr (key, cert)))"

definition NewSAMLServiceProvider ::
  "(string \<Rightarrow> gerr + 'u) \<Rightarrow> ('u \<Rightarrow> gerr + 'm) \<Rightarrow> (('u, 'k, 'c, 'm) saml_options \<Rightarrow> gerr + 'w) \<Rightarrow> string \<Rightarrow> string \<Rightarrow> 'c \<Rightarrow> 'k \<Rightarrow> gerr + 'w" where
  "NewSAMLServiceProvider parse_url fetch build rootURL idpMetadataURL cert key =
     (case parse_url rootURL of
        Inl e \<Rightarrow> Inl (Wrapped ''saml: parse root url'' e)
      | Inr rootu \<Rightarrow>
     (case parse_url idpMetadataURL of
        Inl e \<Rightarrow> Inl (Wrapped ''saml: parse idp metadata url'' e)
      | Inr idpURL \<Rightarrow>
     (case fetch idpURL of
        Inl e \<Rightarrow> Inl (Wrapped ''saml: fetch idp metadata'' e)
      | Inr idpMetadata \<Rightarrow>
     (case build \<lparr>so_url = rootu, so_key = key, so_cert = cert, so_metadata = idpMetadata, so_idp_initiated = False\<rparr> of
        Inl e \<Rightarrow> Inl (Wrapped ''saml: build service provider'' e)
      | Inr mw \<Rightarrow> Inr mw))))"

text \<open>How \<open>main\<close> sets it up, or leaves it out.\<close>

definition main_saml ::
  "gerr + 'k \<times> 'c \<Rightarrow> (string \<Rightarrow> gerr + 'u) \<Rightarrow> ('u \<Rightarrow> gerr + 'm) \<Rightarrow> (('u, 'k, 'c, 'm) saml_options \<Rightarrow> gerr + 'w) \<Rightarrow> config \<Rightarrow> 'w option" where
  "main_saml generated parse_url fetch build cfg =
     (if ac_saml_metadata (cf_auth cfg) = '''' then None
      else case generated of
          Inl e \<Rightarrow> None
        | Inr (key, cert) \<Rightarrow>
            (case NewSAMLServiceProvider parse_url fetch build ''https://localhost'' (ac_saml_metadata (cf_auth cfg)) cert key of
               Inl e \<Rightarrow> None | Inr mw \<Rightarrow> Some mw))"

text \<open>
  The service provider hands everything to the library's middleware: its \<open>ServeHTTP\<close>, which
  answers at its two paths, and its \<open>RequireAccount\<close>, which lets a session pass.
\<close>

record SAMLServiceProvider =
  sp_serve :: handler
  sp_account :: "handler \<Rightarrow> handler"

definition MetadataHandler :: "SAMLServiceProvider \<Rightarrow> handler" where
  "MetadataHandler s = sp_serve s"

definition ACSHandler :: "SAMLServiceProvider \<Rightarrow> handler" where
  "ACSHandler s = sp_serve s"

definition SAML_RequireSession :: "SAMLServiceProvider \<Rightarrow> handler \<Rightarrow> handler" where
  "SAML_RequireSession s nxt = sp_account s nxt"

text \<open>The routes of the business portal. Without a provider they do not exist.\<close>

datatype saml_route = GetSAMLMetadata | PostSAMLACS | GetBusinessLogin

definition business_page :: handler where
  "business_page r w = (JSON 200 (Some (JObj [(''status'', JStr ''authenticated via SAML'')])), w)"

definition saml_routes :: "SAMLServiceProvider option \<Rightarrow> saml_route \<Rightarrow> handler" where
  "saml_routes sp rt = CSP (case sp of
     None \<Rightarrow> not_found
   | Some s \<Rightarrow> (case rt of
       GetSAMLMetadata \<Rightarrow> MetadataHandler s
     | PostSAMLACS \<Rightarrow> ACSHandler s
     | GetBusinessLogin \<Rightarrow> SAML_RequireSession s business_page))"

text \<open>Whoever sees the business page has passed the library's account check; without SAML nobody does.\<close>

lemma business_page_guarded:
  assumes "\<And>h r w. authenticated r \<or> fst (sp_account s h r w) = refusal"
    and "rs_status (fst (saml_routes sp GetBusinessLogin r w)) = 200" and "sp = None \<or> sp = Some s" and "rs_status refusal \<noteq> 200"
  shows "sp = Some s \<and> authenticated r"
  using assms(1) [of r business_page w] assms(2-4)
  by (auto simp: saml_routes_def CSP_def not_found_def plain_error_def SAML_RequireSession_def split: prod.splits)

text \<open>
  A provider is built for \<open>https://localhost\<close> with the generated key only, and never lets the
  identity provider start a login; the configured certificate is not used.
\<close>

lemma main_saml_provider:
  assumes "main_saml generated parse_url fetch build cfg = Some mw"
  shows "\<exists>key cert rootu idp m. generated = Inr (key, cert) \<and> parse_url ''https://localhost'' = Inr rootu
    \<and> parse_url (ac_saml_metadata (cf_auth cfg)) = Inr idp \<and> fetch idp = Inr m
    \<and> build \<lparr>so_url = rootu, so_key = key, so_cert = cert, so_metadata = m, so_idp_initiated = False\<rparr> = Inr mw"
  using assms by (auto simp: main_saml_def NewSAMLServiceProvider_def split: if_splits sum.splits prod.splits)

lemma generated_for_a_year:
  assumes "GenerateSelfSignedCert generate create parse now = Inr (key, cert)"
    and "\<And>t k der c. create t t k = Inr der \<Longrightarrow> parse der = Inr c \<Longrightarrow> valid c = {ct_not_before t..ct_not_after t}"
  shows "now + 364 * day_ns \<in> valid cert \<and> now + 366 * day_ns \<notin> valid cert"
proof -
  obtain t der where "create t t key = Inr der" "parse der = Inr cert" "ct_not_before t = now" "ct_not_after t = now + 365 * 24 * 3600 * second"
    using assms(1) by (auto simp: GenerateSelfSignedCert_def Let_def split: sum.splits)
  from assms(2) [OF this(1,2)] this(3,4) show ?thesis by (simp add: day_ns_def second_def)
qed

subsection \<open>The Google client\<close>

record google_config =
  gg_client :: string
  gg_secret :: string
  gg_redirect :: string
  gg_scopes :: "string list"

definition NewGoogleOAuth :: "string \<Rightarrow> string \<Rightarrow> string \<Rightarrow> google_config" where
  "NewGoogleOAuth clientID clientSecret redirectURL =
     \<lparr>gg_client = clientID, gg_secret = clientSecret, gg_redirect = redirectURL, gg_scopes = [''openid'', ''email'', ''profile'']\<rparr>"

definition AuthCodeURL :: "(google_config \<Rightarrow> string \<Rightarrow> string \<Rightarrow> string) \<Rightarrow> google_config \<Rightarrow> string \<Rightarrow> string" where
  "AuthCodeURL lib g state = lib g state ''online''"

definition NewOIDCVerifier :: "(string \<Rightarrow> gerr + 'p) \<Rightarrow> string \<Rightarrow> gerr + 'p \<times> string" where
  "NewOIDCVerifier discover clientID =
     (case discover ''https://accounts.google.com'' of
        Inl e \<Rightarrow> Inl (Wrapped ''oidc: discover provider'' e)
      | Inr provider \<Rightarrow> Inr (provider, clientID))"

subsection \<open>Middlewares of libraries\<close>

record cors_options =
  cp_origins :: "string list"
  cp_methods :: "string list"
  cp_headers :: "string list"
  cp_credentials :: bool
  cp_max_age :: int

definition CORS :: "(cors_options \<Rightarrow> handler \<Rightarrow> handler) \<Rightarrow> string list \<Rightarrow> handler \<Rightarrow> handler" where
  "CORS lib allowedOrigins = lib
     \<lparr>cp_origins = allowedOrigins, cp_methods = [''GET'', ''POST'', ''PUT'', ''PATCH'', ''DELETE'', ''OPTIONS''],
      cp_headers = [''Accept'', ''Authorization'', ''Content-Type'', ''X-CSRF-Token''], cp_credentials = True, cp_max_age = 300\<rparr>"

text \<open>The limiter inside the process counts by the same client address as the one in Redis.\<close>

definition RateLimit :: "(int \<Rightarrow> int \<Rightarrow> (http_req \<Rightarrow> gerr + string) \<Rightarrow> handler \<Rightarrow> handler) \<Rightarrow> (http_req \<Rightarrow> string) \<Rightarrow> int \<Rightarrow> int \<Rightarrow> handler \<Rightarrow> handler" where
  "RateLimit limitBy client_ip requests window = limitBy requests window (\<lambda>r. Inr (ResolveClientIP client_ip r))"

subsection \<open>The servers\<close>

record http_server =
  se_addr :: string
  se_read :: int
  se_write :: int
  se_shutdown :: int

definition NewServer :: "HTTPConfig \<Rightarrow> http_server" where
  "NewServer cfg = \<lparr>se_addr = hc_addr cfg, se_read = hc_read cfg, se_write = hc_write cfg, se_shutdown = hc_shutdown cfg\<rparr>"

definition ErrServerClosed :: gerr where "ErrServerClosed = Sentinel ''http: Server closed''"
definition DeadlineExceeded :: gerr where "DeadlineExceeded = Sentinel ''context deadline exceeded''"

text \<open>\<open>serving\<close> is how \<open>ListenAndServe\<close> ends: after a shutdown it is the error that says so.\<close>

definition Server_Start :: "(string \<Rightarrow> gerr option) \<Rightarrow> http_server \<Rightarrow> gerr option" where
  "Server_Start serving s = (case serving (se_addr s) of
     Some e \<Rightarrow> if e \<noteq> ErrServerClosed then Some e else None | None \<Rightarrow> None)"

text \<open>
  \<open>idle\<close> is when the last connection would be idle, \<open>None\<close> if never; the caller's context ends at
  \<open>deadline\<close>. The result and when it comes.
\<close>

definition Server_Shutdown :: "int option \<Rightarrow> int \<Rightarrow> http_server \<Rightarrow> gerr option \<times> int" where
  "Server_Shutdown idle deadline s =
     (let ctx = min deadline (se_shutdown s)
      in case idle of Some t \<Rightarrow> if t < ctx then (None, t) else (Some DeadlineExceeded, ctx)
         | None \<Rightarrow> (Some DeadlineExceeded, ctx))"

definition ServeGRPC :: "(string \<Rightarrow> gerr option) \<Rightarrow> gerr option \<Rightarrow> string \<Rightarrow> gerr option" where
  "ServeGRPC listen served addr = (case listen addr of Some e \<Rightarrow> Some e | None \<Rightarrow> served)"

lemma Server_Shutdown_bounded: "0 \<le> deadline \<Longrightarrow> snd (Server_Shutdown idle deadline s) \<le> se_shutdown s"
  by (auto simp: Server_Shutdown_def Let_def split: option.splits)

text \<open>Nothing ends an open event stream, so with one the whole time is waited for and an error comes of it.\<close>

lemma open_stream_delays: "Server_Shutdown None (se_shutdown s) s = (Some DeadlineExceeded, se_shutdown s)"
  by (simp add: Server_Shutdown_def)

text \<open>What ends the process while both servers run: the first of these messages to come.\<close>

definition main_fatals :: "(string \<Rightarrow> gerr option) \<Rightarrow> (string \<Rightarrow> gerr option) \<Rightarrow> gerr option \<Rightarrow> config \<Rightarrow> string list" where
  "main_fatals serving listen served cfg =
     (case Server_Start serving (NewServer (cf_http cfg)) of Some e \<Rightarrow> [''http server: '' @ err_text e] | None \<Rightarrow> [])
     @ (case ServeGRPC listen served (gc_addr (cf_grpc cfg)) of Some e \<Rightarrow> [''grpc server: '' @ err_text e] | None \<Rightarrow> [])"

lemma stopping_is_not_fatal:
  "main_fatals (\<lambda>addr. Some ErrServerClosed) (\<lambda>addr. None) None cfg = []"
  by (simp add: main_fatals_def Server_Start_def ServeGRPC_def)

subsection \<open>Stopping\<close>

datatype closing = StopGRPC | StopHTTP | CloseSearch | CancelShutdown | CloseNotification | ClosePublisher | CloseRabbit
  | CloseKafka | CloseDB | ShutdownTracing

text \<open>What \<open>main\<close> defers, in the order of the program: RabbitMQ, its publisher and the notification client if they are there.\<close>

definition main_defers :: "bool \<Rightarrow> bool \<Rightarrow> bool \<Rightarrow> closing list" where
  "main_defers rabbit publisher notif =
     [ShutdownTracing, CloseDB, CloseKafka]
     @ (if rabbit then CloseRabbit # (if publisher then [ClosePublisher] else []) else [])
     @ (if notif then [CloseNotification] else []) @ [CancelShutdown]"

text \<open>After the signal: the statements of \<open>main\<close>, then the deferred calls, last first.\<close>

definition main_stop :: "bool \<Rightarrow> bool \<Rightarrow> bool \<Rightarrow> bool \<Rightarrow> closing list" where
  "main_stop search rabbit publisher notif =
     [StopGRPC, StopHTTP] @ (if search then [CloseSearch] else []) @ rev (main_defers rabbit publisher notif)"

text \<open>No request is running when a resource is closed, and everything is closed once, after what uses it.\<close>

lemma stop_order:
  "\<exists>pre. main_stop search rabbit publisher notif = StopGRPC # StopHTTP # pre @ [CloseKafka, CloseDB, ShutdownTracing]
     \<and> (rabbit \<and> publisher \<longrightarrow> drop (length pre - 2) pre = [ClosePublisher, CloseRabbit])"
  "distinct (main_stop search rabbit publisher notif)"
  by (auto simp: main_stop_def main_defers_def)

text \<open>MongoDB is optional: without it disputes go without a report.\<close>

definition main_reports :: "('c \<times> string \<Rightarrow> damage_report \<Rightarrow> gerr + string option) \<Rightarrow> gerr + 'c \<times> string \<Rightarrow> (damage_report \<Rightarrow> gerr + string option) option" where
  "main_reports insert_one conn = (case conn of Inl e \<Rightarrow> None | Inr mongoDB \<Rightarrow> Some (insert_one mongoDB))"

subsection \<open>The end of the other processes\<close>

text \<open>
  A gRPC server that fails ends its process at once, without the deferred calls; after the signal the
  context is cancelled and the running calls are awaited, and the connections are closed last.
\<close>

datatype daemon_closing = CancelWork | DrainCalls | CloseBroker | CloseUsers

definition grpc_failed :: "string \<Rightarrow> gerr option \<Rightarrow> daemon_closing list \<Rightarrow> string + daemon_closing list" where
  "grpc_failed process served closings =
     (case served of Some e \<Rightarrow> Inl (process @ '': grpc serve: '' @ err_text e) | None \<Rightarrow> Inr closings)"

definition notification_end :: "gerr option \<Rightarrow> string + daemon_closing list" where
  "notification_end served = grpc_failed ''notification-service'' served
     ([CancelWork, DrainCalls] @ rev [CloseUsers, CancelWork, CloseBroker])"

definition indexer_end :: "gerr option \<Rightarrow> string + daemon_closing list" where
  "indexer_end served = grpc_failed ''search-indexer'' served ([CancelWork, DrainCalls] @ [CancelWork])"

definition thumbnail_end :: "daemon_closing list" where
  "thumbnail_end = [CancelWork] @ rev [CloseBroker, CancelWork]"

text \<open>
  The consumers are cancelled before anything is closed, but none is awaited: what follows the
  cancellation is the drain of the gRPC calls or, in the thumbnail worker, the end of the process.
\<close>

lemma workers_cancelled_first:
  "notification_end None = Inr (CancelWork # DrainCalls # [CloseBroker, CancelWork, CloseUsers])"
  "hd thumbnail_end = CancelWork" "DrainCalls \<notin> set thumbnail_end"
  "is_ok (notification_end served) \<longleftrightarrow> served = None" "is_ok (indexer_end served) \<longleftrightarrow> served = None"
  by (auto simp: notification_end_def indexer_end_def thumbnail_end_def grpc_failed_def is_ok_iff split: option.splits)

end
