(* ===== verification/JsonClean.thy ===== *)
theory JsonClean
  imports GoJson
begin

text \<open>
  What a decoder delivers: whatever bytes it reads, every string is valid UTF-8, invalid bytes and
  lone surrogates having been replaced, and every integer fits an \<open>int64\<close>.
\<close>

subsection \<open>UTF-8 of what is put together\<close>

lemma rune_size_append: "rune_size s \<noteq> 0 \<Longrightarrow> rune_size (s @ t) = rune_size s"
  using rune_size_take [of s "drop (rune_size s) s @ t"] by (simp flip: append_assoc)

lemma valid_Nil [simp]: "valid_utf8 []"
  by (simp add: valid_utf8.simps)

lemma valid_append: "valid_utf8 s \<Longrightarrow> valid_utf8 t \<Longrightarrow> valid_utf8 (s @ t)"
proof (induction s rule: valid_utf8.induct)
  case (1 s)
  show ?case
  proof (cases "s = []")
    case False
    then have n: "rune_size s \<noteq> 0" "valid_utf8 (drop (rune_size s) s)"
      using 1(2) by (auto simp: valid_utf8.simps [of s] split: if_splits)
    then show ?thesis
      using 1(1) [OF False n(1) n(2) 1(3)] rune_size_append [OF n(1)] rune_size_length [of s]
      by (simp add: valid_utf8.simps [of "s @ t"])
  qed (use 1(3) in simp)
qed

lemma valid_one: "rune_size s = length s \<Longrightarrow> valid_utf8 s"
  by (simp add: valid_utf8.simps [of s])

lemma valid_front: "valid_utf8 (take (rune_size s) s)"
proof (cases "rune_size s = 0")
  case False
  then show ?thesis using rune_size_take [OF False, of "[]"] rune_size_length [of s] by (intro valid_one) simp
qed simp

lemma valid_replacement: "valid_utf8 replacement"
  by (rule valid_one) (simp add: replacement_def rune_size.simps(2) first_byte_def continues_def)

lemma byte_char_of: "n < 256 \<Longrightarrow> byte (char_of (n :: nat)) = n"
  by simp

lemma valid_rune_bytes:
  assumes "n < 0x110000" and "\<not> surrogate n"
  shows "valid_utf8 (rune_bytes n)"
proof (rule valid_one)
  consider "n < 0x80" | (two) "0x80 \<le> n" "n < 0x800" | (three) "0x800 \<le> n" "n < 0x10000" | (four) "0x10000 \<le> n" by linarith
  then show "rune_size (rune_bytes n) = length (rune_bytes n)"
  proof cases
    case two
    then have "2 \<le> n div 64" "n div 64 < 32" "n mod 64 < 64" by auto
    then show ?thesis using two by (simp add: rune_bytes_def rune_size.simps(2) first_byte_def continues_def byte_char_of)
  next
    case three
    let ?a = "n div 4096" and ?b = "n div 64 mod 64"
    have q: "n = 64 * (n div 64) + n mod 64" "n div 64 = 64 * ?a + ?b" "?b < 64" "n mod 64 < 64"
      using div_mult2_eq [of n 64 64] mult_div_mod_eq [of 64 "n div 64"] by simp_all
    then have "?a < 16" "?a = 0 \<Longrightarrow> 32 \<le> ?b" using three by linarith+
    moreover have "?b \<le> 31" if "?a = 13" using q that assms(2) unfolding surrogate_def by linarith
    moreover have "?b \<le> 63" "n mod 64 \<le> 63" "?a = 0 \<Longrightarrow> n div 64 \<le> 63" using q by linarith+
    ultimately show ?thesis using three by (simp add: rune_bytes_def rune_size.simps(2) first_byte_def continues_def byte_char_of)
  next
    case four
    let ?a = "n div 262144" and ?b = "n div 4096 mod 64"
    have q: "n = 4096 * (n div 4096) + n mod 4096" "n div 4096 = 64 * ?a + ?b" "?b < 64" "n mod 4096 < 4096"
      using div_mult2_eq [of n 4096 64] mult_div_mod_eq [of 64 "n div 4096"] by simp_all
    then have "?a < 5" "?a = 0 \<Longrightarrow> 16 \<le> ?b" "?a = 4 \<Longrightarrow> ?b \<le> 15" "?b \<le> 63" "?a = 0 \<Longrightarrow> n div 4096 \<le> 63"
      using four assms(1) by linarith+
    moreover have "n div 64 mod 64 \<le> 63" "n mod 64 \<le> 63"
      using mod_less_divisor [of 64 "n div 64"] mod_less_divisor [of 64 n] by linarith+
    ultimately show ?thesis using four by (auto simp: rune_bytes_def rune_size.simps(2) first_byte_def continues_def byte_char_of)
  qed (simp add: rune_bytes_def rune_size.simps(2) first_byte_def byte_char_of)
qed

subsection \<open>Strings\<close>

lemma hex_val_less: "hex_val c = Some n \<Longrightarrow> n < 16"
  by (auto simp: hex_val_def is_digit_def digit_val_def split: if_splits)

lemma hex4_less: "hex4 s = Some (n, r) \<Longrightarrow> n < 0x10000"
  by (induction s rule: hex4.induct) (auto split: option.splits dest!: hex_val_less)

lemma unescape_u_valid:
  assumes "unescape_u s = Some (t, r)"
  shows "valid_utf8 t"
proof -
  obtain n r1 where n: "hex4 s = Some (n, r1)" using assms by (auto simp: unescape_u_def split: option.splits)
  note nb = hex4_less [OF n]
  show ?thesis
  proof (cases "surrogate n")
    case False
    then show ?thesis using assms n nb valid_rune_bytes [of n] by (simp add: unescape_u_def)
  next
    case True
    then have "t = replacement \<or> (\<exists>m. n < 0xDC00 \<and> 0xDC00 \<le> m \<and> m < 0xE000 \<and> t = rune_bytes ((n - 0xD800) * 1024 + (m - 0xDC00) + 0x10000))"
      using assms n by (auto simp: unescape_u_def split: option.splits if_splits)
    then show ?thesis
    proof
      assume "\<exists>m. n < 0xDC00 \<and> 0xDC00 \<le> m \<and> m < 0xE000 \<and> t = rune_bytes ((n - 0xD800) * 1024 + (m - 0xDC00) + 0x10000)"
      then obtain m where m: "n < 0xDC00" "0xDC00 \<le> m" "m < 0xE000" "t = rune_bytes ((n - 0xD800) * 1024 + (m - 0xDC00) + 0x10000)"
        by blast
      have "(n - 0xD800) * 1024 + (m - 0xDC00) + 0x10000 < 0x110000" using m True unfolding surrogate_def by linarith
      moreover have "\<not> surrogate ((n - 0xD800) * 1024 + (m - 0xDC00) + 0x10000)" by (simp add: surrogate_def)
      ultimately show ?thesis unfolding m(4) by (rule valid_rune_bytes)
    qed (simp add: valid_replacement)
  qed
qed

lemma valid_ascii: "list_all (\<lambda>c. byte c < 0x80) s \<Longrightarrow> valid_utf8 s"
proof (induction s)
  case (Cons c s)
  then show ?case using rune_size_ascii [of c s] by (simp add: valid_utf8.simps [of "c # s"])
qed (simp add: valid_utf8.simps)

lemma unescape_valid: "unescape s = Some (t, r) \<Longrightarrow> valid_utf8 t"
  by (auto simp: unescape_def valid_ascii split: list.splits if_splits dest: unescape_u_valid)

lemma lex_string_valid: "lex_string s = Some (t, r) \<Longrightarrow> valid_utf8 t"
proof (induction s arbitrary: t r rule: lex_string.induct)
  case (2 c cs)
  consider "c = CHR 0x22 \<or> byte c < 0x20 \<and> c \<noteq> CHR 0x5C" | (esc) "c = CHR 0x5C" | (rune) "c \<noteq> CHR 0x22" "c \<noteq> CHR 0x5C" "\<not> byte c < 0x20"
    by blast
  then show ?case
  proof cases
    case esc
    then obtain u r1 t1 where "unescape cs = Some (u, r1)" "lex_string r1 = Some (t1, r)" "t = u @ t1"
      using 2(4) by (auto simp: lex_unescape split: option.splits)
    then show ?thesis using 2(1) esc unescape_valid [of cs u r1] by (auto intro: valid_append)
  next
    case rune
    let ?n = "rune_size (c # cs)"
    from rune obtain t1 where t1: "lex_string (if ?n = 0 then cs else drop ?n (c # cs)) = Some (t1, r)"
        "t = (if ?n = 0 then replacement else take ?n (c # cs)) @ t1"
      using 2(4) by (auto simp: lex_string.simps(2) Let_def split: if_splits)
    have "valid_utf8 t1"
    proof (cases "?n = 0")
      case True
      then show ?thesis using t1(1) rune by (intro 2(2)) simp_all
    next
      case False
      then show ?thesis using t1(1) rune by (intro 2(3)) simp_all
    qed
    then show ?thesis using t1(2) valid_replacement valid_front [of "c # cs"] by (auto intro: valid_append split: if_splits)
  qed (use 2(4) in \<open>auto simp: lex_string.simps(2) split: if_splits\<close>)
qed simp

subsection \<open>Values\<close>

fun clean :: "json \<Rightarrow> bool" where
  "clean (JNum n) \<longleftrightarrow> in_int64 n"
| "clean (JStr s) \<longleftrightarrow> valid_utf8 s"
| "clean (JTime t) \<longleftrightarrow> False"
| "clean (JArr vs) \<longleftrightarrow> list_all clean vs"
| "clean (JObj fs) \<longleftrightarrow> list_all (\<lambda>(k, v). valid_utf8 k \<and> clean v) fs"
| "clean j \<longleftrightarrow> True"

fun clean_token :: "jtoken \<Rightarrow> bool" where
  "clean_token (TVal v) \<longleftrightarrow> clean v"
| "clean_token t \<longleftrightarrow> True"

fun clean_frame :: "jframe \<Rightarrow> bool" where
  "clean_frame (FArr vs) \<longleftrightarrow> list_all clean vs"
| "clean_frame (FObj fs) \<longleftrightarrow> list_all (\<lambda>(k, v). valid_utf8 k \<and> clean v) fs"
| "clean_frame (FKey fs k) \<longleftrightarrow> valid_utf8 k \<and> list_all (\<lambda>(k, v). valid_utf8 k \<and> clean v) fs"

fun clean_step :: "jstep \<Rightarrow> bool" where
  "clean_step (Done v) \<longleftrightarrow> clean v"
| "clean_step (More e st) \<longleftrightarrow> list_all clean_frame st"

lemma lex_number_clean: "lex_number s = Some (v, r) \<Longrightarrow> clean v"
  by (auto simp: lex_number_def number_of_def Let_def split: option.splits prod.splits if_splits)

lemma lex_value_clean: "lex_value s = Some (v, r) \<Longrightarrow> clean v"
  by (auto simp: lex_value_def lex_literal_def split: if_splits option.splits dest: lex_number_clean lex_string_valid)

lemma punctuation_clean: "punctuation c = Some t \<Longrightarrow> clean_token t"
  by (auto simp: punctuation_def split: if_splits)

lemma next_token_clean: "next_token s = Some (t, r) \<Longrightarrow> clean_token t"
  by (auto simp: next_token_def split: list.splits option.splits dest: lex_value_clean punctuation_clean)

lemma complete_clean: "complete_value v st = Some p \<Longrightarrow> clean v \<Longrightarrow> list_all clean_frame st \<Longrightarrow> clean_step p"
  by (induction v st rule: complete_value.induct) auto

lemma feed_clean: "feed e st t = Some p \<Longrightarrow> clean_token t \<Longrightarrow> list_all clean_frame st \<Longrightarrow> clean_step p"
  by (induction e st t rule: feed.induct)
    (auto split: if_splits list.splits jframe.splits json.splits dest: complete_clean)

lemma decode_run_clean: "decode_run e st s = Some (v, r) \<Longrightarrow> list_all clean_frame st \<Longrightarrow> clean v"
proof (induction e st s rule: decode_run.induct)
  case (1 e st s)
  then obtain t r1 p where t: "next_token s = Some (t, r1)" "feed e st t = Some p"
    by (auto simp: decode_run.simps [of e st s] split: option.splits)
  have "clean_step p" using feed_clean [OF t(2) next_token_clean [OF t(1)] 1(3)] .
  then show ?case using 1 t by (cases p) (auto simp: decode_run.simps [of e st s])
qed

lemma Decode_clean: "json_Decode s = Some (v, r) \<Longrightarrow> clean v"
  using decode_run_clean [of EValue "[]" s v r] by (simp add: json_Decode_def)

subsection \<open>Fields\<close>

abbreviation clean_fields :: "(string \<times> json) list \<Rightarrow> bool" where
  "clean_fields fs \<equiv> list_all (\<lambda>(k, v). valid_utf8 k \<and> clean v) fs"

lemma clean_named: "clean_fields fs \<Longrightarrow> list_all clean (named k fs)"
  by (auto simp: named_def list_all_iff)

lemma fold_assign_None: "fold assign_str vs None = None" "fold assign_num vs None = None" "fold assign_strs vs None = None"
proof -
  have "assign_str v None = None" "assign_num v None = None" "assign_strs v None = None" for v by (cases v; simp)+
  then show "fold assign_str vs None = None" "fold assign_num vs None = None" "fold assign_strs vs None = None"
    by (induction vs) simp_all
qed

lemma assign_str_clean: "assign_str v (Some s) = Some t \<Longrightarrow> clean v \<Longrightarrow> valid_utf8 s \<Longrightarrow> valid_utf8 t"
  by (cases v) auto

lemma assign_num_clean: "assign_num v (Some n) = Some m \<Longrightarrow> clean v \<Longrightarrow> in_int64 n \<Longrightarrow> in_int64 m"
  by (cases v) auto

lemma assign_elems_clean:
  "assign_elems i vs buf = Some b \<Longrightarrow> list_all clean vs \<Longrightarrow> list_all valid_utf8 buf \<Longrightarrow> list_all valid_utf8 b"
proof (induction i vs buf rule: assign_elems.induct)
  case (2 i v vs buf)
  let ?b = "if i < length buf then buf else buf @ ['''']"
  obtain s where s: "assign_str v (Some (?b ! i)) = Some s" "assign_elems (Suc i) vs (?b[i := s]) = Some b"
    using 2(2) by (auto simp: Let_def split: option.splits)
  have b: "list_all valid_utf8 ?b" using 2(4) by simp
  show ?case
  proof (cases "i < length ?b")
    case True
    then have "valid_utf8 (?b ! i)" using b by (simp add: list_all_length)
    then have "valid_utf8 s" using assign_str_clean [OF s(1)] 2(3) by simp
    then have "list_all valid_utf8 (?b[i := s])" using b set_update_subset_insert [of ?b i s] by (auto simp: list_all_iff)
    then show ?thesis using 2(1) [OF refl s(1)] s(2) 2(3) by simp
  next
    case False
    then have "?b[i := s] = ?b" by (intro list_update_beyond) linarith
    then show ?thesis using 2(1) [OF refl s(1)] s(2) 2(3) b by simp
  qed
qed simp

lemma assign_strs_clean:
  "assign_strs v (Some (buf, n)) = Some (b, m) \<Longrightarrow> clean v \<Longrightarrow> list_all valid_utf8 buf \<Longrightarrow> list_all valid_utf8 b"
  by (cases v) (auto split: if_splits dest: assign_elems_clean)

lemma get_str_clean: "get_str fs k = Some s \<Longrightarrow> clean_fields fs \<Longrightarrow> valid_utf8 s"
proof -
  have "fold assign_str vs (Some c) = Some s \<Longrightarrow> list_all clean vs \<Longrightarrow> valid_utf8 c \<Longrightarrow> valid_utf8 s" for vs c
  proof (induction vs arbitrary: c)
    case (Cons v vs)
    then show ?case by (cases "assign_str v (Some c)") (auto simp: fold_assign_None dest: assign_str_clean)
  qed simp
  then show "get_str fs k = Some s \<Longrightarrow> clean_fields fs \<Longrightarrow> valid_utf8 s"
    using clean_named by (fastforce simp: get_str_def)
qed

lemma get_num_clean: "get_num fs k = Some n \<Longrightarrow> clean_fields fs \<Longrightarrow> in_int64 n"
proof -
  have "fold assign_num vs (Some c) = Some n \<Longrightarrow> list_all clean vs \<Longrightarrow> in_int64 c \<Longrightarrow> in_int64 n" for vs c
  proof (induction vs arbitrary: c)
    case (Cons v vs)
    then show ?case by (cases "assign_num v (Some c)") (auto simp: fold_assign_None dest: assign_num_clean)
  qed simp
  then show "get_num fs k = Some n \<Longrightarrow> clean_fields fs \<Longrightarrow> in_int64 n"
    using clean_named by (fastforce simp: get_num_def int64_defs)
qed

lemma get_strs_clean: "get_strs fs k = Some ss \<Longrightarrow> clean_fields fs \<Longrightarrow> list_all valid_utf8 ss"
proof -
  have "fold assign_strs vs (Some (c, m)) = Some (b, n) \<Longrightarrow> list_all clean vs \<Longrightarrow> list_all valid_utf8 c \<Longrightarrow> list_all valid_utf8 b" for vs c m b n
  proof (induction vs arbitrary: c m)
    case (Cons v vs)
    then show ?case by (cases "assign_strs v (Some (c, m))") (auto simp: fold_assign_None dest: assign_strs_clean)
  qed simp
  then show "get_strs fs k = Some ss \<Longrightarrow> clean_fields fs \<Longrightarrow> list_all valid_utf8 ss"
    using clean_named by (fastforce simp: get_strs_def list_all_iff dest: in_set_takeD)
qed

end
