(* ===== verification/Requests.thy ===== *)
theory Requests
  imports System Services Startup JsonClean
begin

text \<open>
  Bodies as bytes: \<open>httputil.DecodeJSON\<close> and the structs the handlers decode into, what the API does
  with a body that does not decode, and the messages between the processes as the bytes they are.
\<close>

subsection \<open>Decoding a body\<close>

text \<open>Only the first value of the body is read; a key without a field is an error.\<close>

definition DecodeJSON :: "string list \<Rightarrow> ((string \<times> json) list \<Rightarrow> 'a option) \<Rightarrow> string \<Rightarrow> 'a option" where
  "DecodeJSON ks rd raw = (case json_Decode raw of None \<Rightarrow> None
     | Some (j, rest) \<Rightarrow> into_struct (\<lambda>fs. if known ks fs then rd fs else None) j)"

definition decode_booking :: "string \<Rightarrow> create_booking_request option" where
  "decode_booking = DecodeJSON [''listing_id'', ''start_date'', ''end_date''] (\<lambda>fs.
     case (get_num fs ''listing_id'', get_str fs ''start_date'', get_str fs ''end_date'') of
       (Some l, Some s, Some e) \<Rightarrow> Some \<lparr>cr_listing = l, cr_start = s, cr_end = e\<rparr> | _ \<Rightarrow> None)"

definition decode_listing :: "string \<Rightarrow> listing_request option" where
  "decode_listing = DecodeJSON [''category_id'', ''title'', ''description'', ''price_per_day_cents'', ''deposit_cents''] (\<lambda>fs.
     case (get_num fs ''category_id'', get_str fs ''title'', get_str fs ''description'', get_num fs ''price_per_day_cents'',
           get_num fs ''deposit_cents'') of
       (Some c, Some t, Some d, Some p, Some q) \<Rightarrow> Some \<lparr>lq_category = c, lq_title = t, lq_desc = d, lq_price = p, lq_deposit = q\<rparr>
     | _ \<Rightarrow> None)"

definition decode_review :: "string \<Rightarrow> review_request option" where
  "decode_review = DecodeJSON [''booking_id'', ''rating'', ''comment''] (\<lambda>fs.
     case (get_num fs ''booking_id'', get_num fs ''rating'', get_str fs ''comment'') of
       (Some b, Some n, Some c) \<Rightarrow> Some \<lparr>rr_booking = b, rr_rating = n, rr_comment = c\<rparr> | _ \<Rightarrow> None)"

definition decode_dispute :: "string \<Rightarrow> dispute_request option" where
  "decode_dispute = DecodeJSON [''description'', ''photo_urls''] (\<lambda>fs.
     case (get_str fs ''description'', get_strs fs ''photo_urls'') of
       (Some d, Some ps) \<Rightarrow> Some \<lparr>dq_description = d, dq_photos = ps\<rparr> | _ \<Rightarrow> None)"

definition decode_register :: "string \<Rightarrow> RegisterInput option" where
  "decode_register = DecodeJSON [''email'', ''password'', ''display_name'', ''role''] (\<lambda>fs.
     case (get_str fs ''email'', get_str fs ''password'', get_str fs ''display_name'', get_str fs ''role'') of
       (Some e, Some p, Some n, Some r) \<Rightarrow> Some \<lparr>ri_email = e, ri_password = p, ri_name = n, ri_role = r\<rparr> | _ \<Rightarrow> None)"

definition decode_login :: "string \<Rightarrow> (string \<times> string) option" where
  "decode_login = DecodeJSON [''email'', ''password''] (\<lambda>fs.
     case (get_str fs ''email'', get_str fs ''password'') of (Some e, Some p) \<Rightarrow> Some (e, p) | _ \<Rightarrow> None)"

text \<open>The partner's payload is decoded without \<open>DisallowUnknownFields\<close>.\<close>

definition decode_webhook :: "string \<Rightarrow> insurance_payload option" where
  "decode_webhook raw = (case json_Decode raw of None \<Rightarrow> None
     | Some (j, rest) \<Rightarrow> into_struct (\<lambda>fs.
         case (get_num fs ''booking_id'', get_str fs ''event_type'', get_str fs ''policy_ref'') of
           (Some b, Some e, Some p) \<Rightarrow> Some \<lparr>ip_booking = b, ip_event = e, ip_policy = p\<rparr> | _ \<Rightarrow> None) j)"

text \<open>The routes that read a body, on the bytes of a request.\<close>

datatype body_route = WithBooking | WithListing | WithReview | WithDispute | WithRegister | WithLogin | WithWebhook

fun route_of :: "body_route \<Rightarrow> string \<Rightarrow> route" where
  "route_of WithBooking raw = PostBookings (decode_booking raw)"
| "route_of WithListing raw = PostListings (decode_listing raw)"
| "route_of WithReview raw = PostReviews (decode_review raw)"
| "route_of WithDispute raw = PostDispute (decode_dispute raw)"
| "route_of WithRegister raw = PostRegister (decode_register raw)"
| "route_of WithLogin raw = PostLogin (decode_login raw)"
| "route_of WithWebhook raw = PartnerInsurance (decode_webhook raw)"

subsection \<open>Messages between the processes\<close>

definition email_message :: "user_client \<Rightarrow> string \<Rightarrow> world \<Rightarrow> (gerr + sent_mail) \<times> world" where
  "email_message client raw w = (case Unmarshal raw of None \<Rightarrow> (Inl (OtherErr ''json''), w) | Some j \<Rightarrow> email_handler client j w)"

definition listing_message :: "es_outcome \<Rightarrow> string \<Rightarrow> es_index \<Rightarrow> gerr option \<times> es_index" where
  "listing_message out raw ix = (case Unmarshal raw of None \<Rightarrow> (Some (OtherErr ''json''), ix) | Some j \<Rightarrow> handle_listing_event out j ix)"

definition audit_message :: "string \<Rightarrow> gerr option \<times> string" where
  "audit_message raw = (case Unmarshal raw of None \<Rightarrow> (Some (OtherErr ''json''), '''') | Some j \<Rightarrow> audit_handler j)"

definition thumbnail_message :: "'i image_lib \<Rightarrow> string \<Rightarrow> bool" where
  "thumbnail_message L raw = (case Unmarshal raw of None \<Rightarrow> False | Some j \<Rightarrow> thumbnail_worker L j)"

subsection \<open>What a client that encodes its request gets decoded\<close>


lemma Decode_object:
  assumes "sendable T (JObj fs)" and "nesting (JObj fs) \<le> maxNestingDepth"
  shows "json_Decode (Marshal T (JObj fs) @ rest) = Some (as_read T (JObj fs), rest)"
proof (cases "fs = []")
  case True
  then show ?thesis by (simp add: json_Decode_def decode_run_token maxNestingDepth_def)
next
  case False
  have "valid_utf8 k \<and> reads_back T v \<and> Suc (length ([] :: jframe list)) + nesting v \<le> maxNestingDepth" if "(k, v) \<in> set fs" for k v
    using that assms nesting_below(2) [OF that] Marshal_reads_back [of T v] by (auto simp: list_all_iff)
  then show ?thesis
    using reads_back_fields [OF False, of T "[]" EMember "[]" rest]
    by (simp add: json_Decode_def decode_run_token maxNestingDepth_def)
qed

lemma DecodeJSON_object:
  assumes "sendable T (JObj fs)" and "nesting (JObj fs) \<le> maxNestingDepth"
  shows "DecodeJSON ks rd (Marshal T (JObj fs) @ rest)
    = (if known ks fs then rd (map (\<lambda>(k, v). (k, as_read T v)) fs) else None)"
proof -
  have "known ks (map (\<lambda>(k, v). (k, as_read T v)) fs) = known ks fs" by (auto simp: known_def list_all_iff)
  then show ?thesis using Decode_object [OF assms] by (simp add: DecodeJSON_def into_struct_def)
qed

text \<open>The objects a client sends for the requests.\<close>

definition booking_body :: "create_booking_request \<Rightarrow> json" where
  "booking_body q = JObj [(''listing_id'', JNum (cr_listing q)), (''start_date'', JStr (cr_start q)), (''end_date'', JStr (cr_end q))]"

definition listing_body :: "listing_request \<Rightarrow> json" where
  "listing_body q = JObj [(''category_id'', JNum (lq_category q)), (''title'', JStr (lq_title q)), (''description'', JStr (lq_desc q)),
     (''price_per_day_cents'', JNum (lq_price q)), (''deposit_cents'', JNum (lq_deposit q))]"

definition review_body :: "review_request \<Rightarrow> json" where
  "review_body q = JObj [(''booking_id'', JNum (rr_booking q)), (''rating'', JNum (rr_rating q)), (''comment'', JStr (rr_comment q))]"

definition dispute_body :: "dispute_request \<Rightarrow> json" where
  "dispute_body q = JObj [(''description'', JStr (dq_description q)), (''photo_urls'', JArr (map JStr (dq_photos q)))]"

definition register_body :: "RegisterInput \<Rightarrow> json" where
  "register_body q = JObj [(''email'', JStr (ri_email q)), (''password'', JStr (ri_password q)), (''display_name'', JStr (ri_name q)),
     (''role'', JStr (ri_role q))]"

lemmas body_defs = booking_body_def listing_body_def review_body_def dispute_body_def register_body_def
lemmas decode_defs = decode_booking_def decode_listing_def decode_review_def decode_dispute_def decode_register_def decode_login_def

lemma body_nesting:
  "nesting (booking_body b) \<le> maxNestingDepth" "nesting (listing_body l) \<le> maxNestingDepth"
  "nesting (review_body v) \<le> maxNestingDepth" "nesting (dispute_body d) \<le> maxNestingDepth"
  "nesting (register_body u) \<le> maxNestingDepth"
  by (simp_all add: body_defs maxNestingDepth_def comp_def image_constant_conv)

lemma as_read_strings: "map (as_read T \<circ> JStr) xs = map JStr xs"
  by simp

lemma body_decodes:
  "sendable T (booking_body b) \<Longrightarrow> decode_booking (Marshal T (booking_body b) @ rest) = Some b"
  "sendable T (listing_body l) \<Longrightarrow> decode_listing (Marshal T (listing_body l) @ rest) = Some l"
  "sendable T (review_body v) \<Longrightarrow> decode_review (Marshal T (review_body v) @ rest) = Some v"
  "sendable T (dispute_body d) \<Longrightarrow> decode_dispute (Marshal T (dispute_body d) @ rest) = Some d"
  "sendable T (register_body u) \<Longrightarrow> decode_register (Marshal T (register_body u) @ rest) = Some u"
  by (simp_all add: decode_defs body_defs body_nesting [unfolded body_defs] DecodeJSON_object known_def field_defs as_read_strings
      del: Marshal.simps sendable.simps nesting.simps assign_strs.simps(1))

text \<open>And whatever bytes arrive, what they decode to could have been sent like this.\<close>

lemma DecodeJSON_clean:
  assumes "DecodeJSON ks rd raw = Some q"
  obtains fs where "rd fs = Some q" "clean_fields fs"
proof -
  obtain j r where j: "json_Decode raw = Some (j, r)" "into_struct (\<lambda>fs. if known ks fs then rd fs else None) j = Some q"
    using assms by (auto simp: DecodeJSON_def split: option.splits)
  then show ?thesis using Decode_clean [OF j(1)] that by (cases j) (auto simp: into_struct_def split: if_splits)
qed

lemma decoded_sendable:
  "decode_booking raw = Some b \<Longrightarrow> sendable T (booking_body b)" "decode_listing raw = Some l \<Longrightarrow> sendable T (listing_body l)"
  "decode_review raw = Some v \<Longrightarrow> sendable T (review_body v)" "decode_dispute raw = Some d \<Longrightarrow> sendable T (dispute_body d)"
  "decode_register raw = Some u \<Longrightarrow> sendable T (register_body u)"
  unfolding decode_defs body_defs
  by (erule DecodeJSON_clean,
    auto simp: valid_ascii list_all_iff split: option.splits dest!: get_str_clean get_num_clean get_strs_clean; fail)+

text \<open>C15 (roundtrip): the booking, listing, review, dispute and registration requests a handler can ever
  see are exactly those with UTF-8 texts and integers of an \<open>int64\<close>; the object a client encodes such a
  request as decodes to exactly it, even with garbage after the object; and an object with a key that
  names no field is refused.\<close>

theorem request_bodies_roundtrip:
  "((\<exists>raw. decode_booking raw = Some b) \<longleftrightarrow> sendable T (booking_body b))
    \<and> ((\<exists>raw. decode_listing raw = Some l) \<longleftrightarrow> sendable T (listing_body l))
    \<and> ((\<exists>raw. decode_review raw = Some v) \<longleftrightarrow> sendable T (review_body v))
    \<and> ((\<exists>raw. decode_dispute raw = Some d) \<longleftrightarrow> sendable T (dispute_body d))
    \<and> ((\<exists>raw. decode_register raw = Some u) \<longleftrightarrow> sendable T (register_body u))
    \<and> (sendable T (booking_body b) \<longrightarrow> decode_booking (Marshal T (booking_body b) @ rest) = Some b)
    \<and> (sendable T (listing_body l) \<longrightarrow> decode_listing (Marshal T (listing_body l) @ rest) = Some l)
    \<and> (sendable T (review_body v) \<longrightarrow> decode_review (Marshal T (review_body v) @ rest) = Some v)
    \<and> (sendable T (dispute_body d) \<longrightarrow> decode_dispute (Marshal T (dispute_body d) @ rest) = Some d)
    \<and> (sendable T (register_body u) \<longrightarrow> decode_register (Marshal T (register_body u) @ rest) = Some u)
    \<and> (sendable T (JObj fs) \<and> nesting (JObj fs) \<le> maxNestingDepth \<and> \<not> known ks fs \<longrightarrow>
         DecodeJSON ks rd (Marshal T (JObj fs) @ rest) = None)"
  using decoded_sendable body_decodes DecodeJSON_object [of T fs ks rd rest] by metis

subsection \<open>What the API does with a body that does not decode\<close>

definition refuses :: "handler \<Rightarrow> bool" where
  "refuses h \<longleftrightarrow> (\<forall>r w resp w'. h r w = (resp, w') \<longrightarrow> still w w' \<and> rs_status resp \<in> {400, 401, 429})"

lemma refusesI: "(\<And>r w. still w (snd (h r w)) \<and> rs_status (fst (h r w)) \<in> {400, 401, 429}) \<Longrightarrow> refuses h"
  unfolding refuses_def by (metis fst_conv snd_conv)

lemma refuses_limit: "refuses h \<Longrightarrow> 0 < k \<Longrightarrow> k < 2 ^ 53 \<Longrightarrow> refuses (Middleware mx (k * second) ip h)"
proof -
  assume h: "refuses h" and k: "0 < k" "k < 2 ^ 53"
  show ?thesis unfolding refuses_def
  proof (intro allI impI)
    fix r w resp w' assume m: "Middleware mx (k * second) ip h r w = (resp, w')"
    obtain w1 where w1: "same_servers w w1" "effects w1 = effects w"
      "Middleware mx (k * second) ip h r w = (Error 429 ''rate limit exceeded'', w1) \<or> Middleware mx (k * second) ip h r w = h r w1"
      by (rule Middleware_cases [OF k])
    then show "still w w' \<and> rs_status resp \<in> {400, 401, 429}"
      using h m still_trans [of w w1 w'] unfolding refuses_def by (fastforce simp: still_def)
  qed
qed

lemma refuses_jwt: "refuses h \<Longrightarrow> refuses (RequireJWT L j h)"
  unfolding refuses_def RequireJWT_def by (auto split: option.splits sum.splits if_splits simp: still_refl)

lemma refuses_apikey: "(\<And>owner. refuses (h owner)) \<Longrightarrow> refuses (RequireAPIKey sha pepper h)"
  unfolding refuses_def RequireAPIKey_def
  by (auto split: option.splits sum.splits if_splits prod.splits simp: still_refl dest!: reads_servers(11) intro: still_trans)

lemma undecoded_refused:
  "refuses (\<lambda>r w. Create bh r None w)" "refuses (listing_create_handler lh None)" "refuses (review_handler None)"
  "refuses (Dispute_handler s reports None)" "refuses (\<lambda>r. Register_handler us None)" "refuses (\<lambda>r. Login_handler us None)"
  "refuses (InsuranceWebhook None owner)"
  by (auto simp: refuses_def Create_def listing_create_handler_def review_handler_def Dispute_handler_def Register_handler_def
      Login_handler_def InsuranceWebhook_def still_refl split: option.splits sum.splits)

text \<open>Whether the bytes give the route its request.\<close>

fun decodes :: "body_route \<Rightarrow> string \<Rightarrow> bool" where
  "decodes WithBooking raw \<longleftrightarrow> decode_booking raw \<noteq> None"
| "decodes WithListing raw \<longleftrightarrow> decode_listing raw \<noteq> None"
| "decodes WithReview raw \<longleftrightarrow> decode_review raw \<noteq> None"
| "decodes WithDispute raw \<longleftrightarrow> decode_dispute raw \<noteq> None"
| "decodes WithRegister raw \<longleftrightarrow> decode_register raw \<noteq> None"
| "decodes WithLogin raw \<longleftrightarrow> decode_login raw \<noteq> None"
| "decodes WithWebhook raw \<longleftrightarrow> decode_webhook raw \<noteq> None"

lemma route_refuses:
  assumes "\<not> decodes e raw"
  shows "refuses (case protected_route a (route_of e raw) of
      Some h \<Rightarrow> Middleware 300 (60 * second) (ResolveClientIP ip) (RequireJWT (ap_jwt a) (ap_issuer a) h)
    | None \<Rightarrow> open_route (with_redis_limits ip a) (route_of e raw))"
  using assms
  by (cases e; (cases "decode_login raw")?) (auto simp: with_redis_limits_def undecoded_refused intro!: refuses_limit refuses_jwt refuses_apikey)

text \<open>C16 (error): a body that does not decode, be it no JSON, a value of another kind, an unknown key or
  a number that does not fit, is answered with 400, if not before with 401 or 429, and leaves the
  database, the brokers and the mail queue as they were.\<close>

theorem undecodable_body_refused:
  assumes "\<not> decodes e raw" and "serve (with_redis_limits ip a) (route_of e raw) r w = (resp, w')"
  shows "rs_status resp \<in> {400, 401, 429} \<and> db_of w' = db_of w \<and> effects w' = effects w"
proof -
  let ?h = "case protected_route a (route_of e raw) of
      Some h \<Rightarrow> Middleware 300 (60 * second) (ResolveClientIP ip) (RequireJWT (ap_jwt a) (ap_issuer a) h)
    | None \<Rightarrow> open_route (with_redis_limits ip a) (route_of e raw)"
  have "w' = snd (?h r w)" "rs_status resp = rs_status (fst (?h r w))"
    using serve_snd [of "with_redis_limits ip a" "route_of e raw" r w] serve_status [of "with_redis_limits ip a" "route_of e raw" r w] assms(2)
    by (auto split: option.splits)
  then have "still w w' \<and> rs_status resp \<in> {400, 401, 429}"
    using route_refuses [OF assms(1), of ip a] unfolding refuses_def by (metis prod.collapse)
  then show ?thesis by (simp add: still_def same_servers_def)
qed

text \<open>A key is matched without regard to case, a price of 1.0 is no integer, and a body may go on
  after its object.\<close>

theorem request_bodies_roundtrip_witness:
  "decode_review (Marshal \<lparr>jt_time = \<lambda>t. '''', jt_float = \<lambda>x. ''0''\<rparr> (review_body \<lparr>rr_booking = 7, rr_rating = 5, rr_comment = ''<ok>''\<rparr>) @ ''}garbage'')
     = Some \<lparr>rr_booking = 7, rr_rating = 5, rr_comment = ''<ok>''\<rparr>"
proof -
  have "sendable \<lparr>jt_time = \<lambda>t. '''', jt_float = \<lambda>x. ''0''\<rparr> (review_body \<lparr>rr_booking = 7, rr_rating = 5, rr_comment = ''<ok>''\<rparr>)"
    by (simp add: review_body_def valid_ascii int64_defs)
  then show ?thesis
    using request_bodies_roundtrip [where v = "\<lparr>rr_booking = 7, rr_rating = 5, rr_comment = ''<ok>''\<rparr>"] by blast
qed

lemma sample_bodies:
  "decode_login (''{'' @ CHR 0x22 # ''Email'' @ CHR 0x22 # '':'' @ CHR 0x22 # ''a'' @ CHR 0x22 # ''}'') = Some (''a'', '''')"
  "decode_login ''null'' = Some ('''', '''')" "decode_login ''[]'' = None" "decode_login ''{,}'' = None"
  by code_simp+

theorem undecodable_body_refused_witness:
  "rs_status (fst (serve (with_redis_limits rq_remote sample_app) (route_of WithLogin ''[]'') (sample_req '''') sample_world)) \<in> {400, 401, 429}"
proof -
  have "\<not> decodes WithLogin ''[]''" by (simp add: sample_bodies)
  then show ?thesis
    using undecodable_body_refused [of WithLogin "''[]''" rq_remote sample_app "sample_req ''''" sample_world] by (metis prod.collapse)
qed

subsection \<open>Messages as bytes\<close>

text \<open>
  The handlers of the other processes do on the bytes a message arrives as what they do on its
  value, as long as ids fit an \<open>int64\<close> and texts are UTF-8.
\<close>

lemma email_crosses:
  assumes "in_int64 b" and "in_int64 i" and "valid_utf8 t"
  shows "email_message client (Marshal T (email_json b i t)) w = email_handler client (email_json b i t) w"
proof -
  have "Unmarshal (Marshal T (email_json b i t)) = Some (email_json b i t)"
    using Unmarshal_Marshal [of T "email_json b i t"] assms by (simp add: email_json_def valid_ascii maxNestingDepth_def)
  then show ?thesis by (simp add: email_message_def)
qed

lemma listing_crosses:
  assumes "in_int64 (le_listing e)" and "in_int64 (le_price e)"
    and "list_all valid_utf8 [le_title e, le_desc e, le_category e, le_status e]"
  shows "listing_message out (Marshal T (listing_event_json e)) ix = handle_listing_event out (listing_event_json e) ix"
proof -
  have "valid_utf8 (listing_event_str (le_type e))" by (cases "le_type e") (simp_all add: valid_ascii)
  then have "Unmarshal (Marshal T (listing_event_json e)) = Some (listing_event_json e)"
    using Unmarshal_Marshal [of T "listing_event_json e"] assms
    by (simp add: listing_event_json_def valid_ascii maxNestingDepth_def)
  then show ?thesis by (simp add: listing_message_def)
qed

text \<open>Times come as texts, which the audit does not read.\<close>

lemma audit_crosses:
  assumes "in_int64 (ev_booking v)" and "in_int64 (ev_listing v)" and "in_int64 (ev_renter v)" and "list_all plain (jt_time T (ev_at v))"
  shows "audit_message (Marshal T (event_json v)) = audit_handler (event_json v)"
proof -
  have "valid_utf8 (event_str (ev_type v))" "valid_utf8 (status_str (ev_status v))"
    by (cases "ev_type v"; simp add: valid_ascii) (cases "ev_status v"; simp add: valid_ascii)
  then have "Unmarshal (Marshal T (event_json v)) = Some (as_read T (event_json v))"
    using Unmarshal_Marshal [of T "event_json v"] assms by (simp add: event_json_def valid_ascii maxNestingDepth_def)
  moreover have "audit_handler (as_read T (event_json v)) = audit_handler (event_json v)"
    by (simp add: audit_handler_def decode_audit_def event_json_def field_defs)
  ultimately show ?thesis by (simp add: audit_message_def)
qed

end
