(* ===== verification/Messages.thy ===== *)
theory Messages
  imports EventRuns Requests SearchSpec ServicesSpec
begin

text \<open>
  What the processes tell each other, in every run of the whole API: every event, mail job,
  notification and push is about rows of the database, and whoever gets it reads its bytes back and
  does what the row asks for.
\<close>

subsection \<open>Messages are about rows\<close>

fun about_rows :: "tables \<Rightarrow> effect \<Rightarrow> bool" where
  "about_rows t (Published topic key val) \<longleftrightarrow>
     (\<exists>b\<in>set (t_bookings t). \<exists>ty st now. evolves st (bk_status b)
        \<and> Published topic key val = published (booking_event ty (b\<lparr>bk_status := st\<rparr>) now))
     \<or> (\<exists>l\<in>set (t_listings t). \<exists>n\<in>insert '''' (ca_name ` set (t_categories t)). Published topic key val = listed l n)"
| "about_rows t (EmailQueued job) \<longleftrightarrow>
     (\<exists>b\<in>set (t_bookings t). \<exists>m\<in>{''booking_approved'', ''booking_disputed''}. job = email_json (bk_id b) (bk_renter b) m)"
| "about_rows t (SyncSent user m) \<longleftrightarrow> (\<exists>b\<in>set (t_bookings t). bk_renter b = user)"
| "about_rows t (OwnerPush user j) \<longleftrightarrow> (\<exists>l\<in>set (t_listings t). ls_owner l = user)"

text \<open>Rows are only added and move along the lifecycle, so what was said stays about them.\<close>

lemma about_rows_history:
  assumes "about_rows t x" and "grows t t'" and "history_ok t t'"
  shows "about_rows t' x"
proof -
  have b: "\<exists>b'\<in>set (t_bookings t'). bk_id b' = bk_id b \<and> bk_listing b' = bk_listing b \<and> bk_renter b' = bk_renter b
      \<and> evolves (bk_status b) (bk_status b')" if "b \<in> set (t_bookings t)" for b
    using assms(3) that unfolding history_ok_def stay_of_booking_def by fastforce
  have l: "set (t_listings t) \<subseteq> set (t_listings t')" "t_categories t' = t_categories t"
    using assms(2) by (auto simp: grows_def)
  show ?thesis
  proof (cases x)
    case (Published topic key val)
    from assms(1) [unfolded Published about_rows.simps(1)] show ?thesis
    proof
      assume "\<exists>b\<in>set (t_bookings t). \<exists>ty st now. evolves st (bk_status b)
        \<and> Published topic key val = published (booking_event ty (b\<lparr>bk_status := st\<rparr>) now)"
      then obtain b0 ty st now where 0: "b0 \<in> set (t_bookings t)" "evolves st (bk_status b0)"
        "Published topic key val = published (booking_event ty (b0\<lparr>bk_status := st\<rparr>) now)" by blast
      obtain b' where b': "b' \<in> set (t_bookings t')" "bk_id b' = bk_id b0" "bk_listing b' = bk_listing b0"
        "bk_renter b' = bk_renter b0" "evolves (bk_status b0) (bk_status b')" using b [OF 0(1)] by blast
      have "Published topic key val = published (booking_event ty (b'\<lparr>bk_status := st\<rparr>) now)"
        using 0(3) b' by (simp add: published_def booking_event_def)
      then show ?thesis using b'(1) evolves_trans [OF b'(5) 0(2)] unfolding Published about_rows.simps by blast
    qed (use l in \<open>auto simp: Published\<close>)
  next
    case (EmailQueued job)
    then obtain b0 m where "b0 \<in> set (t_bookings t)" "m \<in> {''booking_approved'', ''booking_disputed''}"
      "job = email_json (bk_id b0) (bk_renter b0) m" using assms(1) by auto
    moreover from b [OF this(1)] obtain b' where "b' \<in> set (t_bookings t')" "bk_id b' = bk_id b0" "bk_renter b' = bk_renter b0" by blast
    ultimately show ?thesis unfolding EmailQueued about_rows.simps by metis
  next
    case (SyncSent user m)
    then show ?thesis using assms(1) b by fastforce
  next
    case (OwnerPush user j)
    then show ?thesis using assms(1) l by auto
  qed
qed

definition tells_rows :: "world \<Rightarrow> bool" where
  "tells_rows w \<longleftrightarrow> world_inv w \<and> replica w = None \<and> (\<forall>x\<in>set (effects w). about_rows (primary w) x)"

lemma tells_rows_append:
  assumes "tells_rows w" and "safe w w'" and "effects w' = effects w @ es" and "\<forall>x\<in>set es. about_rows (primary w') x"
  shows "tells_rows w'"
  using assms about_rows_history by (auto simp: tells_rows_def safe_def)

lemma event_about:
  assumes "b \<in> set (t_bookings t)"
  shows "about_rows t (published (booking_event ty b now))"
proof -
  have "published (booking_event ty b now) = published (booking_event ty (b\<lparr>bk_status := bk_status b\<rparr>) now)" by simp
  then show ?thesis using assms evolves.stay unfolding published_def about_rows.simps by blast
qed

lemma listed_about: "l \<in> set (t_listings t) \<Longrightarrow> n \<in> insert '''' (ca_name ` set (t_categories t)) \<Longrightarrow> about_rows t (listed l n)"
  unfolding listed_def about_rows.simps by blast

lemma announcements_about:
  assumes "b \<in> set (t_bookings t)" and "x \<in> set (announcements s ty b now)"
  shows "about_rows t x"
proof -
  have "x = published (booking_event ty b now) \<or> (\<exists>m\<in>{''booking_approved'', ''booking_disputed''}. x = EmailQueued (email_json (bk_id b) (bk_renter b) m))
    \<or> x = SyncSent (bk_renter b) ''booking_disputed''"
    using assms(2) by (auto simp: announcements_def published_def booking_event_def TopicBookingEvents_def split: if_splits)
  then show ?thesis using assms(1) event_about by auto
qed

lemma tells_rows_one:
  assumes "tells_rows w" and "safe w w'" and "effects w' = effects w \<or> (\<exists>x. about_rows (primary w') x \<and> effects w' = effects w @ [x])"
  shows "tells_rows w'"
  using tells_rows_append [OF assms(1,2), of "[]"] tells_rows_append [OF assms(1,2)] assms(3) by fastforce

lemma tells_rows_step: "log_step s w w' \<Longrightarrow> tells_rows w \<Longrightarrow> tells_rows w'"
proof (induction rule: log_step.induct)
  case (l_create l r start finish w res w')
  then have "replica w = None" by (simp add: tells_rows_def)
  then have "effects w' = effects w \<or> (\<exists>x. about_rows (primary w') x \<and> effects w' = effects w @ [x])"
    using create_effects [OF l_create(1)] event_about by blast
  then show ?case by (rule tells_rows_one [OF l_create.prems CreateBooking_safe [OF l_create.hyps]])
next
  case (l_transition i new ty w res w')
  have safe: "safe w w'" by (rule transition_safe [OF l_transition(1)])
  have "replica w = None" using l_transition(2) by (simp add: tells_rows_def)
  from transition_sends [OF l_transition(1) this] show ?case
  proof (elim disjE exE conjE)
    fix b es assume b: "b \<in> set (t_bookings (primary w'))" and e: "effects w' = effects w @ es"
      and sub: "subseq es (announcements s ty b (clock w))"
    have "x \<in> set (announcements s ty b (clock w))" if "x \<in> set es" for x
      by (rule list_emb_set [OF sub that]) simp
    then show ?case using tells_rows_append [OF l_transition(2) safe e] announcements_about [OF b] by blast
  qed (simp add: tells_rows_one [OF l_transition(2) safe])
next
  case (l_notify w h b)
  then have "replica w = None" by (simp add: tells_rows_def)
  then have "effects (notifyOwner h b w) = effects w
      \<or> (\<exists>x. about_rows (primary (notifyOwner h b w)) x \<and> effects (notifyOwner h b w) = effects w @ [x])"
    using notify_effects [of w h b] by fastforce
  then show ?case by (rule tells_rows_one [OF l_notify safe_servers [OF notifyOwner_servers]])
next
  case (l_listing has inp w res w')
  then have "replica w = None" by (simp add: tells_rows_def)
  then have "effects w' = effects w \<or> (\<exists>x. about_rows (primary w') x \<and> effects w' = effects w @ [x])"
    using listing_service_effects [OF l_listing(1)] listed_about by blast
  then show ?case by (rule tells_rows_one [OF l_listing(2) listing_service_safe [OF l_listing(1)]])
next
  case (l_quiet w w')
  then show ?case using tells_rows_one by blast
qed

lemma tells_rows_run: "(log_step s)\<^sup>*\<^sup>* w w' \<Longrightarrow> tells_rows w \<Longrightarrow> tells_rows w'"
  by (induction rule: rtranclp_induct) (blast intro: tells_rows_step)+

subsection \<open>Every message is read\<close>

text \<open>What the columns hold: MySQL's \<open>BIGINT\<close> and \<open>utf8mb4\<close>.\<close>

definition storable :: "tables \<Rightarrow> bool" where
  "storable t \<longleftrightarrow> (\<forall>b\<in>set (t_bookings t). in_int64 (bk_id b) \<and> in_int64 (bk_listing b) \<and> in_int64 (bk_renter b))
     \<and> (\<forall>l\<in>set (t_listings t). in_int64 (ls_id l) \<and> in_int64 (ls_price l) \<and> valid_utf8 (ls_title l) \<and> valid_utf8 (ls_desc l))
     \<and> (\<forall>c\<in>set (t_categories t). valid_utf8 (ca_name c))"

lemma booking_event_read:
  assumes "about_rows t (Published TopicBookingEvents key val)" and "storable t" and "\<forall>t. list_all GoJson.plain (jt_time T t)"
  shows "\<exists>b\<in>set (t_bookings t). \<exists>st. key = format_int (bk_id b) \<and> evolves st (bk_status b)
    \<and> audit_message (Marshal T val) = (None, ''search-indexer: [audit] booking '' @ format_int (bk_id b)
         @ '' on listing '' @ format_int (bk_listing b) @ '' -> '' @ status_str st)"
proof -
  have "\<not> (\<exists>l n. Published TopicBookingEvents key val = listed l n)"
    by (simp add: listed_def TopicBookingEvents_def TopicListingEvents_def)
  then obtain b ty st now where b: "b \<in> set (t_bookings t)" "evolves st (bk_status b)"
    "Published TopicBookingEvents key val = published (booking_event ty (b\<lparr>bk_status := st\<rparr>) now)"
    using assms(1) unfolding about_rows.simps by blast
  have "audit_message (Marshal T val) = audit_handler val"
    using audit_crosses [of "booking_event ty (b\<lparr>bk_status := st\<rparr>) now" T] b(1,3) assms(2,3)
    by (simp add: published_def booking_event_def storable_def)
  then show ?thesis using b audit_of_event [of "booking_event ty (b\<lparr>bk_status := st\<rparr>) now"]
    by (intro bexI [OF _ b(1)] exI [of _ st]) (simp add: published_def booking_event_def)
qed

lemma listing_event_read:
  assumes "about_rows t (Published TopicListingEvents key val)" and "storable t"
  shows "\<exists>l\<in>set (t_listings t). \<exists>n\<in>insert '''' (ca_name ` set (t_categories t)). key = format_int (ls_id l)
    \<and> listing_message EsOk (Marshal T val) ix = (None, ix(ls_id l := Some (indexed (created_event l n))))"
proof -
  have "\<not> (\<exists>b ty now. Published TopicListingEvents key val = published (booking_event ty b now))"
    by (simp add: published_def TopicBookingEvents_def TopicListingEvents_def)
  then obtain l n where l: "l \<in> set (t_listings t)" "n \<in> insert '''' (ca_name ` set (t_categories t))"
    "Published TopicListingEvents key val = listed l n"
    using assms(1) unfolding about_rows.simps by blast
  have "valid_utf8 n" using l(2) assms(2) by (auto simp: storable_def valid_ascii)
  moreover have "valid_utf8 (lstatus_str (ls_status l))" by (cases "ls_status l") (simp_all add: valid_ascii)
  ultimately have "listing_message EsOk (Marshal T val) ix = handle_listing_event EsOk val ix"
    using listing_crosses [of "created_event l n" EsOk T ix] l(1,3) assms(2)
    by (simp add: listed_def created_event_def storable_def)
  then show ?thesis using l handle_step [of "created_event l n" ix]
    by (intro bexI [OF _ l(1)] bexI [OF _ l(2)]) (simp add: listed_def created_event_def after_event_def)
qed

lemma mail_job_read:
  assumes "about_rows t (EmailQueued job)" and "storable t"
  shows "\<exists>b\<in>set (t_bookings t). \<exists>m\<in>{''booking_approved'', ''booking_disputed''}.
    email_message client (Marshal T job) v = sendTransactional client (bk_renter b) m None v"
proof -
  obtain b m where b: "b \<in> set (t_bookings t)" "m \<in> {''booking_approved'', ''booking_disputed''}"
    "job = email_json (bk_id b) (bk_renter b) m" using assms(1) by auto
  have "email_message client (Marshal T job) v = email_handler client job v"
    unfolding b(3) by (rule email_crosses) (use b(1,2) assms(2) in \<open>auto simp: storable_def valid_ascii\<close>)
  then show ?thesis using b by (auto simp: email_handler_def)
qed

text \<open>C17 (refinement): in every run of the whole API whose reads see the primary, whatever is
  requested and whatever fails: the bytes of every booking event are read by the search indexer's
  audit without an error, as a booking of the database in a status it has or had; those of every listing
  event become the document of a listing of the database; those of every mail job lead to a mail to
  the renter of a booking of the database.\<close>

theorem every_message_is_read:
  assumes "(system_step (with_redis_limits ip a))\<^sup>*\<^sup>* w w'" and "remote_quiet (ap_search a)"
    and "world_inv w" and "replica w = None" and "effects w = []"
    and "storable (primary w')" and "\<forall>t. list_all GoJson.plain (jt_time T t)"
  shows "(Published TopicBookingEvents key val \<in> set (effects w') \<longrightarrow>
      (\<exists>b\<in>set (t_bookings (primary w')). \<exists>st. key = format_int (bk_id b) \<and> evolves st (bk_status b)
        \<and> audit_message (Marshal T val) = (None, ''search-indexer: [audit] booking '' @ format_int (bk_id b)
             @ '' on listing '' @ format_int (bk_listing b) @ '' -> '' @ status_str st)))
    \<and> (Published TopicListingEvents key val \<in> set (effects w') \<longrightarrow>
      (\<exists>l\<in>set (t_listings (primary w')). \<exists>n\<in>insert '''' (ca_name ` set (t_categories (primary w'))). key = format_int (ls_id l)
        \<and> listing_message EsOk (Marshal T val) ix = (None, ix(ls_id l := Some (indexed (created_event l n))))))
    \<and> (EmailQueued job \<in> set (effects w') \<longrightarrow>
      (\<exists>b\<in>set (t_bookings (primary w')). \<exists>m\<in>{''booking_approved'', ''booking_disputed''}.
        email_message client (Marshal T job) v = sendTransactional client (bk_renter b) m None v))"
proof -
  have "tells_rows w'"
    using tells_rows_run [OF runs_logged [OF assms(1) system_step_logged [OF _ assms(2)]]] assms(3-5)
    by (simp add: tells_rows_def)
  then have "about_rows (primary w') x" if "x \<in> set (effects w')" for x using that by (simp add: tells_rows_def)
  then show ?thesis
    by (intro conjI impI) (rule booking_event_read listing_event_read mail_job_read, assumption | rule assms(6,7))+
qed

subsection \<open>A run\<close>

text \<open>An approval with a verified token, while Redis does not answer: the request passes the
  limiter, the booking moves and its event and mail job are sent.\<close>

definition approve_req :: http_req where
  "approve_req = (sample_req ''1'')\<lparr>rq_headers := [(''Authorization'', ''Bearer t'')]\<rparr>"

definition approved_row :: booking where
  "approved_row = set_status Approved (19990 * day_ns) (sample_booking Requested)"

lemma sample_limit:
  "Middleware 300 (60 * second) (ResolveClientIP rq_remote) h r (sample_world\<lparr>faults := [Fails ErrNoRows]\<rparr>) = h r sample_world"
proof -
  have "float_to_int (duration_seconds (60 * second)) = 60" using duration_seconds_whole [of 60] float_to_int_of_int [of 60] by simp
  then show ?thesis by (simp add: Middleware_def Allow_def Let_def redis_incr_def io_def sample_world_def world_of_def)
qed

lemma sample_token:
  "\<exists>r'. rq_id r' = ''1'' \<and> RequireJWT (ap_jwt signed_app) (ap_issuer signed_app) h approve_req sample_world = h r' sample_world"
  by (intro exI [of _ "approve_req\<lparr>rq_claims := Some \<lparr>cl_user = 2, cl_role = ''owner''\<rparr>\<rparr>"])
    (simp add: RequireJWT_def approve_req_def field_def jwt_Verify_def signed_app_def sample_app_def sample_req_def sample_world_def world_of_def)

lemma sample_approved:
  obtains w' where "transition all_wired 1 Approved EventBookingApproved sample_world = (Inr approved_row, w')"
    "primary w' = (sample_tables Requested)\<lparr>t_bookings := [approved_row]\<rparr>" "replica w' = None"
    "effects w' = announcements all_wired EventBookingApproved approved_row (19990 * day_ns)"
proof -
  have w: "faults sample_world = []" "replica sample_world = None" "effects sample_world = []" "clock sample_world = 19990 * day_ns"
    by (simp_all add: sample_world_def world_of_def)
  have rd: "reader sample_world = sample_tables Requested" "primary sample_world = sample_tables Requested"
    by (simp_all add: reader_def sample_world_def world_of_def)
  have i: "booking_by_id 1 (sample_tables Requested) = Some (sample_booking Requested)"
    by (simp add: booking_by_id_def sample_tables_def sample_booking_def)
  have n: "CanTransition (bk_status (sample_booking Requested)) Approved"
    by (simp add: sample_booking_def CanTransition_def)
  have m: "map (update_row 1 Approved (19990 * day_ns)) (t_bookings (sample_tables Requested)) = [approved_row]"
    by (simp add: sample_tables_def sample_booking_def update_row_def approved_row_def)
  have k: "bk_id approved_row = 1" by (simp add: approved_row_def sample_booking_def)
  obtain res w' where t: "transition all_wired 1 Approved EventBookingApproved sample_world = (res, w')" by fastforce
  obtain b where r: "res = Inr b"
    using t n i w rd m k
    by (auto simp: transition_def UpdateStatus_def GetByID_works rd sql_exec_works update_booking_status_def reader_def Let_def booking_by_id_def)
  obtain r1 w1 where u: "UpdateStatus 1 Approved sample_world = (r1, w1)" "db_of w' = db_of w1" "is_ok r1"
    using transition_cases [OF t] r by (metis is_ok_iff)
  have p: "primary w' = (sample_tables Requested)\<lparr>t_bookings := [approved_row]\<rparr>"
    using UpdateStatus_cases(3) [OF u(1)] u(2,3) by (simp add: db_of_def rd w m)
  have rep: "replica w' = None" using transition_safe [OF t] w(2) by (simp add: safe_def)
  have "booking_by_id 1 (primary w') = Some b" "effects w' = announcements all_wired EventBookingApproved b (19990 * day_ns)"
    using transition_announces [OF t] w r reader_primary [OF rep] by auto
  then show thesis using that t r p rep k by (simp add: booking_by_id_def)
qed

lemma sample_run:
  obtains resp w' where "serve (with_redis_limits rq_remote signed_app) PostApprove approve_req (sample_world\<lparr>faults := [Fails ErrNoRows]\<rparr>) = (resp, w')"
    "primary w' = (sample_tables Requested)\<lparr>t_bookings := [approved_row]\<rparr>"
    "published (booking_event EventBookingApproved approved_row (19990 * day_ns)) \<in> set (effects w')"
proof -
  obtain w1 where t: "transition all_wired 1 Approved EventBookingApproved sample_world = (Inr approved_row, w1)"
    "primary w1 = (sample_tables Requested)\<lparr>t_bookings := [approved_row]\<rparr>" "replica w1 = None"
    "effects w1 = announcements all_wired EventBookingApproved approved_row (19990 * day_ns)" by (rule sample_approved)
  obtain r where r: "rq_id r = ''1''" "RequireJWT (ap_jwt signed_app) (ap_issuer signed_app) (Approve_handler sample_handler) approve_req sample_world
      = Approve_handler sample_handler r sample_world" using sample_token by blast
  have "format_int 1 = ''1''" by code_simp
  then have "parse_int64 ''1'' = Inr 1" using parse_int64_format_int [of 1] by (simp add: int64_defs)
  then have "snd (Approve_handler sample_handler r sample_world) = notifyOwner sample_handler approved_row w1"
    using t(1) r(1) by (simp add: transition_handlers transition_ops transitionHandler_def sample_handler_def)
  moreover have "snd (serve (with_redis_limits rq_remote signed_app) PostApprove approve_req (sample_world\<lparr>faults := [Fails ErrNoRows]\<rparr>))
      = snd (Approve_handler sample_handler r sample_world)"
    by (simp add: serve_snd with_redis_limits_def sample_limit r(2) [symmetric]) (simp add: signed_app_def sample_app_def)
  moreover have "published (booking_event EventBookingApproved approved_row (19990 * day_ns)) \<in> set (effects w1)"
    by (simp add: t(4) announcements_def all_wired_def published_def booking_event_def TopicBookingEvents_def)
  moreover have "set (effects w1) \<subseteq> set (effects (notifyOwner sample_handler approved_row w1))"
    using notify_effects [OF t(3), of sample_handler approved_row] by auto
  ultimately show thesis using that [OF surjective_pairing] t(2) by auto
qed

theorem every_message_is_read_witness:
  "\<exists>resp w' val. serve (with_redis_limits rq_remote signed_app) PostApprove approve_req (sample_world\<lparr>faults := [Fails ErrNoRows]\<rparr>) = (resp, w')
     \<and> Published TopicBookingEvents ''1'' val \<in> set (effects w')
     \<and> (\<exists>st. audit_message (Marshal \<lparr>jt_time = \<lambda>t. ''2024-10-04T00:00:00Z'', jt_float = \<lambda>x. ''0''\<rparr> val)
           = (None, ''search-indexer: [audit] booking 1 on listing 1 -> '' @ status_str st))"
proof -
  let ?T = "\<lparr>jt_time = \<lambda>t. ''2024-10-04T00:00:00Z'', jt_float = \<lambda>x. ''0''\<rparr>"
  let ?w = "sample_world\<lparr>faults := [Fails ErrNoRows]\<rparr>"
  let ?val = "event_json (booking_event EventBookingApproved approved_row (19990 * day_ns))"
  have one: "format_int 1 = ''1''" by code_simp
  obtain resp w' where s: "serve (with_redis_limits rq_remote signed_app) PostApprove approve_req ?w = (resp, w')"
    "primary w' = (sample_tables Requested)\<lparr>t_bookings := [approved_row]\<rparr>"
    "published (booking_event EventBookingApproved approved_row (19990 * day_ns)) \<in> set (effects w')" by (rule sample_run)
  have row: "bk_id approved_row = 1" "bk_listing approved_row = 1" "bk_renter approved_row = 1"
    by (simp_all add: approved_row_def sample_booking_def set_status_def)
  have pub: "Published TopicBookingEvents ''1'' ?val \<in> set (effects w')"
    using s(3) by (simp add: published_def booking_event_def row one)
  have run: "(system_step (with_redis_limits rq_remote signed_app))\<^sup>*\<^sup>* ?w w'"
    by (intro r_into_rtranclp request [OF s(1)]) simp
  have quiet: "remote_quiet (ap_search signed_app)" using sample_remote by (simp add: signed_app_def)
  have start: "world_inv ?w" "replica ?w = None" "effects ?w = []"
    using sample_inv by (simp_all add: world_inv_def db_of_def sample_world_def world_of_def)
  have cols: "storable (primary w')"
    by (simp add: s(2) storable_def row sample_tables_def sample_listing_def int64_defs valid_ascii)
  have times: "\<forall>t. list_all GoJson.plain (jt_time ?T t)" by (simp add: GoJson.plain_def)
  obtain b st where "b \<in> set (t_bookings (primary w'))" "audit_message (Marshal ?T ?val) = (None, ''search-indexer: [audit] booking '' @ format_int (bk_id b)
         @ '' on listing '' @ format_int (bk_listing b) @ '' -> '' @ status_str st)"
    using every_message_is_read [OF run quiet start cols times, of "''1''" ?val] pub by blast
  then have "audit_message (Marshal ?T ?val) = (None, ''search-indexer: [audit] booking 1 on listing 1 -> '' @ status_str st)"
    by (simp add: s(2) row one)
  then show ?thesis using s(1) pub by blast
qed

end
