(* ===== verification/Spec2Isabelle.thy ===== *)
theory Spec2Isabelle
  imports BookingSpec BookingLife BookingApi AuthSpec UserSpec CatalogSpec
    Polling Hub SearchSpec MessagingSpec ServicesSpec LimitSpec System Responses Wiring
    Documents Startup Redelivery EventLog EventRuns Metrics Sockets Brokers Processes Lifecycle
    Requests Messages
begin

text \<open>
  GearShare is a marketplace for renting outdoor gear, written in Go: one API process
  (\<open>cmd/api\<close>, \<open>internal/\<close>) over MySQL, with Redis, Kafka, RabbitMQ, MongoDB and Elasticsearch
  beside it, and three small processes: \<open>cmd/search-indexer\<close>, \<open>cmd/notification-service\<close> and
  \<open>cmd/thumbnail-fn\<close>. This development models the API and the decisions of the other processes as
  HOL functions and step relations, and proves what makes them correct.

  \<^bold>\<open>The world.\<close> \<^theory_text>\<open>Schema\<close> holds the tables of the migrations as lists of records, their keys and checks
  (\<open>wf_tables\<close>) and one function per statement that writes, with the errors MySQL gives;
  \<^theory_text>\<open>Database\<close> the record \<open>world\<close>: the primary server, an optional replica, the auto-increment
  counters, the clock, Redis, and what was sent to brokers and mail queue (\<open>effects\<close>). Every external
  call takes its outcome from the script \<open>faults\<close>: it works, fails without effect, or its
  effect happens and the reply is lost. The script is finite, an empty one means that calls work, and
  theorems quantify over all scripts unless they say \<open>faults w = []\<close>. \<open>WithinTransaction\<close>
  (\<open>internal/db/tx.go\<close>) runs with its three attempts; the locale \<open>tx_body\<close> is the contract of a
  transaction's body, interpreted on the booking and the OAuth transactions. A transaction is one
  step of the primary: MySQL's isolation of concurrent transactions is assumed, not modelled.

  \<^bold>\<open>Theories and code.\<close>
  \<^item> \<^theory_text>\<open>Prelude\<close>, \<^theory_text>\<open>GoStd\<close>, \<^theory_text>\<open>GoTime\<close>, \<^theory_text>\<open>GoFloat\<close>, \<^theory_text>\<open>GoBytes\<close>: results and wrapped errors, and what
    the code uses of Go: 64-bit arithmetic, \<open>strconv\<close>, \<open>strings\<close>, dates and durations with their
    saturation, IEEE doubles rounded to even, base64, hex, constant-time comparison.
  \<^item> \<^theory_text>\<open>Pricing\<close>, \<^theory_text>\<open>Availability\<close>, \<^theory_text>\<open>Listings\<close>, \<^theory_text>\<open>Booking\<close>, \<^theory_text>\<open>BookingApi\<close>: \<open>internal/booking\<close>,
    \<open>internal/availability\<close> and the listing repository. \<^theory_text>\<open>BookingInv\<close> has the invariant,
    \<^theory_text>\<open>BookingSpec\<close> the calendar as the abstract state and the refinement to it, \<^theory_text>\<open>BookingLife\<close> when
    bookings succeed, the lifecycle, and what a transition announces.
  \<^item> \<^theory_text>\<open>Http\<close>, \<^theory_text>\<open>Cache\<close>, \<^theory_text>\<open>LimitSpec\<close>: \<open>internal/httputil\<close>, \<open>internal/cache\<close>: conditional responses, the
    cache-aside store, the fixed-window limiter and what a window lets through.
  \<^item> \<^theory_text>\<open>Reviews\<close>, \<^theory_text>\<open>Feeds\<close>, \<^theory_text>\<open>FeedSpec\<close>, \<^theory_text>\<open>Catalog\<close>, \<^theory_text>\<open>CatalogSpec\<close>: \<open>internal/category\<close>,
    \<open>internal/review\<close> and \<open>internal/listing\<close>: the three feeds and their equality, the cached endpoints.
  \<^item> \<^theory_text>\<open>Auth\<close>, \<^theory_text>\<open>Passwords\<close>, \<^theory_text>\<open>AuthSpec\<close>, \<^theory_text>\<open>Users\<close>, \<^theory_text>\<open>UserSpec\<close>: \<open>internal/auth\<close> and \<open>internal/user\<close>: tokens,
    keys, sessions, CSRF, basic authentication, the two hashers behind the locale
    \<open>password_hasher\<close>, registration, login, login with Google.
  \<^item> \<^theory_text>\<open>Polling\<close>, \<^theory_text>\<open>Hub\<close>: \<open>internal/realtime\<close>: the long poll over time, the hub with its buffered
    channels as a step relation, the event stream and the socket. \<^theory_text>\<open>Sockets\<close> has the socket's two
    goroutines with their \<open>sync.Once\<close>, as steps of the hub.
  \<^item> \<^theory_text>\<open>Search\<close>, \<^theory_text>\<open>SearchSpec\<close>: \<open>internal/search\<close>, \<open>internal/middleware/breaker.go\<close> and the decisions of
    \<open>cmd/search-indexer\<close>.
  \<^item> \<^theory_text>\<open>Messaging\<close>, \<^theory_text>\<open>MessagingSpec\<close>: \<open>internal/queue\<close> and \<open>internal/eventbus\<close>: declarations and routing, the
    RabbitMQ and the Kafka consumer as step relations. \<^theory_text>\<open>Redelivery\<close>: the worker around a consumer,
    with the signal, the closed channel and the return of what it held; \<^theory_text>\<open>Brokers\<close>: opening
    publisher and consumers, in any order and with failed attempts; \<^theory_text>\<open>EventLog\<close>, \<^theory_text>\<open>EventRuns\<close>: the
    Kafka producer over a partitioned log, and what the partition of a booking says of it in every run
    of the whole API. \<^theory_text>\<open>Messages\<close>: in those runs every message is about rows of the database
    and its consumer reads its bytes.
  \<^item> \<^theory_text>\<open>Services\<close>, \<^theory_text>\<open>ServicesSpec\<close>: \<open>cmd/notification-service\<close>, \<open>internal/notification\<close> and
    \<open>cmd/thumbnail-fn\<close>: the mails a transition leads to across three processes, the sizes of thumbnails.
  \<^item> \<^theory_text>\<open>GoJson\<close>, \<^theory_text>\<open>JsonClean\<close>, \<^theory_text>\<open>Requests\<close>: \<open>encoding/json\<close> as text: what \<open>Marshal\<close> writes, the
    decoder's lexer and its stack machine over bytes, struct fields by name, what a decoder can deliver; then \<open>httputil.DecodeJSON\<close> for every request,
    what the API does with bodies that do not decode, and the messages of the processes as bytes.
  \<^item> \<^theory_text>\<open>Config\<close>, \<^theory_text>\<open>App\<close>, \<^theory_text>\<open>Wiring\<close>: \<open>internal/config\<close>, \<open>internal/app\<close> with the remaining handlers and
    middlewares, and what \<open>cmd/api/main.go\<close> builds from the environment and the reachable backends.
  \<^item> \<^theory_text>\<open>Documents\<close>, \<^theory_text>\<open>Startup\<close>: \<open>internal/spec\<close>, \<open>internal/damagereport\<close> and what opens the backends
    (\<open>internal/db\<close>, \<open>internal/mongo\<close>, \<open>EnsureIndex\<close>): the two MongoDB collections, through the locale
    \<open>keyed_store\<close> that the search index satisfies too, the two MySQL pools, the index.
  \<^item> \<^theory_text>\<open>Processes\<close>, \<^theory_text>\<open>Lifecycle\<close>: the mains of the other processes up to their signal, the internal gRPC
    server and its interceptor, the clients; tracing, SAML, the HTTP server and the shutdown of the API.
  \<^item> \<^theory_text>\<open>Metrics\<close>: \<open>internal/observability/metrics.go\<close> over the rules of \<open>net/http\<close>'s writer.
  \<^item> \<^theory_text>\<open>Responses\<close>: what every answer has in common, through the same guards and handlers.
  \<^item> \<^theory_text>\<open>Safety\<close>, \<^theory_text>\<open>System\<close>: no handler breaks what all requests must keep, shown per handler and through
    the locale \<open>guard\<close> for the middlewares; \<open>system_step\<close> is the API as one state machine and its
    reachable states keep the invariants. \<^theory_text>\<open>Samples\<close> has the concrete worlds of the witnesses.

  \<^bold>\<open>Conventions.\<close> Definitions keep the names of the source; a name that several packages use, or that
  HOL has, gets the package as a prefix (\<open>user_Create\<close>, \<open>listing_GetByID\<close>). A nil collaborator is
  \<open>None\<close> or \<open>False\<close>, a Go error a value of \<open>gerr\<close>, a JSON answer or message a value of \<open>json\<close>, whose
  bytes are \<open>Marshal\<close> of it; handlers take the decoded request, \<open>None\<close> when it does not decode, and
  \<open>route_of\<close> gives the route for the bytes. Identifiers and amounts are \<open>int\<close>, with \<open>wrap64\<close> where the code computes and
  the column's range where the database stores.

  \<^bold>\<open>Arguments.\<close> What is not in the repository is an argument: hash functions, bcrypt and scrypt, the
  JWT library, Google, MD5, the texts of floats and times in JSON and of a cached page, the collations and \<open>AVG\<close> of MySQL, the circuit
  breaker, the gRPC channel, Elasticsearch, image codecs, the MongoDB driver. Theorems that need
  more than their type state it as a hypothesis (\<open>jwt_contract\<close>, \<open>bcrypt_good\<close>, \<open>remote_quiet\<close>).

  \<^bold>\<open>Bounds.\<close> No definition uses fuel. The poll's recursion is bounded by its 50 ticks, the transaction
  loop by its three attempts, the duration parser by its input; queues and consumers are relations
  whose runs are shown to end.

  \<^bold>\<open>Not modelled.\<close> The inside of libraries (Prometheus, OpenTelemetry, the SAML protocol and sessions,
  CORS and the limiter inside the process, whose settings are modelled), the delivery of signals, the
  generated protobuf code, HTML rendering (a page is the data given to its template), log lines other
  than the simulated mail and the audit, request timeouts, and the interleaving of statements of two
  concurrent requests, which is left to MySQL and appears only through the replica and the poll.
\<close>

end
